(* ===== verification/Dh_Prelude.thy ===== *)
theory Dh_Prelude
  imports Complex_Main "HOL-Library.AList"
begin

text \<open>
  What the component theories share: the theorem collections of the development, lemmas on
  lists and on JavaScript records, and two interfaces.

  A JavaScript \<^verbatim>\<open>Record<string, V>\<close> or \<^verbatim>\<open>Map<string, V>\<close> is an association list in
  insertion order: assigning an existing key keeps its position, assigning a new key appends,
  \<^verbatim>\<open>delete\<close> removes. \<open>AList.update\<close> and \<open>AList.delete\<close> do exactly that.
  (Integer-like keys, which engines enumerate first, do not occur: the program's keys are
  window ids, UUIDs and formatted claim keys.)
\<close>

named_theorems tile_simps \<open>equations of the tile tree operations on panes and items\<close>
named_theorems inv_intros \<open>invariant preservation, one rule per operation\<close>

type_synonym 'v js_record = "(string \<times> 'v) list"

abbreviation rec_get :: "'v js_record \<Rightarrow> string \<Rightarrow> 'v option" where
  "rec_get m k \<equiv> map_of m k"

abbreviation rec_set :: "string \<Rightarrow> 'v \<Rightarrow> 'v js_record \<Rightarrow> 'v js_record" where
  "rec_set k v m \<equiv> AList.update k v m"

abbreviation rec_del :: "string \<Rightarrow> 'v js_record \<Rightarrow> 'v js_record" where
  "rec_del k m \<equiv> AList.delete k m"

abbreviation rec_wf :: "'v js_record \<Rightarrow> bool" where
  "rec_wf m \<equiv> distinct (map fst m)"

text \<open>\<open>xs.splice(i, 0, x)\<close> for \<open>i \<le> length xs\<close>, and \<open>xs.splice(i, 1)\<close>.\<close>

definition splice_insert :: "nat \<Rightarrow> 'a \<Rightarrow> 'a list \<Rightarrow> 'a list" where
  "splice_insert i x xs = take i xs @ x # drop i xs"

definition splice_remove :: "nat \<Rightarrow> 'a list \<Rightarrow> 'a list" where
  "splice_remove i xs = take i xs @ drop (Suc i) xs"

text \<open>\<open>xs[xs.length - 1]\<close> and \<open>xs[0]\<close>, undefined on the empty array.\<close>

definition js_last :: "'a list \<Rightarrow> 'a option" where
  "js_last xs = (if xs = [] then None else Some (last xs))"

definition js_first :: "'a list \<Rightarrow> 'a option" where
  "js_first xs = (case xs of [] \<Rightarrow> None | x # _ \<Rightarrow> Some x)"

text \<open>Decimal digits of a template literal \<open>`${n}`\<close>, and \<open>String.prototype.trim\<close> on the
  white space of the first 256 code units.\<close>

fun nat_dec :: "nat \<Rightarrow> string" where
  "nat_dec n = (if n < 10 then [char_of (48 + n)] else nat_dec (n div 10) @ [char_of (48 + n mod 10)])"

definition js_space :: "char \<Rightarrow> bool" where
  "js_space c \<longleftrightarrow> (of_char c :: nat) \<in> {9, 10, 11, 12, 13, 32, 160}"

definition js_trim :: "string \<Rightarrow> string" where
  "js_trim s = rev (dropWhile js_space (rev (dropWhile js_space s)))"

declare nat_dec.simps [simp del]

lemma digit_inj: "char_of (48 + a) = (char_of (48 + b) :: char) \<Longrightarrow> a < 10 \<Longrightarrow> b < 10 \<Longrightarrow> a = (b::nat)"
  by (drule arg_cong [where f = "of_char :: char \<Rightarrow> nat"]) simp

lemma nat_dec_nonempty [simp]: "nat_dec n \<noteq> []" "[] \<noteq> nat_dec n"
  by (subst nat_dec.simps, simp)+

lemma nat_dec_inj [simp]: "nat_dec n = nat_dec m \<longleftrightarrow> n = m"
proof (induction n arbitrary: m rule: nat_dec.induct)
  case (1 n)
  show ?case
  proof (cases "n < 10"; cases "m < 10")
    assume n: "\<not> n < 10" and m: "\<not> m < 10"
    have "nat_dec n = nat_dec m \<longleftrightarrow>
        nat_dec (n div 10) = nat_dec (m div 10) \<and> char_of (48 + n mod 10) = (char_of (48 + m mod 10) :: char)"
      using n m by (simp add: nat_dec.simps [of n] nat_dec.simps [of m])
    also have "\<dots> \<longleftrightarrow> n div 10 = m div 10 \<and> n mod 10 = m mod 10"
      using 1 [OF n] digit_inj [of "n mod 10" "m mod 10"] by auto
    also have "\<dots> \<longleftrightarrow> n = m" by (metis div_mult_mod_eq)
    finally show ?thesis .
  qed (auto simp: nat_dec.simps [of n] nat_dec.simps [of m] dest: digit_inj)
qed

section \<open>Lists\<close>

lemma set_splice_insert [simp]: "set (splice_insert i x xs) = insert x (set xs)"
proof -
  have "set xs = set (take i xs) \<union> set (drop i xs)"
    by (metis append_take_drop_id set_append)
  then show ?thesis by (auto simp: splice_insert_def)
qed

lemma distinct_splice_insert [simp]:
  "distinct (splice_insert i x xs) \<longleftrightarrow> x \<notin> set xs \<and> distinct xs"
proof -
  have "distinct (splice_insert i x xs) = distinct (x # take i xs @ drop i xs)"
    by (auto simp: splice_insert_def simp del: append_take_drop_id)
  then show ?thesis by simp
qed

lemma splice_insert_end [simp]: "splice_insert (length xs) x xs = xs @ [x]"
  by (simp add: splice_insert_def)

lemma splice_insert_nth: "i \<le> length xs \<Longrightarrow> splice_insert i x xs ! i = x"
  by (simp add: splice_insert_def nth_append)

lemma length_splice_insert [simp]: "length (splice_insert i x xs) = Suc (length xs)"
  by (simp add: splice_insert_def)

lemma splice_move:
  assumes "i < length xs"
  shows "set (splice_insert j (xs ! i) (splice_remove i xs)) = set xs"
    and "distinct xs \<Longrightarrow> distinct (splice_insert j (xs ! i) (splice_remove i xs))"
proof -
  obtain as y bs where xs: "xs = as @ y # bs" and i: "i = length as"
    using assms id_take_nth_drop [OF assms] by (metis length_take min_absorb2 order_less_imp_le)
  show "set (splice_insert j (xs ! i) (splice_remove i xs)) = set xs"
    by (auto simp: splice_remove_def xs i)
  show "distinct xs \<Longrightarrow> distinct (splice_insert j (xs ! i) (splice_remove i xs))"
    by (auto simp: splice_remove_def xs i)
qed

lemma filter_neq_id: "x \<notin> set xs \<Longrightarrow> filter (\<lambda>y. y \<noteq> x) xs = xs"
  by (induction xs) auto

lemma find_Some_in: "find P xs = Some x \<Longrightarrow> x \<in> set xs \<and> P x"
  by (induction xs) (auto split: if_splits)

lemma find_None_iff': "find P xs = None \<longleftrightarrow> (\<forall>x \<in> set xs. \<not> P x)"
  by (induction xs) auto

lemma find_unique:
  assumes "x \<in> set xs" and "P x" and "\<And>y. y \<in> set xs \<Longrightarrow> P y \<Longrightarrow> y = x"
  shows "find P xs = Some x"
proof (cases "find P xs")
  case None
  with assms(1,2) show ?thesis by (simp add: find_None_iff')
next
  case (Some y)
  then have "y \<in> set xs" and "P y" by (simp_all add: find_Some_in)
  then have "y = x" by (rule assms(3))
  with Some show ?thesis by simp
qed

lemma js_last_in: "js_last xs = Some x \<Longrightarrow> x \<in> set xs"
  by (auto simp: js_last_def split: if_splits)

lemma distinct_map_eqD:
  "distinct (map f xs) \<Longrightarrow> x \<in> set xs \<Longrightarrow> y \<in> set xs \<Longrightarrow> f x = f y \<Longrightarrow> x = y"
  by (auto simp: distinct_map inj_on_def)

section \<open>Records\<close>

declare map_of_eq_Some_iff [simp del]

lemma rec_wf_set [simp]: "rec_wf m \<Longrightarrow> rec_wf (rec_set k v m)"
  by (rule distinct_update)

lemma rec_wf_del [simp]: "rec_wf m \<Longrightarrow> rec_wf (rec_del k m)"
  by (rule distinct_delete)

lemma rec_get_set: "rec_get (rec_set k v m) j = (if j = k then Some v else rec_get m j)"
  by (simp add: update_conv')

lemma rec_get_del: "rec_get (rec_del k m) j = (if j = k then None else rec_get m j)"
  by (simp add: delete_conv')

lemma rec_get_iff: "rec_wf m \<Longrightarrow> rec_get m k = Some v \<longleftrightarrow> (k, v) \<in> set m"
  by (rule map_of_eq_Some_iff)

text \<open>
  The interface of a keyed store. Clients (the window table, the resource registry, the
  terminal incarnation table) rely on these laws only.
\<close>

locale keyed_store =
  fixes get :: "'m \<Rightarrow> 'k \<Rightarrow> 'v option"
    and put :: "'k \<Rightarrow> 'v \<Rightarrow> 'm \<Rightarrow> 'm"
    and del :: "'k \<Rightarrow> 'm \<Rightarrow> 'm"
    and ok :: "'m \<Rightarrow> bool"
  assumes get_put: "ok m \<Longrightarrow> get (put k v m) j = (if j = k then Some v else get m j)"
    and get_del: "ok m \<Longrightarrow> get (del k m) j = (if j = k then None else get m j)"
    and ok_put: "ok m \<Longrightarrow> ok (put k v m)"
    and ok_del: "ok m \<Longrightarrow> ok (del k m)"
begin

lemma ball_put:
  assumes "ok m" and "\<forall>j w. get m j = Some w \<longrightarrow> P j w" and "P k v"
  shows "\<forall>j w. get (put k v m) j = Some w \<longrightarrow> P j w"
  using assms by (auto simp: get_put)

lemma ball_del:
  assumes "ok m" and "\<forall>j w. get m j = Some w \<longrightarrow> P j w"
  shows "\<forall>j w. get (del k m) j = Some w \<longrightarrow> P j w"
  using assms by (auto simp: get_del)

end

interpretation js_rec: keyed_store "map_of" "AList.update" "AList.delete" rec_wf
  by unfold_locales (auto simp: update_conv' delete_conv' intro: distinct_update distinct_delete)

section \<open>Event machines\<close>

text \<open>
  A component that handles a sequence of events, each allowed in some states only. A client
  runs the machine over a list of events; the provider promises that every allowed event
  keeps the invariant.
\<close>

fun run_events :: "('s \<Rightarrow> 'e \<Rightarrow> 's) \<Rightarrow> 's \<Rightarrow> 'e list \<Rightarrow> 's" where
  "run_events f s [] = s"
| "run_events f s (e # es) = run_events f (f s e) es"

fun run_allowed :: "('s \<Rightarrow> 'e \<Rightarrow> bool) \<Rightarrow> ('s \<Rightarrow> 'e \<Rightarrow> 's) \<Rightarrow> 's \<Rightarrow> 'e list \<Rightarrow> bool" where
  "run_allowed allowed f s [] = True"
| "run_allowed allowed f s (e # es) = (allowed s e \<and> run_allowed allowed f (f s e) es)"

lemma run_allowed_const: "run_allowed (\<lambda>_ e. P e) f s es \<longleftrightarrow> list_all P es"
  by (induction es arbitrary: s) auto

lemma run_allowed_True [simp]: "run_allowed (\<lambda>_ _. True) f s es"
  by (induction es arbitrary: s) auto

locale event_machine =
  fixes step :: "'s \<Rightarrow> 'e \<Rightarrow> 's"
    and allowed :: "'s \<Rightarrow> 'e \<Rightarrow> bool"
    and inv :: "'s \<Rightarrow> bool"
  assumes step_inv: "inv s \<Longrightarrow> allowed s e \<Longrightarrow> inv (step s e)"
begin

lemma run_inv: "inv s \<Longrightarrow> run_allowed allowed step s es \<Longrightarrow> inv (run_events step s es)"
  by (induction es arbitrary: s) (auto intro: step_inv)

end

end
