(* ===== verification/Js_Value.thy ===== *)
theory Js_Value
  imports Dh_Prelude
begin

text \<open>
  Dynamically typed JavaScript values, as the validators of the program see them (parameters
  of type \<^verbatim>\<open>unknown\<close>), with the operators those validators use: property reads,
  \<^verbatim>\<open>typeof\<close> tests, strict equality, truthiness. Finite numbers are reals (rounding of
  IEEE doubles is not modelled); the non-finite ones are kept apart because
  \<^verbatim>\<open>JSON.parse\<close> returns an infinity for a literal such as \<^verbatim>\<open>1e999\<close> and the
  code tests \<^verbatim>\<open>Number.isFinite\<close>.
\<close>

datatype js_number = Finite real | PosInf | NegInf | NaN

datatype js_value =
    JUndefined
  | JNull
  | JBool bool
  | JNumber js_number
  | JString string
  | JArray "js_value list"
  | JObject "(string \<times> js_value) list"

text \<open>\<open>v.k\<close> or \<open>v[k]\<close> for the property names the validators read; none of them is a
  property of arrays, strings or numbers.\<close>

fun js_get :: "js_value \<Rightarrow> string \<Rightarrow> js_value" where
  "js_get (JObject fs) k = (case map_of fs k of Some v \<Rightarrow> v | None \<Rightarrow> JUndefined)"
| "js_get _ k = JUndefined"

text \<open>\<open>typeof v === "object" && v !== null\<close>\<close>

fun is_object :: "js_value \<Rightarrow> bool" where
  "is_object (JObject _) = True"
| "is_object (JArray _) = True"
| "is_object _ = False"

fun is_string :: "js_value \<Rightarrow> bool" where
  "is_string (JString _) = True"
| "is_string _ = False"

fun is_bool :: "js_value \<Rightarrow> bool" where
  "is_bool (JBool _) = True"
| "is_bool _ = False"

text \<open>\<open>typeof v === "number" && Number.isFinite(v)\<close>, and with \<open>v > 0\<close>\<close>

fun is_finite_number :: "js_value \<Rightarrow> bool" where
  "is_finite_number (JNumber (Finite _)) = True"
| "is_finite_number _ = False"

fun is_positive_number :: "js_value \<Rightarrow> bool" where
  "is_positive_number (JNumber (Finite x)) = (x > 0)"
| "is_positive_number _ = False"

text \<open>\<open>Boolean(v)\<close>\<close>

fun truthy :: "js_value \<Rightarrow> bool" where
  "truthy JUndefined = False"
| "truthy JNull = False"
| "truthy (JBool b) = b"
| "truthy (JNumber n) = (n \<noteq> Finite 0 \<and> n \<noteq> NaN)"
| "truthy (JString s) = (s \<noteq> '''')"
| "truthy (JArray _) = True"
| "truthy (JObject _) = True"

text \<open>\<open>===\<close> on values read from one parsed document: two objects found at different
  places of it are different objects.\<close>

fun strict_eq :: "js_value \<Rightarrow> js_value \<Rightarrow> bool" where
  "strict_eq JUndefined JUndefined = True"
| "strict_eq JNull JNull = True"
| "strict_eq (JBool a) (JBool b) = (a = b)"
| "strict_eq (JNumber a) (JNumber b) = (a = b \<and> a \<noteq> NaN)"
| "strict_eq (JString a) (JString b) = (a = b)"
| "strict_eq _ _ = False"

text \<open>Optional fields: an absent field reads as \<^verbatim>\<open>undefined\<close>, and
  \<^verbatim>\<open>JSON.stringify\<close> omits fields whose value is \<^verbatim>\<open>undefined\<close>.\<close>

definition opt_field :: "string \<Rightarrow> js_value option \<Rightarrow> (string \<times> js_value) list" where
  "opt_field k ov = (case ov of None \<Rightarrow> [] | Some v \<Rightarrow> [(k, v)])"

lemma map_of_opt_field [simp]:
  "map_of (opt_field k ov) j = (if j = k then ov else None)"
  by (auto simp: opt_field_def split: option.splits)

lemma js_get_opt_field [simp]:
  "map_of (opt_field k ov @ fs) j = (if j = k \<and> ov \<noteq> None then ov else map_of fs j)"
  by (auto simp: opt_field_def split: option.splits)

lemma is_stringE: "is_string v \<Longrightarrow> (\<And>s. v = JString s \<Longrightarrow> P) \<Longrightarrow> P"
  by (cases v) auto

lemma strict_eq_string [simp]: "strict_eq v (JString s) \<longleftrightarrow> v = JString s"
  by (cases v) auto

lemma strict_eq_string' [simp]: "strict_eq (JString s) v \<longleftrightarrow> v = JString s"
  by (cases v) auto

text \<open>A property of an object is smaller than the object: recursive validators terminate.\<close>

lemma size_map_of_less: "map_of fs k = Some v \<Longrightarrow> size v < size_list (size_prod (\<lambda>_. 0) size) fs"
proof (induction fs)
  case (Cons f fs)
  then show ?case by (cases f) (auto split: if_splits)
qed simp

lemma size_js_get_less: "js_get v k = JArray xs \<Longrightarrow> x \<in> set xs \<Longrightarrow> size x < size v"
proof (cases v)
  case (JObject fs)
  assume g: "js_get v k = JArray xs" and x: "x \<in> set xs"
  from g JObject have m: "map_of fs k = Some (JArray xs)" by (auto split: option.splits)
  from x have "size x < size (JArray xs)" by (induction xs) auto
  also have "\<dots> < size v" using size_map_of_less [OF m] JObject by simp
  finally show ?thesis .
qed auto

end
