(* ===== verification/Tile_Tree.thy ===== *)
theory Tile_Tree
  imports Js_Value
begin

text \<open>
  The binary tile tree of \<^verbatim>\<open>packages/ui/src/lib/tile-tree.ts\<close>
  (types in \<^verbatim>\<open>types/tile-tree.ts\<close> and \<^verbatim>\<open>types/terminal-layout.ts\<close>): panes
  that hold tabs, splits that hold two subtrees, docking, and the codec of the persisted
  terminal layout. Items are compared with \<^verbatim>\<open>===\<close>, the default of every
  \<^verbatim>\<open>isEqual\<close> parameter and the only comparison callers use. UUIDs drawn by
  \<^verbatim>\<open>generateUUID()\<close> are arguments, in the order in which they are drawn. The
  \<^verbatim>\<open>left === tree.children[0]\<close> tests of the updaters decide only which of two equal
  trees is returned, so they do not show in the model.
\<close>

section \<open>Types\<close>

datatype split_direction = Horizontal | Vertical

datatype dock_edge = Top | Bottom | Left | Right

record 'a tile_pane =
  pane_id :: string
  items :: "'a list"
  active :: "'a option"

datatype 'a tile_node =
    Pane "'a tile_pane"
  | Split string split_direction "real \<times> real" "'a tile_node" "'a tile_node"

datatype tile_dock_target =
    PaneCenter string
  | PaneEdge string dock_edge
  | TabIndex string int

fun target_pane :: "tile_dock_target \<Rightarrow> string" where
  "target_pane (PaneCenter p) = p"
| "target_pane (PaneEdge p _) = p"
| "target_pane (TabIndex p _) = p"

record layout_pane =
  lp_id :: string
  sessionIds :: "string list"
  activeSessionId :: "string option"

datatype layout_node =
    LPane layout_pane
  | LSplit string split_direction "real \<times> real" layout_node layout_node

section \<open>Operations\<close>

definition normalizeActiveItem :: "'a list \<Rightarrow> 'a option \<Rightarrow> 'a option" where
  "normalizeActiveItem its act =
     (case act of
        Some a \<Rightarrow> if a \<in> set its then Some a else js_first its
      | None \<Rightarrow> js_first its)"

definition newTilePaneNode :: "'a list \<Rightarrow> 'a option \<Rightarrow> string \<Rightarrow> 'a tile_pane" where
  "newTilePaneNode its act i =
     \<lparr>pane_id = i, items = its, active = normalizeActiveItem its act\<rparr>"

definition createTileSplitNode ::
  "split_direction \<Rightarrow> 'a tile_node \<Rightarrow> 'a tile_node \<Rightarrow> real \<times> real \<Rightarrow> string \<Rightarrow> 'a tile_node"
where
  "createTileSplitNode dir l r szs i = Split i dir szs l r"

fun collectTilePaneIds :: "'a tile_node \<Rightarrow> string list" where
  "collectTilePaneIds (Pane p) = [pane_id p]"
| "collectTilePaneIds (Split i d s l r) = collectTilePaneIds l @ collectTilePaneIds r"

fun collectTilePanes :: "'a tile_node \<Rightarrow> 'a tile_pane list" where
  "collectTilePanes (Pane p) = [p]"
| "collectTilePanes (Split i d s l r) = collectTilePanes l @ collectTilePanes r"

definition findTilePaneById :: "'a tile_node \<Rightarrow> string \<Rightarrow> 'a tile_pane option" where
  "findTilePaneById t pid = find (\<lambda>p. pane_id p = pid) (collectTilePanes t)"

definition findTilePaneContaining :: "'a tile_node \<Rightarrow> ('a \<Rightarrow> bool) \<Rightarrow> 'a tile_pane option" where
  "findTilePaneContaining t P = find (\<lambda>p. list_ex P (items p)) (collectTilePanes t)"

fun pruneEmptyTileSplits :: "'a tile_node \<Rightarrow> 'a tile_node option" where
  "pruneEmptyTileSplits (Pane p) = Some (Pane p)"
| "pruneEmptyTileSplits (Split i d s l r) =
     (case (pruneEmptyTileSplits l, pruneEmptyTileSplits r) of
        (None, None) \<Rightarrow> None
      | (None, Some r') \<Rightarrow> Some r'
      | (Some l', None) \<Rightarrow> Some l'
      | (Some l', Some r') \<Rightarrow> Some (Split i d s l' r'))"

fun replaceTileNode :: "'a tile_node \<Rightarrow> string \<Rightarrow> 'a tile_node \<Rightarrow> 'a tile_node option" where
  "replaceTileNode (Pane p) tid rep = (if pane_id p = tid then Some rep else None)"
| "replaceTileNode (Split i d s l r) tid rep =
     (if i = tid then Some rep
      else case replaceTileNode l tid rep of
             Some l' \<Rightarrow> Some (Split i d s l' r)
           | None \<Rightarrow>
               (case replaceTileNode r tid rep of
                  Some r' \<Rightarrow> Some (Split i d s l r')
                | None \<Rightarrow> None))"

fun removeTilePane :: "'a tile_node \<Rightarrow> string \<Rightarrow> 'a tile_node option" where
  "removeTilePane (Pane p) pid = (if pane_id p = pid then None else Some (Pane p))"
| "removeTilePane (Split i d s l r) pid =
     (case (removeTilePane l pid, removeTilePane r pid) of
        (None, None) \<Rightarrow> None
      | (None, Some r') \<Rightarrow> Some r'
      | (Some l', None) \<Rightarrow> Some l'
      | (Some l', Some r') \<Rightarrow> Some (Split i d s l' r'))"

fun updateTileSizes :: "'a tile_node \<Rightarrow> string \<Rightarrow> real \<times> real \<Rightarrow> 'a tile_node" where
  "updateTileSizes (Pane p) nid szs = Pane p"
| "updateTileSizes (Split i d s l r) nid szs =
     (if i = nid then Split i d szs l r
      else Split i d s (updateTileSizes l nid szs) (updateTileSizes r nid szs))"

fun updateTilePane ::
  "'a tile_node \<Rightarrow> string \<Rightarrow> ('a tile_pane \<Rightarrow> 'a tile_pane) \<Rightarrow> 'a tile_node"
where
  "updateTilePane (Pane p) pid f = Pane (if pane_id p = pid then f p else p)"
| "updateTilePane (Split i d s l r) pid f =
     Split i d s (updateTilePane l pid f) (updateTilePane r pid f)"

definition clampIndex :: "int \<Rightarrow> int \<Rightarrow> int" where
  "clampIndex index len = max 0 (min index len)"

definition reorderItems :: "'a list \<Rightarrow> 'a \<Rightarrow> int option \<Rightarrow> 'a list" where
  "reorderItems its item index =
     (let nxt = filter (\<lambda>x. x \<noteq> item) its;
          insertAt = clampIndex (case index of Some i \<Rightarrow> i | None \<Rightarrow> int (length nxt))
                       (int (length nxt))
      in splice_insert (nat insertAt) item nxt)"

definition insertItemIntoTilePane ::
  "'a tile_node \<Rightarrow> string \<Rightarrow> 'a \<Rightarrow> int option \<Rightarrow> 'a tile_node"
where
  "insertItemIntoTilePane t pid item index =
     updateTilePane t pid
       (\<lambda>p. p\<lparr>items := reorderItems (items p) item index, active := Some item\<rparr>)"

definition removeItemFromTilePane :: "'a tile_node \<Rightarrow> string \<Rightarrow> 'a \<Rightarrow> 'a tile_node" where
  "removeItemFromTilePane t pid item =
     updateTilePane t pid
       (\<lambda>p. if item \<notin> set (items p) then p
            else let its = filter (\<lambda>x. x \<noteq> item) (items p)
                 in p\<lparr>items := its, active := normalizeActiveItem its (active p)\<rparr>)"

definition edge_direction :: "dock_edge \<Rightarrow> split_direction" where
  "edge_direction e = (if e = Left \<or> e = Right then Horizontal else Vertical)"

definition splitTilePaneWithItem ::
  "'a tile_node \<Rightarrow> string \<Rightarrow> dock_edge \<Rightarrow> 'a \<Rightarrow> string \<Rightarrow> string \<Rightarrow> 'a tile_node \<times> string"
where
  "splitTilePaneWithItem t pid edge item newPaneId splitId =
     (case findTilePaneById t pid of
        None \<Rightarrow> (t, pid)
      | Some targetPane \<Rightarrow>
          let newPane = newTilePaneNode [item] (Some item) newPaneId;
              splitNode =
                (if edge = Left \<or> edge = Top
                 then createTileSplitNode (edge_direction edge) (Pane newPane) (Pane targetPane)
                        (50, 50) splitId
                 else createTileSplitNode (edge_direction edge) (Pane targetPane) (Pane newPane)
                        (50, 50) splitId)
          in (case replaceTileNode t pid splitNode of Some t' \<Rightarrow> t' | None \<Rightarrow> t,
              pane_id newPane))"

definition dockItemIntoTileTree ::
  "'a tile_node \<Rightarrow> 'a \<Rightarrow> tile_dock_target \<Rightarrow> string option \<Rightarrow> string \<Rightarrow> string
     \<Rightarrow> 'a tile_node \<times> string"
where
  "dockItemIntoTileTree tree item tgt sourcePaneId newPaneId splitId =
     (let currentSourcePane =
            (case sourcePaneId of
               Some pid \<Rightarrow> if pid \<noteq> '''' then findTilePaneById tree pid
                           else findTilePaneContaining tree (\<lambda>i. i = item)
             | None \<Rightarrow> findTilePaneContaining tree (\<lambda>i. i = item));
          selfEdge =
            (case (tgt, currentSourcePane) of
               (PaneEdge p _, Some sp) \<Rightarrow> p = pane_id sp \<and> length (items sp) \<le> 1
             | _ \<Rightarrow> False)
      in if selfEdge then (tree, target_pane tgt)
         else
           let workingTree =
                 (case currentSourcePane of
                    None \<Rightarrow> tree
                  | Some sp \<Rightarrow>
                      if pane_id sp \<noteq> target_pane tgt \<and> length (items sp) = 1
                         \<and> length (collectTilePanes tree) > 1
                      then (case removeTilePane tree (pane_id sp) of Some t \<Rightarrow> t | None \<Rightarrow> tree)
                      else removeItemFromTilePane tree (pane_id sp) item)
           in (case tgt of
                 PaneCenter p \<Rightarrow>
                   (if (case currentSourcePane of Some sp \<Rightarrow> pane_id sp = p | None \<Rightarrow> False)
                    then (updateTilePane tree p (\<lambda>pn. pn\<lparr>active := Some item\<rparr>), p)
                    else (insertItemIntoTilePane workingTree p item None, p))
               | TabIndex p i \<Rightarrow> (insertItemIntoTilePane workingTree p item (Some i), p)
               | PaneEdge p e \<Rightarrow>
                   splitTilePaneWithItem workingTree p e item newPaneId splitId))"

section \<open>The terminal layout codec\<close>

fun tileNodeToLayoutNode :: "string tile_node \<Rightarrow> layout_node" where
  "tileNodeToLayoutNode (Pane p) =
     LPane \<lparr>lp_id = pane_id p, sessionIds = items p, activeSessionId = active p\<rparr>"
| "tileNodeToLayoutNode (Split i d s l r) =
     LSplit i d s (tileNodeToLayoutNode l) (tileNodeToLayoutNode r)"

fun layoutNodeToTileNode :: "layout_node \<Rightarrow> string tile_node" where
  "layoutNodeToTileNode (LPane p) =
     Pane \<lparr>pane_id = lp_id p, items = sessionIds p, active = activeSessionId p\<rparr>"
| "layoutNodeToTileNode (LSplit i d s l r) =
     Split i d s (layoutNodeToTileNode l) (layoutNodeToTileNode r)"

section \<open>Well-formed trees\<close>

text \<open>
  What every operation keeps: node ids are non-empty and pairwise different, every pane shows
  a non-empty list of different items and has one of them active, no item is in two panes,
  split sizes are positive.
\<close>

fun node_ids :: "'a tile_node \<Rightarrow> string list" where
  "node_ids (Pane p) = [pane_id p]"
| "node_ids (Split i d s l r) = i # node_ids l @ node_ids r"

fun sizes_ok :: "'a tile_node \<Rightarrow> bool" where
  "sizes_ok (Pane p) = True"
| "sizes_ok (Split i d s l r) = (fst s > 0 \<and> snd s > 0 \<and> sizes_ok l \<and> sizes_ok r)"

definition tree_items :: "'a tile_node \<Rightarrow> 'a list" where
  "tree_items t = concat (map items (collectTilePanes t))"

definition wf_pane :: "'a tile_pane \<Rightarrow> bool" where
  "wf_pane p \<longleftrightarrow>
     items p \<noteq> [] \<and> distinct (items p) \<and>
     (case active p of None \<Rightarrow> False | Some a \<Rightarrow> a \<in> set (items p))"

definition wf_tile :: "'a tile_node \<Rightarrow> bool" where
  "wf_tile t \<longleftrightarrow>
     distinct (node_ids t) \<and> '''' \<notin> set (node_ids t) \<and> sizes_ok t \<and>
     list_all wf_pane (collectTilePanes t) \<and> distinct (tree_items t)"

subsection \<open>Panes of the results\<close>

lemma collectTilePaneIds_eq [tile_simps]:
  "collectTilePaneIds t = map pane_id (collectTilePanes t)"
  by (induction t) auto

lemma collectTilePanes_nonempty [simp]: "collectTilePanes t \<noteq> []"
  by (induction t) auto

lemma tree_items_simps [simp]:
  "tree_items (Pane p) = items p"
  "tree_items (Split i d s l r) = tree_items l @ tree_items r"
  by (simp_all add: tree_items_def)

lemma pane_ids_subset: "pane_id ` set (collectTilePanes t) \<subseteq> set (node_ids t)"
  by (induction t) auto

lemma distinct_pane_ids: "distinct (node_ids t) \<Longrightarrow> distinct (map pane_id (collectTilePanes t))"
proof (induction t)
  case (Split i d s l r)
  then show ?case using pane_ids_subset [of l] pane_ids_subset [of r] by auto
qed simp

lemma panes_updateTilePane [tile_simps]:
  "collectTilePanes (updateTilePane t pid f) =
     map (\<lambda>p. if pane_id p = pid then f p else p) (collectTilePanes t)"
  by (induction t) auto

lemma node_ids_updateTilePane [tile_simps]:
  "(\<And>p. pane_id (f p) = pane_id p) \<Longrightarrow> node_ids (updateTilePane t pid f) = node_ids t"
  by (induction t) auto

lemma sizes_ok_updateTilePane [tile_simps]: "sizes_ok (updateTilePane t pid f) = sizes_ok t"
  by (induction t) auto

lemma updateTilePane_twice:
  "(\<And>p. pane_id (f p) = pane_id p) \<Longrightarrow>
   updateTilePane (updateTilePane t pid f) pid g = updateTilePane t pid (\<lambda>p. g (f p))"
  by (induction t) auto

lemma updateTilePane_absent:
  "pid \<notin> pane_id ` set (collectTilePanes t) \<Longrightarrow> updateTilePane t pid f = t"
  by (induction t) auto

lemma panes_removeTilePane:
  "(case removeTilePane t pid of None \<Rightarrow> [] | Some t' \<Rightarrow> collectTilePanes t') =
     filter (\<lambda>p. pane_id p \<noteq> pid) (collectTilePanes t)"
proof (induction t)
  case (Split i d s l r)
  then show ?case
    by (cases "removeTilePane l pid"; cases "removeTilePane r pid") auto
qed simp

lemma removeTilePane_None_iff:
  "removeTilePane t pid = None \<longleftrightarrow> (\<forall>p \<in> set (collectTilePanes t). pane_id p = pid)"
proof (induction t)
  case (Split i d s l r)
  then show ?case
    by (cases "removeTilePane l pid"; cases "removeTilePane r pid") auto
qed simp

lemma removeTilePane_Some_panes:
  "removeTilePane t pid = Some t' \<Longrightarrow>
     collectTilePanes t' = filter (\<lambda>p. pane_id p \<noteq> pid) (collectTilePanes t)"
  using panes_removeTilePane [of t pid] by simp

lemma removeTilePane_node_ids:
  "removeTilePane t pid = Some t' \<Longrightarrow>
     set (node_ids t') \<subseteq> set (node_ids t) \<and>
     (distinct (node_ids t) \<longrightarrow> distinct (node_ids t')) \<and> (sizes_ok t \<longrightarrow> sizes_ok t')"
proof (induction t arbitrary: t')
  case (Split i d s l r)
  show ?case
  proof (cases "removeTilePane l pid")
    case None
    with Split.prems have "removeTilePane r pid = Some t'" by (auto split: option.splits)
    from Split.IH(2) [OF this] show ?thesis by auto
  next
    case (Some l')
    show ?thesis
    proof (cases "removeTilePane r pid")
      case None
      with Some Split.prems have "t' = l'" by simp
      with Split.IH(1) [OF Some] show ?thesis by auto
    next
      case r': (Some r')
      with Some Split.prems have "t' = Split i d s l' r'" by simp
      with Split.IH(1) [OF Some] Split.IH(2) [OF r'] show ?thesis by auto
    qed
  qed
qed (auto split: if_splits)

lemma pruneEmptyTileSplits_id: "pruneEmptyTileSplits t = Some t"
  by (induction t) auto

subsection \<open>Replacing one pane\<close>

text \<open>With different pane ids, an update touches one pane: the pane list splits around it.\<close>

lemma pane_list_split:
  assumes "distinct (map pane_id ps)" and "p \<in> set ps"
  obtains as bs where "ps = as @ p # bs"
    and "pane_id p \<notin> pane_id ` set as" and "pane_id p \<notin> pane_id ` set bs"
proof -
  from assms(2) obtain as bs where "ps = as @ p # bs" by (auto dest: split_list)
  with assms(1) that show ?thesis by (auto simp: image_iff)
qed

lemma map_one_pane:
  "pid \<notin> pane_id ` set as \<Longrightarrow> map (\<lambda>q. if pane_id q = pid then f q else q) as = as"
  by (induction as) auto

lemma concat_one_pane:
  "pid \<notin> pane_id ` set as \<Longrightarrow> concat (map (\<lambda>q. if pane_id q = pid then xs else [q]) as) = as"
  by (induction as) auto

lemma filter_one_pane:
  "pid \<notin> pane_id ` set as \<Longrightarrow> filter (\<lambda>q. pane_id q \<noteq> pid) as = as"
  by (induction as) auto

lemma replaceTileNode_absent:
  "tid \<notin> set (node_ids t) \<Longrightarrow> replaceTileNode t tid rep = None"
  by (induction t) auto

lemma replaceTileNode_pane:
  assumes "distinct (node_ids t)" and "pid \<in> pane_id ` set (collectTilePanes t)"
  shows "\<exists>t'. replaceTileNode t pid rep = Some t' \<and>
     collectTilePanes t' =
       concat (map (\<lambda>q. if pane_id q = pid then collectTilePanes rep else [q]) (collectTilePanes t)) \<and>
     set (node_ids t') = set (node_ids t) - {pid} \<union> set (node_ids rep) \<and>
     (distinct (node_ids rep) \<and> set (node_ids rep) \<inter> (set (node_ids t) - {pid}) = {}
        \<longrightarrow> distinct (node_ids t')) \<and>
     (sizes_ok t \<and> sizes_ok rep \<longrightarrow> sizes_ok t')"
  using assms
proof (induction t)
  case (Split i d s l r)
  note sub = pane_ids_subset [of l] pane_ids_subset [of r]
  show ?case
  proof (cases "pid \<in> pane_id ` set (collectTilePanes l)")
    case True
    with Split.prems sub have ne: "i \<noteq> pid" and nr: "pid \<notin> set (node_ids r)"
      and nrp: "pid \<notin> pane_id ` set (collectTilePanes r)" by auto
    from Split.IH(1) True Split.prems obtain l' where
      l': "replaceTileNode l pid rep = Some l'"
        "collectTilePanes l' =
          concat (map (\<lambda>q. if pane_id q = pid then collectTilePanes rep else [q]) (collectTilePanes l))"
        "set (node_ids l') = set (node_ids l) - {pid} \<union> set (node_ids rep)"
        "distinct (node_ids rep) \<and> set (node_ids rep) \<inter> (set (node_ids l) - {pid}) = {}
          \<longrightarrow> distinct (node_ids l')"
        "sizes_ok l \<and> sizes_ok rep \<longrightarrow> sizes_ok l'"
      by auto
    with ne nr nrp Split.prems(1) show ?thesis
      by (auto simp: concat_one_pane)
  next
    case False
    with Split.prems sub have ne: "i \<noteq> pid" and inr: "pid \<in> pane_id ` set (collectTilePanes r)"
      and nl: "pid \<notin> set (node_ids l)" by auto
    from Split.IH(2) inr Split.prems obtain r' where
      r': "replaceTileNode r pid rep = Some r'"
        "collectTilePanes r' =
          concat (map (\<lambda>q. if pane_id q = pid then collectTilePanes rep else [q]) (collectTilePanes r))"
        "set (node_ids r') = set (node_ids r) - {pid} \<union> set (node_ids rep)"
        "distinct (node_ids rep) \<and> set (node_ids rep) \<inter> (set (node_ids r) - {pid}) = {}
          \<longrightarrow> distinct (node_ids r')"
        "sizes_ok r \<and> sizes_ok rep \<longrightarrow> sizes_ok r'"
      by auto
    with ne nl False Split.prems(1) replaceTileNode_absent [OF nl, of rep] show ?thesis
      by (auto simp: concat_one_pane)
  qed
qed auto

lemma findTilePaneById_Some:
  "findTilePaneById t pid = Some p \<Longrightarrow> p \<in> set (collectTilePanes t) \<and> pane_id p = pid"
  by (auto simp: findTilePaneById_def dest: find_Some_in)

lemma findTilePaneById_iff:
  assumes "distinct (node_ids t)"
  shows "findTilePaneById t pid = Some p \<longleftrightarrow> p \<in> set (collectTilePanes t) \<and> pane_id p = pid"
proof
  assume p: "p \<in> set (collectTilePanes t) \<and> pane_id p = pid"
  then show "findTilePaneById t pid = Some p"
    unfolding findTilePaneById_def
    using distinct_map_eqD [OF distinct_pane_ids [OF assms]] by (intro find_unique) auto
qed (rule findTilePaneById_Some)

lemma findTilePaneById_None_iff:
  "findTilePaneById t pid = None \<longleftrightarrow> pid \<notin> pane_id ` set (collectTilePanes t)"
  by (auto simp: findTilePaneById_def find_None_iff')

lemma findTilePaneContaining_Some:
  "findTilePaneContaining t (\<lambda>i. i = x) = Some p \<Longrightarrow> p \<in> set (collectTilePanes t) \<and> x \<in> set (items p)"
  by (auto simp: findTilePaneContaining_def list_ex_iff dest: find_Some_in)

lemma findTilePaneContaining_None_iff:
  "findTilePaneContaining t (\<lambda>i. i = x) = None \<longleftrightarrow> x \<notin> set (tree_items t)"
  by (auto simp: findTilePaneContaining_def find_None_iff' list_ex_iff tree_items_def)

subsection \<open>Preservation\<close>

lemma wf_tileD:
  assumes "wf_tile t"
  shows "distinct (node_ids t)" and "distinct (map pane_id (collectTilePanes t))"
    and "p \<in> set (collectTilePanes t) \<Longrightarrow> wf_pane p" and "distinct (tree_items t)"
    and "p \<in> set (collectTilePanes t) \<Longrightarrow> set (items p) \<subseteq> set (tree_items t)"
  using assms by (auto simp: wf_tile_def list_all_iff tree_items_def intro: distinct_pane_ids)

lemma wf_tile_updateTilePane:
  assumes wf: "wf_tile t" and p: "p \<in> set (collectTilePanes t)" "pane_id p = pid"
    and f: "\<And>q. pane_id (f q) = pane_id q" and fp: "wf_pane (f p)"
    and disj: "set (items (f p)) \<inter> (set (tree_items t) - set (items p)) = {}"
  shows "wf_tile (updateTilePane t pid f)"
    and "set (tree_items (updateTilePane t pid f)) =
           set (tree_items t) - set (items p) \<union> set (items (f p))"
proof -
  from wf p(1) obtain as bs where ps: "collectTilePanes t = as @ p # bs"
    and na: "pane_id p \<notin> pane_id ` set as" and nb: "pane_id p \<notin> pane_id ` set bs"
    by (rule wf_tileD(2) [THEN pane_list_split])
  have ps': "collectTilePanes (updateTilePane t pid f) = as @ f p # bs"
    using p(2) na nb by (simp add: panes_updateTilePane ps map_one_pane)
  from wf_tileD(4) [OF wf] have d: "distinct (concat (map items as) @ items p @ concat (map items bs))"
    by (simp add: tree_items_def ps)
  have un: "set (tree_items t) = set (concat (map items as)) \<union> set (items p) \<union> set (concat (map items bs))"
    by (auto simp: tree_items_def ps)
  with d have rest: "set (tree_items t) - set (items p) =
      set (concat (map items as)) \<union> set (concat (map items bs))"
    by auto
  show "set (tree_items (updateTilePane t pid f)) =
      set (tree_items t) - set (items p) \<union> set (items (f p))"
    unfolding rest by (auto simp: tree_items_def ps')
  from disj have "set (items (f p)) \<inter>
      (set (concat (map items as)) \<union> set (concat (map items bs))) = {}"
    unfolding rest .
  with d fp have "distinct (tree_items (updateTilePane t pid f))"
    unfolding tree_items_def ps' by (auto simp: wf_pane_def)
  moreover have "list_all wf_pane (collectTilePanes (updateTilePane t pid f))"
    using wf fp by (auto simp: ps' ps wf_tile_def)
  ultimately show "wf_tile (updateTilePane t pid f)"
    using wf f by (simp add: wf_tile_def node_ids_updateTilePane sizes_ok_updateTilePane)
qed

lemma wf_tile_removeTilePane:
  assumes wf: "wf_tile t" and p: "p \<in> set (collectTilePanes t)"
    and r: "removeTilePane t (pane_id p) = Some t'"
  shows "wf_tile t'" and "set (tree_items t') = set (tree_items t) - set (items p)"
    and "\<And>q. q \<in> set (collectTilePanes t') \<longleftrightarrow> q \<in> set (collectTilePanes t) \<and> q \<noteq> p"
proof -
  from wf p obtain as bs where ps: "collectTilePanes t = as @ p # bs"
    and na: "pane_id p \<notin> pane_id ` set as" and nb: "pane_id p \<notin> pane_id ` set bs"
    by (rule wf_tileD(2) [THEN pane_list_split])
  have ps': "collectTilePanes t' = as @ bs"
    using na nb by (simp add: removeTilePane_Some_panes [OF r] ps filter_one_pane)
  from wf_tileD(4) [OF wf] have d: "distinct (concat (map items as) @ items p @ concat (map items bs))"
    by (simp add: tree_items_def ps)
  then show "set (tree_items t') = set (tree_items t) - set (items p)"
    unfolding tree_items_def ps ps' by auto
  show "wf_tile t'"
    using wf d removeTilePane_node_ids [OF r] by (auto simp: wf_tile_def ps ps' tree_items_def)
  show "\<And>q. q \<in> set (collectTilePanes t') \<longleftrightarrow> q \<in> set (collectTilePanes t) \<and> q \<noteq> p"
    using na nb by (auto simp: ps ps')
qed

lemma wf_pane_new: "wf_pane (newTilePaneNode [x] (Some x) u)"
  by (simp add: wf_pane_def newTilePaneNode_def normalizeActiveItem_def)

lemma wf_tile_new_pane:
  assumes "u \<noteq> ''''"
  shows "wf_tile (Pane (newTilePaneNode [x] (Some x) u))"
    and "tree_items (Pane (newTilePaneNode [x] (Some x) u)) = [x]"
  using assms wf_pane_new [of x u] by (auto simp: wf_tile_def) (simp_all add: newTilePaneNode_def)

lemma set_reorderItems [simp]: "set (reorderItems its x i) = insert x (set its)"
  by (auto simp: reorderItems_def Let_def)

lemma distinct_reorderItems [simp]: "distinct its \<Longrightarrow> distinct (reorderItems its x i)"
  by (auto simp: reorderItems_def Let_def)

lemma reorderItems_nonempty [simp]: "reorderItems its x i \<noteq> []"
  using set_reorderItems [of its x i] by (metis insert_not_empty set_empty)

lemma wf_tile_insertItem:
  assumes wf: "wf_tile t" and p: "p \<in> set (collectTilePanes t)" "pane_id p = pid"
    and fresh: "x \<notin> set (tree_items t) \<or> x \<in> set (items p)"
  shows "wf_tile (insertItemIntoTilePane t pid x i)"
    and "set (tree_items (insertItemIntoTilePane t pid x i)) = insert x (set (tree_items t))"
proof -
  let ?f = "\<lambda>q. q\<lparr>items := reorderItems (items q) x i, active := Some x\<rparr>"
  have fp: "wf_pane (?f p)"
    using wf_tileD(3) [OF wf p(1)] by (simp add: wf_pane_def)
  note upd = wf_tile_updateTilePane [where f = ?f, OF wf p _ fp]
  show "wf_tile (insertItemIntoTilePane t pid x i)"
    unfolding insertItemIntoTilePane_def using fresh by (intro upd(1)) auto
  show "set (tree_items (insertItemIntoTilePane t pid x i)) = insert x (set (tree_items t))"
    unfolding insertItemIntoTilePane_def
    using fresh wf_tileD(5) [OF wf p(1)] by (subst upd(2)) auto
qed

lemma normalizeActiveItem_in:
  "ys \<noteq> [] \<Longrightarrow> \<exists>a \<in> set ys. normalizeActiveItem ys act = Some a"
  by (auto simp: normalizeActiveItem_def js_first_def split: option.splits list.splits)

lemma wf_pane_removeItem:
  assumes "wf_pane p" and "length (items p) > 1" and "x \<in> set (items p)"
  shows "wf_pane (p\<lparr>items := filter (\<lambda>y. y \<noteq> x) (items p),
           active := normalizeActiveItem (filter (\<lambda>y. y \<noteq> x) (items p)) (active p)\<rparr>)"
proof -
  obtain y where y: "y \<in> set (items p)" "y \<noteq> x"
  proof (cases "items p")
    case Nil
    with assms(2) show ?thesis by simp
  next
    case (Cons a l)
    with assms(2) obtain b m where "items p = a # b # m" by (cases l) auto
    moreover from this assms(1) have "a \<noteq> b" by (simp add: wf_pane_def)
    ultimately show ?thesis using that by (metis list.set_intros)
  qed
  then have "filter (\<lambda>y. y \<noteq> x) (items p) \<noteq> []" by (auto simp: filter_empty_conv)
  moreover have "distinct (filter (\<lambda>y. y \<noteq> x) (items p))"
    using assms(1) by (simp add: wf_pane_def)
  ultimately show ?thesis
    using normalizeActiveItem_in [of "filter (\<lambda>y. y \<noteq> x) (items p)" "active p"]
    by (auto simp: wf_pane_def)
qed

lemma wf_tile_removeItem:
  assumes wf: "wf_tile t" and p: "p \<in> set (collectTilePanes t)" "pane_id p = pid"
    and x: "x \<in> set (items p)" and l: "length (items p) > 1"
  shows "wf_tile (removeItemFromTilePane t pid x)"
    and "set (tree_items (removeItemFromTilePane t pid x)) = set (tree_items t) - {x}"
proof -
  let ?f = "\<lambda>p. if x \<notin> set (items p) then p
            else let its = filter (\<lambda>y. y \<noteq> x) (items p)
                 in p\<lparr>items := its, active := normalizeActiveItem its (active p)\<rparr>"
  have fp: "wf_pane (?f p)"
    using wf_pane_removeItem [OF wf_tileD(3) [OF wf p(1)] l x] x by (simp add: Let_def)
  note upd = wf_tile_updateTilePane [where f = ?f, OF wf p _ fp]
  show "wf_tile (removeItemFromTilePane t pid x)"
    unfolding removeItemFromTilePane_def using x by (intro upd(1)) (auto simp: Let_def)
  show "set (tree_items (removeItemFromTilePane t pid x)) = set (tree_items t) - {x}"
    unfolding removeItemFromTilePane_def
    using x wf_tileD(5) [OF wf p(1)] by (subst upd(2)) (auto simp: Let_def)
qed

lemma wf_tile_setActive:
  assumes wf: "wf_tile t" and p: "p \<in> set (collectTilePanes t)" "pane_id p = pid"
    and x: "x \<in> set (items p)"
  shows "wf_tile (updateTilePane t pid (\<lambda>q. q\<lparr>active := Some x\<rparr>))"
    and "tree_items (updateTilePane t pid (\<lambda>q. q\<lparr>active := Some x\<rparr>)) = tree_items t"
proof -
  let ?f = "\<lambda>q. q\<lparr>active := Some x\<rparr>"
  have fp: "wf_pane (?f p)"
    using wf_tileD(3) [OF wf p(1)] x by (simp add: wf_pane_def)
  show "wf_tile (updateTilePane t pid ?f)"
    by (rule wf_tile_updateTilePane(1) [where f = ?f, OF wf p _ fp]) auto
  show "tree_items (updateTilePane t pid ?f) = tree_items t"
    by (simp add: tree_items_def panes_updateTilePane comp_def if_distrib cong: if_cong)
qed

text \<open>Ids drawn for a new pane and a new split: non-empty, different, not in use.\<close>

definition fresh_ids :: "'a tile_node \<Rightarrow> string \<Rightarrow> string \<Rightarrow> bool" where
  "fresh_ids t u v \<longleftrightarrow>
     u \<noteq> '''' \<and> v \<noteq> '''' \<and> u \<noteq> v \<and> u \<notin> set (node_ids t) \<and> v \<notin> set (node_ids t)"

lemma wf_tile_splitTilePaneWithItem:
  assumes wf: "wf_tile t" and p: "p \<in> set (collectTilePanes t)" "pane_id p = pid"
    and x: "x \<notin> set (tree_items t)" and fr: "fresh_ids t u v"
  shows "wf_tile (fst (splitTilePaneWithItem t pid e x u v))"
    and "set (tree_items (fst (splitTilePaneWithItem t pid e x u v))) = insert x (set (tree_items t))"
    and "snd (splitTilePaneWithItem t pid e x u v) = u"
proof -
  define np where "np = newTilePaneNode [x] (Some x) u"
  define rep where "rep = (if e = Left \<or> e = Top
     then createTileSplitNode (edge_direction e) (Pane np) (Pane p) (50, 50) v
     else createTileSplitNode (edge_direction e) (Pane p) (Pane np) (50, 50) v)"
  have np: "pane_id np = u" "items np = [x]" "wf_pane np"
    using wf_pane_new [of x u] by (simp_all add: np_def newTilePaneNode_def)
  have found: "findTilePaneById t pid = Some p"
    using p wf_tileD(1) [OF wf] by (simp add: findTilePaneById_iff)
  have pin: "pid \<in> set (node_ids t)" "pid \<in> pane_id ` set (collectTilePanes t)"
    using p pane_ids_subset [of t] by auto
  have repid: "set (node_ids rep) = {u, v, pid}"
    by (auto simp: rep_def createTileSplitNode_def np p(2))
  have reppanes: "set (collectTilePanes rep) = {np, p}"
    by (auto simp: rep_def createTileSplitNode_def)
  from replaceTileNode_pane [OF wf_tileD(1) [OF wf] pin(2), of rep] obtain t' where
    r: "replaceTileNode t pid rep = Some t'"
      "collectTilePanes t' =
        concat (map (\<lambda>q. if pane_id q = pid then collectTilePanes rep else [q]) (collectTilePanes t))"
      "set (node_ids t') = set (node_ids t) - {pid} \<union> set (node_ids rep)"
      "distinct (node_ids rep) \<and> set (node_ids rep) \<inter> (set (node_ids t) - {pid}) = {}
        \<longrightarrow> distinct (node_ids t')"
      "sizes_ok t \<and> sizes_ok rep \<longrightarrow> sizes_ok t'"
    by auto
  have eq: "splitTilePaneWithItem t pid e x u v = (t', u)"
    by (simp only: splitTilePaneWithItem_def found option.case Let_def np_def [symmetric]
        rep_def [symmetric] r(1) np(1))
  from wf p(1) obtain as bs where ps: "collectTilePanes t = as @ p # bs"
    and na: "pane_id p \<notin> pane_id ` set as" and nb: "pane_id p \<notin> pane_id ` set bs"
    by (rule wf_tileD(2) [THEN pane_list_split])
  have ps': "collectTilePanes t' = as @ collectTilePanes rep @ bs"
    using na nb p(2) by (simp add: r(2) ps concat_one_pane)
  have its: "set (tree_items t') = insert x (set (tree_items t))"
    by (auto simp: tree_items_def ps ps' reppanes np)
  have repd: "concat (map items (collectTilePanes rep)) = x # items p \<or>
      concat (map items (collectTilePanes rep)) = items p @ [x]"
    by (auto simp: rep_def createTileSplitNode_def np)
  define A B where "A = concat (map items as)" and "B = concat (map items bs)"
  have "distinct (A @ items p @ B)" "x \<notin> set (A @ items p @ B)"
    using wf_tileD(4) [OF wf] x by (simp_all add: tree_items_def ps A_def B_def)
  moreover have "tree_items t' = A @ concat (map items (collectTilePanes rep)) @ B"
    by (simp add: tree_items_def ps' A_def B_def)
  ultimately have dist: "distinct (tree_items t')"
    using repd by (elim disjE) (simp_all only:, auto)
  have "distinct (node_ids rep)" "sizes_ok rep" "set (node_ids rep) \<inter> (set (node_ids t) - {pid}) = {}"
    using fr pin by (auto simp: rep_def createTileSplitNode_def np p(2) fresh_ids_def)
  then have "wf_tile t'"
    using wf r(3,4,5) dist fr np(3) pin(1)
    by (auto simp: wf_tile_def ps ps' reppanes repid list_all_iff fresh_ids_def)
  with eq its show "wf_tile (fst (splitTilePaneWithItem t pid e x u v))"
    and "set (tree_items (fst (splitTilePaneWithItem t pid e x u v))) = insert x (set (tree_items t))"
    and "snd (splitTilePaneWithItem t pid e x u v) = u"
    by simp_all
qed

subsection \<open>Docking\<close>

lemma pane_of_item_unique:
  assumes "wf_tile t" and "p \<in> set (collectTilePanes t)" and "q \<in> set (collectTilePanes t)"
    and "x \<in> set (items p)" and "x \<in> set (items q)"
  shows "p = q"
proof -
  from assms(2) obtain as bs where ps: "collectTilePanes t = as @ p # bs" by (auto dest: split_list)
  with wf_tileD(4) [OF assms(1)] assms(4) have "\<forall>r \<in> set (as @ bs). x \<notin> set (items r)"
    by (auto simp: tree_items_def)
  with assms(3,5) ps show ?thesis by auto
qed

lemma findTilePaneContaining_iff:
  assumes "wf_tile t"
  shows "findTilePaneContaining t (\<lambda>i. i = x) = Some p \<longleftrightarrow>
           p \<in> set (collectTilePanes t) \<and> x \<in> set (items p)"
proof
  assume p: "p \<in> set (collectTilePanes t) \<and> x \<in> set (items p)"
  then show "findTilePaneContaining t (\<lambda>i. i = x) = Some p"
    unfolding findTilePaneContaining_def
    using pane_of_item_unique [OF assms] by (intro find_unique) (auto simp: list_ex_iff)
qed (rule findTilePaneContaining_Some)

text \<open>A caller that names the source pane names a pane that shows the item.\<close>

definition dock_source_ok :: "'a tile_node \<Rightarrow> 'a \<Rightarrow> string option \<Rightarrow> bool" where
  "dock_source_ok t x src \<longleftrightarrow>
     (case src of None \<Rightarrow> True
      | Some pid \<Rightarrow> pid = '''' \<or>
          (case findTilePaneById t pid of None \<Rightarrow> False | Some p \<Rightarrow> x \<in> set (items p)))"

lemma dock_source_irrelevant:
  assumes "wf_tile t" and "dock_source_ok t x src"
  shows "dockItemIntoTileTree t x tgt src u v = dockItemIntoTileTree t x tgt None u v"
proof (cases src)
  case (Some pid)
  show ?thesis
  proof (cases "pid = ''''")
    case True
    with Some show ?thesis by (simp add: dockItemIntoTileTree_def)
  next
    case False
    with Some assms(2) obtain p where p: "findTilePaneById t pid = Some p" "x \<in> set (items p)"
      by (auto simp: dock_source_ok_def split: option.splits)
    with findTilePaneById_Some [OF p(1)] have "findTilePaneContaining t (\<lambda>i. i = x) = Some p"
      by (simp add: findTilePaneContaining_iff [OF assms(1)])
    with Some False p(1) show ?thesis by (simp add: dockItemIntoTileTree_def)
  qed
qed simp

lemma node_ids_removeItem [tile_simps]: "node_ids (removeItemFromTilePane t pid x) = node_ids t"
  unfolding removeItemFromTilePane_def by (rule node_ids_updateTilePane) (simp add: Let_def)

lemma detach_source:
  assumes wf: "wf_tile t" and p: "p \<in> set (collectTilePanes t)" "x \<in> set (items p)"
    and q: "q \<in> set (collectTilePanes t)" "q \<noteq> p"
    and w: "w = (if length (items p) = 1
                 then (case removeTilePane t (pane_id p) of Some t' \<Rightarrow> t' | None \<Rightarrow> t)
                 else removeItemFromTilePane t (pane_id p) x)"
  shows "wf_tile w" and "set (tree_items w) = set (tree_items t) - {x}"
    and "q \<in> set (collectTilePanes w)" and "set (node_ids w) \<subseteq> set (node_ids t)"
proof -
  have ids: "pane_id q \<noteq> pane_id p"
    using distinct_map_eqD [OF wf_tileD(2) [OF wf] q(1) p(1)] q(2) by auto
  have "wf_tile w \<and> set (tree_items w) = set (tree_items t) - {x} \<and>
      q \<in> set (collectTilePanes w) \<and> set (node_ids w) \<subseteq> set (node_ids t)"
  proof (cases "length (items p) = 1")
    case True
    with p(2) have "items p = [x]" by (cases "items p") auto
    moreover from ids q(1) obtain t' where t': "removeTilePane t (pane_id p) = Some t'"
      by (cases "removeTilePane t (pane_id p)") (auto simp: removeTilePane_None_iff)
    ultimately show ?thesis
      using True w q wf_tile_removeTilePane [OF wf p(1) t'] removeTilePane_node_ids [OF t'] by auto
  next
    case False
    moreover from wf_tileD(3) [OF wf p(1)] have "items p \<noteq> []" by (simp add: wf_pane_def)
    ultimately have l: "length (items p) > 1" by (cases "items p") auto
    have "q \<in> set (collectTilePanes (removeItemFromTilePane t (pane_id p) x))"
      using q ids by (force simp: removeItemFromTilePane_def panes_updateTilePane)
    with False w wf_tile_removeItem [OF wf p(1) refl p(2) l] show ?thesis
      by (simp add: node_ids_removeItem)
  qed
  then show "wf_tile w" and "set (tree_items w) = set (tree_items t) - {x}"
    and "q \<in> set (collectTilePanes w)" and "set (node_ids w) \<subseteq> set (node_ids t)"
    by auto
qed

lemma two_panes: "p \<in> set ps \<Longrightarrow> q \<in> set ps \<Longrightarrow> p \<noteq> q \<Longrightarrow> length ps > 1"
  by (cases ps; cases "tl ps") auto

abbreviation detached :: "'a tile_node \<Rightarrow> 'a tile_pane \<Rightarrow> 'a \<Rightarrow> 'a tile_node" where
  "detached t p x \<equiv>
     (if length (items p) = 1
      then (case removeTilePane t (pane_id p) of Some t' \<Rightarrow> t' | None \<Rightarrow> t)
      else removeItemFromTilePane t (pane_id p) x)"

lemma detach_insert:
  assumes wf: "wf_tile t" and p: "p \<in> set (collectTilePanes t)" "x \<in> set (items p)"
    and q: "q \<in> set (collectTilePanes t)" "q \<noteq> p"
  shows "wf_tile (insertItemIntoTilePane (detached t p x) (pane_id q) x i)"
    and "set (tree_items (insertItemIntoTilePane (detached t p x) (pane_id q) x i)) =
           set (tree_items t)"
proof -
  note d = detach_source [OF wf p q refl]
  have x: "x \<notin> set (tree_items (detached t p x)) \<or> x \<in> set (items q)" using d(2) by simp
  note ins = wf_tile_insertItem [OF d(1,3) refl x, of i]
  show "wf_tile (insertItemIntoTilePane (detached t p x) (pane_id q) x i)" by (rule ins(1))
  show "set (tree_items (insertItemIntoTilePane (detached t p x) (pane_id q) x i)) =
      set (tree_items t)"
    unfolding ins(2) d(2) using wf_tileD(5) [OF wf p(1)] p(2) by auto
qed

text \<open>What docking does, by the pane that shows the item before.\<close>

lemma dock_absent:
  assumes "wf_tile t" and "x \<notin> set (tree_items t)"
  shows "dockItemIntoTileTree t x (PaneCenter pid) None u v =
           (insertItemIntoTilePane t pid x None, pid)"
    and "dockItemIntoTileTree t x (TabIndex pid i) None u v =
           (insertItemIntoTilePane t pid x (Some i), pid)"
    and "dockItemIntoTileTree t x (PaneEdge pid e) None u v =
           splitTilePaneWithItem t pid e x u v"
proof -
  from assms(2) have "findTilePaneContaining t (\<lambda>i. i = x) = None"
    by (simp add: findTilePaneContaining_None_iff)
  then show "dockItemIntoTileTree t x (PaneCenter pid) None u v =
           (insertItemIntoTilePane t pid x None, pid)"
    and "dockItemIntoTileTree t x (TabIndex pid i) None u v =
           (insertItemIntoTilePane t pid x (Some i), pid)"
    and "dockItemIntoTileTree t x (PaneEdge pid e) None u v =
           splitTilePaneWithItem t pid e x u v"
    by (simp_all add: dockItemIntoTileTree_def)
qed

lemma dock_same_pane:
  assumes "wf_tile t" and "p \<in> set (collectTilePanes t)" and "x \<in> set (items p)"
  shows "dockItemIntoTileTree t x (PaneCenter (pane_id p)) None u v =
           (updateTilePane t (pane_id p) (\<lambda>q. q\<lparr>active := Some x\<rparr>), pane_id p)"
    and "dockItemIntoTileTree t x (TabIndex (pane_id p) i) None u v =
           (insertItemIntoTilePane (removeItemFromTilePane t (pane_id p) x) (pane_id p) x (Some i),
            pane_id p)"
    and "dockItemIntoTileTree t x (PaneEdge (pane_id p) e) None u v =
           (if length (items p) \<le> 1 then (t, pane_id p)
            else splitTilePaneWithItem (removeItemFromTilePane t (pane_id p) x) (pane_id p) e x u v)"
proof -
  from assms have "findTilePaneContaining t (\<lambda>i. i = x) = Some p"
    by (simp add: findTilePaneContaining_iff)
  then show "dockItemIntoTileTree t x (PaneCenter (pane_id p)) None u v =
           (updateTilePane t (pane_id p) (\<lambda>q. q\<lparr>active := Some x\<rparr>), pane_id p)"
    and "dockItemIntoTileTree t x (TabIndex (pane_id p) i) None u v =
           (insertItemIntoTilePane (removeItemFromTilePane t (pane_id p) x) (pane_id p) x (Some i),
            pane_id p)"
    and "dockItemIntoTileTree t x (PaneEdge (pane_id p) e) None u v =
           (if length (items p) \<le> 1 then (t, pane_id p)
            else splitTilePaneWithItem (removeItemFromTilePane t (pane_id p) x) (pane_id p) e x u v)"
    by (simp_all add: dockItemIntoTileTree_def)
qed

lemma dock_other_pane:
  assumes wf: "wf_tile t" and p: "p \<in> set (collectTilePanes t)" "x \<in> set (items p)"
    and q: "q \<in> set (collectTilePanes t)" "q \<noteq> p"
  shows "dockItemIntoTileTree t x (PaneCenter (pane_id q)) None u v =
           (insertItemIntoTilePane (detached t p x) (pane_id q) x None, pane_id q)"
    and "dockItemIntoTileTree t x (TabIndex (pane_id q) i) None u v =
           (insertItemIntoTilePane (detached t p x) (pane_id q) x (Some i), pane_id q)"
    and "dockItemIntoTileTree t x (PaneEdge (pane_id q) e) None u v =
           splitTilePaneWithItem (detached t p x) (pane_id q) e x u v"
proof -
  from wf p have "findTilePaneContaining t (\<lambda>i. i = x) = Some p"
    by (simp add: findTilePaneContaining_iff)
  moreover have "pane_id p \<noteq> pane_id q" "pane_id q \<noteq> pane_id p"
    using distinct_map_eqD [OF wf_tileD(2) [OF wf] p(1) q(1)] q(2) by auto
  moreover have "length (collectTilePanes t) > 1"
    using two_panes [OF p(1) q(1)] q(2) by simp
  ultimately show "dockItemIntoTileTree t x (PaneCenter (pane_id q)) None u v =
           (insertItemIntoTilePane (detached t p x) (pane_id q) x None, pane_id q)"
    and "dockItemIntoTileTree t x (TabIndex (pane_id q) i) None u v =
           (insertItemIntoTilePane (detached t p x) (pane_id q) x (Some i), pane_id q)"
    and "dockItemIntoTileTree t x (PaneEdge (pane_id q) e) None u v =
           splitTilePaneWithItem (detached t p x) (pane_id q) e x u v"
    by (simp_all add: dockItemIntoTileTree_def)
qed

lemma tab_index_same_pane:
  assumes wf: "wf_tile t" and p: "p \<in> set (collectTilePanes t)" "x \<in> set (items p)"
  shows "wf_tile (insertItemIntoTilePane (removeItemFromTilePane t (pane_id p) x) (pane_id p) x i)"
    and "set (tree_items (insertItemIntoTilePane (removeItemFromTilePane t (pane_id p) x)
           (pane_id p) x i)) = set (tree_items t)"
proof -
  let ?g = "\<lambda>q. (if x \<notin> set (items q) then q
        else let its = filter (\<lambda>y. y \<noteq> x) (items q)
             in q\<lparr>items := its, active := normalizeActiveItem its (active q)\<rparr>)"
  let ?f = "\<lambda>q. (?g q)\<lparr>items := reorderItems (items (?g q)) x i, active := Some x\<rparr>"
  have two: "insertItemIntoTilePane (removeItemFromTilePane t (pane_id p) x) (pane_id p) x i =
      updateTilePane t (pane_id p) ?f"
    unfolding insertItemIntoTilePane_def removeItemFromTilePane_def
    by (rule updateTilePane_twice) (simp add: Let_def)
  have its: "set (items (?f p)) = set (items p)" using p(2) by (auto simp: Let_def)
  have fp: "wf_pane (?f p)"
    using wf_tileD(3) [OF wf p(1)] p(2) by (auto simp: wf_pane_def Let_def)
  note upd = wf_tile_updateTilePane [where f = ?f, OF wf p(1) refl _ fp]
  show "wf_tile (insertItemIntoTilePane (removeItemFromTilePane t (pane_id p) x) (pane_id p) x i)"
    unfolding two using its by (intro upd(1)) (auto simp: Let_def)
  show "set (tree_items (insertItemIntoTilePane (removeItemFromTilePane t (pane_id p) x)
           (pane_id p) x i)) = set (tree_items t)"
    unfolding two using its wf_tileD(5) [OF wf p(1)] by (subst upd(2)) (auto simp: Let_def)
qed

lemma edge_same_pane:
  fixes e :: dock_edge
  assumes wf: "wf_tile t" and p: "p \<in> set (collectTilePanes t)" "x \<in> set (items p)"
    and l: "length (items p) > 1" and fr: "fresh_ids t u v"
  defines "r \<equiv> fst (splitTilePaneWithItem (removeItemFromTilePane t (pane_id p) x) (pane_id p) e x u v)"
  shows "wf_tile r" and "set (tree_items r) = set (tree_items t)"
proof -
  let ?w = "removeItemFromTilePane t (pane_id p) x"
  note rm = wf_tile_removeItem [OF wf p(1) refl p(2) l]
  have "map pane_id (collectTilePanes ?w) = map pane_id (collectTilePanes t)"
    by (simp add: removeItemFromTilePane_def panes_updateTilePane Let_def comp_def)
  then have "pane_id p \<in> pane_id ` set (collectTilePanes ?w)"
    using p(1) by (metis imageI list.set_map)
  then obtain q where q: "q \<in> set (collectTilePanes ?w)" "pane_id q = pane_id p" by auto
  have x: "x \<notin> set (tree_items ?w)" and fr': "fresh_ids ?w u v"
    using rm(2) fr by (simp_all add: fresh_ids_def node_ids_removeItem)
  note sp = wf_tile_splitTilePaneWithItem [OF rm(1) q x fr']
  show "wf_tile r" unfolding r_def by (rule sp(1))
  show "set (tree_items r) = set (tree_items t)"
    unfolding r_def sp(2) rm(2) using wf_tileD(5) [OF wf p(1)] p(2) by auto
qed

lemma edge_other_pane:
  fixes e :: dock_edge
  assumes wf: "wf_tile t" and p: "p \<in> set (collectTilePanes t)" "x \<in> set (items p)"
    and q: "q \<in> set (collectTilePanes t)" "q \<noteq> p" and fr: "fresh_ids t u v"
  defines "r \<equiv> fst (splitTilePaneWithItem (detached t p x) (pane_id q) e x u v)"
  shows "wf_tile r" and "set (tree_items r) = set (tree_items t)"
proof -
  note d = detach_source [OF wf p q refl]
  have x: "x \<notin> set (tree_items (detached t p x))" using d(2) by simp
  have fr': "fresh_ids (detached t p x) u v" using d(4) fr by (auto simp: fresh_ids_def)
  note sp = wf_tile_splitTilePaneWithItem [OF d(1,3) refl x fr']
  show "wf_tile r" unfolding r_def by (rule sp(1))
  show "set (tree_items r) = set (tree_items t)"
    unfolding r_def sp(2) d(2) using wf_tileD(5) [OF wf p(1)] p(2) by auto
qed

text \<open>
  Docking keeps the tree well-formed, puts the item into the tree and neither loses nor
  duplicates any other item, for every kind of drop target.
\<close>

lemma dock_wf_items:
  assumes wf: "wf_tile t" and tgt: "findTilePaneById t (target_pane tgt) \<noteq> None"
    and src: "dock_source_ok t x src" and fr: "fresh_ids t u v"
  defines "r \<equiv> fst (dockItemIntoTileTree t x tgt src u v)"
  shows "wf_tile r \<and> set (tree_items r) = insert x (set (tree_items t))"
proof -
  from tgt obtain q where q: "q \<in> set (collectTilePanes t)" "target_pane tgt = pane_id q"
    by (auto dest: findTilePaneById_Some)
  have r: "r = fst (dockItemIntoTileTree t x tgt None u v)"
    unfolding r_def dock_source_irrelevant [OF wf src] ..
  show ?thesis
  proof (cases "x \<in> set (tree_items t)")
    case False
    with q wf_tile_insertItem [OF wf q(1) refl] wf_tile_splitTilePaneWithItem [OF wf q(1) refl False fr]
    show ?thesis unfolding r by (cases tgt) (simp_all add: dock_absent [OF wf False])
  next
    case True
    then obtain p where p: "p \<in> set (collectTilePanes t)" "x \<in> set (items p)"
      by (auto simp: tree_items_def)
    from True have ins: "insert x (set (tree_items t)) = set (tree_items t)" by auto
    show ?thesis
    proof (cases "q = p")
      case True
      with q p ins wf wf_tile_setActive [OF wf p(1) refl p(2)] tab_index_same_pane [OF wf p]
        edge_same_pane [OF wf p _ fr]
      show ?thesis unfolding r by (cases tgt) (simp_all add: dock_same_pane [OF wf p])
    next
      case False
      with q p ins detach_insert [OF wf p q(1)] edge_other_pane [OF wf p q(1) _ fr]
      show ?thesis unfolding r by (cases tgt) (simp_all add: dock_other_pane [OF wf p q(1)])
    qed
  qed
qed

subsection \<open>Sizes and the layout codec\<close>

lemma updateTileSizes_frame:
  "collectTilePanes (updateTileSizes t nid szs) = collectTilePanes t"
  "node_ids (updateTileSizes t nid szs) = node_ids t"
  by (induction t) auto

lemma sizes_ok_updateTileSizes:
  "sizes_ok t \<Longrightarrow> fst szs > 0 \<Longrightarrow> snd szs > 0 \<Longrightarrow> sizes_ok (updateTileSizes t nid szs)"
  by (induction t) auto

lemma wf_tile_updateTileSizes:
  "wf_tile t \<Longrightarrow> fst szs > 0 \<Longrightarrow> snd szs > 0 \<Longrightarrow> wf_tile (updateTileSizes t nid szs)"
  by (simp add: wf_tile_def updateTileSizes_frame sizes_ok_updateTileSizes tree_items_def)

lemma layout_codec_roundtrip:
  "layoutNodeToTileNode (tileNodeToLayoutNode t) = t"
  "tileNodeToLayoutNode (layoutNodeToTileNode n) = n"
  by (induction t, auto) (induction n, auto)

end
