(* ===== verification/Window_Model.thy ===== *)
theory Window_Model
  imports Tile_Tree
begin

text \<open>
  The data of the desktop environment, from \<^verbatim>\<open>packages/ui/src/os/types.ts\<close>
  (with \<^verbatim>\<open>FsTargetRef\<close> of \<^verbatim>\<open>api/ownership.ts\<close>,
  \<^verbatim>\<open>TerminalTarget\<close> and \<^verbatim>\<open>ReviewTarget\<close> of
  \<^verbatim>\<open>api/terminal-session-contract.ts\<close>). Optional fields are options; an absent
  field and one holding \<^verbatim>\<open>undefined\<close> are the same. Record fields carry a prefix
  because field names are global constants here.
\<close>

datatype os_app_id =
    Terminals | Editor | Browser | Files | Search | Changes | Project_info | Git
  | Conflict_resolver | Session_changes | Workflow_plans | Ports_tunnels | Agent_store
  | Settings | System_monitor | Agent_hub | Recipes

datatype fs_target_ref =
    WorkspaceTarget string "real option"
  | ProjectTarget string string "string option"

record window_context =
  ctx_profileId :: string
  ctx_generation :: "real option"
  ctx_projectId :: "string option"
  ctx_worktreeId :: "string option"
  ctx_gitRootId :: "string option"
  ctx_operation :: "string option"
  ctx_target :: "fs_target_ref option"

datatype window_mode = Tile | Float

record float_bounds =
  fb_x :: real
  fb_y :: real
  fb_width :: real
  fb_height :: real

record viewport =
  vp_width :: real
  vp_height :: real

record restore_placement =
  rp_mode :: window_mode
  rp_desktopId :: string
  rp_floatBounds :: "float_bounds option"

record terminal_target =
  tt_profileId :: string
  tt_generation :: real
  tt_serverEpoch :: string
  tt_terminalId :: string
  tt_incarnation :: string

record review_target =
  rt_profileId :: string
  rt_generation :: real
  rt_terminalId :: string
  rt_terminalIncarnation :: string
  rt_ompSessionId :: string
  rt_serverEpoch :: string
  rt_rootId :: string
  rt_baselineId :: string

datatype runtime_identity =
    TerminalIdentity terminal_target
  | ReviewIdentity review_target

record os_window =
  win_id :: string
  win_appId :: os_app_id
  win_title :: string
  win_ctx :: window_context
  win_mode :: window_mode
  win_desktopId :: string
  win_maximized :: bool
  win_minimized :: bool
  win_floatBounds :: "float_bounds option"
  win_restorePlacement :: "restore_placement option"
  win_appState :: "js_value js_record option"
  win_runtimeIdentity :: "runtime_identity option"

record os_desktop =
  desk_id :: string
  desk_name :: string
  desk_defaultCtx :: "window_context option"
  desk_tree :: "string tile_node option"
  desk_floating :: "string list"
  desk_focused :: "string option"

record os_session =
  ses_schema :: nat
  ses_active :: string
  ses_desktops :: "os_desktop list"
  ses_windows :: "os_window js_record"

text \<open>\<open>appState?.k\<close>\<close>

definition state_field :: "js_value js_record option \<Rightarrow> string \<Rightarrow> js_value" where
  "state_field st k =
     (case st of
        None \<Rightarrow> JUndefined
      | Some fs \<Rightarrow> (case rec_get fs k of None \<Rightarrow> JUndefined | Some v \<Rightarrow> v))"

end
