(* ===== verification/Float_Geometry.thy ===== *)
theory Float_Geometry
  imports Window_Model
begin

text \<open>
  Geometry of floating windows, \<^verbatim>\<open>packages/ui/src/os/window-ops.ts\<close> lines 23-168:
  clamping, resizing by an edge or a corner, the cascade of new windows, the projection of
  saved bounds onto the current viewport. Pixels are reals. A viewport parameter that may be
  \<^verbatim>\<open>undefined\<close> is an option.
\<close>

definition DEFAULT_FLOAT_BOUNDS :: float_bounds where
  "DEFAULT_FLOAT_BOUNDS = \<lparr>fb_x = 60, fb_y = 60, fb_width = 720, fb_height = 520\<rparr>"

definition MIN_FLOAT_WIDTH :: real where
  "MIN_FLOAT_WIDTH = 280"

definition MIN_FLOAT_HEIGHT :: real where
  "MIN_FLOAT_HEIGHT = 200"

definition CASCADE_STEP :: real where
  "CASCADE_STEP = 28"

definition DEFAULT_VIEWPORT :: viewport where
  "DEFAULT_VIEWPORT = \<lparr>vp_width = 1280, vp_height = 800\<rparr>"

definition clampFloatBounds :: "float_bounds \<Rightarrow> viewport option \<Rightarrow> float_bounds" where
  "clampFloatBounds b vp =
     (let w = max MIN_FLOAT_WIDTH (fb_width b);
          h = max MIN_FLOAT_HEIGHT (fb_height b)
      in case vp of
           None \<Rightarrow> b\<lparr>fb_width := w, fb_height := h\<rparr>
         | Some v \<Rightarrow>
             if vp_width v \<le> 0 \<or> vp_height v \<le> 0 then b\<lparr>fb_width := w, fb_height := h\<rparr>
             else let maxX = max 0 (vp_width v - 50);
                      maxY = max 0 (vp_height v - 50)
                  in \<lparr>fb_x = max 0 (min (fb_x b) maxX), fb_y = max 0 (min (fb_y b) maxY),
                      fb_width = w, fb_height = h\<rparr>)"

datatype resize_direction = N | S | E | W | NE | NW | SE | SW

definition dir_e :: "resize_direction \<Rightarrow> bool" where
  "dir_e d \<longleftrightarrow> d = E \<or> d = NE \<or> d = SE"

definition dir_s :: "resize_direction \<Rightarrow> bool" where
  "dir_s d \<longleftrightarrow> d = S \<or> d = SE \<or> d = SW"

definition dir_w :: "resize_direction \<Rightarrow> bool" where
  "dir_w d \<longleftrightarrow> d = W \<or> d = NW \<or> d = SW"

definition dir_n :: "resize_direction \<Rightarrow> bool" where
  "dir_n d \<longleftrightarrow> d = N \<or> d = NE \<or> d = NW"

text \<open>The four blocks of \<open>resizeFloatBounds\<close>, each on the position and extent of one axis:
  growing at the far edge, and dragging the near edge without passing the minimum.\<close>

definition drag_near_edge :: "real \<Rightarrow> real \<Rightarrow> real \<Rightarrow> real \<Rightarrow> real \<times> real" where
  "drag_near_edge minExt pos ext delta =
     (if ext - delta \<ge> minExt then (pos + delta, ext - delta)
      else (pos + (ext - minExt), minExt))"

definition resizeFloatBounds ::
  "float_bounds \<Rightarrow> real \<Rightarrow> real \<Rightarrow> resize_direction \<Rightarrow> viewport option \<Rightarrow> float_bounds"
where
  "resizeFloatBounds b dx dy dir vp =
     (let w1 = (if dir_e dir then fb_width b + dx else fb_width b);
          h1 = (if dir_s dir then fb_height b + dy else fb_height b);
          (x2, w2) = (if dir_w dir then drag_near_edge MIN_FLOAT_WIDTH (fb_x b) w1 dx
                      else (fb_x b, w1));
          (y2, h2) = (if dir_n dir then drag_near_edge MIN_FLOAT_HEIGHT (fb_y b) h1 dy
                      else (fb_y b, h1))
      in clampFloatBounds
           \<lparr>fb_x = x2, fb_y = y2, fb_width = max MIN_FLOAT_WIDTH w2,
            fb_height = max MIN_FLOAT_HEIGHT h2\<rparr> vp)"

definition calculateNextFloatBounds ::
  "os_session \<Rightarrow> string \<Rightarrow> viewport option \<Rightarrow> float_bounds"
where
  "calculateNextFloatBounds s did vp =
     (let safeW = max 100 (case vp of Some v \<Rightarrow> vp_width v | None \<Rightarrow> 1280);
          safeH = max 80 (case vp of Some v \<Rightarrow> vp_height v | None \<Rightarrow> 800);
          fitWidth = min (fb_width DEFAULT_FLOAT_BOUNDS) (max 50 (safeW - 20));
          fitHeight = min (fb_height DEFAULT_FLOAT_BOUNDS) (max 40 (safeH - 20));
          baseX = min (fb_x DEFAULT_FLOAT_BOUNDS) (max 0 (safeW - fitWidth));
          baseY = min (fb_y DEFAULT_FLOAT_BOUNDS) (max 0 (safeH - fitHeight));
          eligible =
            (case find (\<lambda>d. desk_id d = did) (ses_desktops s) of
               None \<Rightarrow> []
             | Some d \<Rightarrow>
                 filter (\<lambda>i. case rec_get (ses_windows s) i of
                               None \<Rightarrow> False
                             | Some w \<Rightarrow> \<not> win_minimized w \<and> win_floatBounds w \<noteq> None)
                   (desk_floating d));
          count = length eligible
      in if count = 0
         then \<lparr>fb_x = baseX, fb_y = baseY, fb_width = fitWidth, fb_height = fitHeight\<rparr>
         else
           let maxUsableX = max baseX (safeW - 100);
               maxUsableY = max baseY (safeH - 40);
               maxStepsX = max 1 \<lfloor>(maxUsableX - baseX) / CASCADE_STEP\<rfloor>;
               maxStepsY = max 1 \<lfloor>(maxUsableY - baseY) / CASCADE_STEP\<rfloor>;
               maxSteps = min maxStepsX maxStepsY;
               stepIndex = int count mod maxSteps
           in \<lparr>fb_x = min (baseX + of_int stepIndex * CASCADE_STEP) maxUsableX,
               fb_y = min (baseY + of_int stepIndex * CASCADE_STEP) maxUsableY,
               fb_width = fitWidth, fb_height = fitHeight\<rparr>)"

definition projectFloatBounds :: "float_bounds \<Rightarrow> viewport option \<Rightarrow> float_bounds" where
  "projectFloatBounds saved vp =
     (case vp of
        None \<Rightarrow> saved
      | Some v \<Rightarrow>
          if vp_width v \<le> 0 \<or> vp_height v \<le> 0 then saved
          else
            let minWidth = min MIN_FLOAT_WIDTH (vp_width v);
                minHeight = min MIN_FLOAT_HEIGHT (vp_height v);
                maxX = max 0 (vp_width v - 50);
                maxY = max 0 (vp_height v - 40)
            in \<lparr>fb_x = max 0 (min (fb_x saved) maxX), fb_y = max 0 (min (fb_y saved) maxY),
                fb_width = min (max minWidth (fb_width saved)) (vp_width v),
                fb_height = min (max minHeight (fb_height saved)) (vp_height v)\<rparr>)"

definition getVisibleFloatBounds :: "float_bounds \<Rightarrow> viewport option \<Rightarrow> float_bounds" where
  "getVisibleFloatBounds b vp =
     projectFloatBounds b (Some (case vp of Some v \<Rightarrow> v | None \<Rightarrow> DEFAULT_VIEWPORT))"

lemmas geometry_consts =
  DEFAULT_FLOAT_BOUNDS_def MIN_FLOAT_WIDTH_def MIN_FLOAT_HEIGHT_def CASCADE_STEP_def
  DEFAULT_VIEWPORT_def

section \<open>Clamping and projection\<close>

lemma clampFloatBounds_min_size:
  "fb_width (clampFloatBounds b vp) \<ge> MIN_FLOAT_WIDTH"
  "fb_height (clampFloatBounds b vp) \<ge> MIN_FLOAT_HEIGHT"
  by (auto simp: clampFloatBounds_def Let_def split: option.splits)

lemma clamp_range_idem: "(0::real) \<le> m \<Longrightarrow> max 0 (min (max 0 (min x m)) m) = max 0 (min x m)"
  by linarith

lemma clampFloatBounds_idem: "clampFloatBounds (clampFloatBounds b vp) vp = clampFloatBounds b vp"
proof (cases vp)
  case (Some v)
  then show ?thesis
    by (cases "vp_width v \<le> 0 \<or> vp_height v \<le> 0")
       (simp_all add: clampFloatBounds_def Let_def clamp_range_idem)
qed (simp add: clampFloatBounds_def Let_def)

lemma drag_near_edge_far_end: "fst (drag_near_edge m p e d) + snd (drag_near_edge m p e d) = p + e"
  by (simp add: drag_near_edge_def)

lemma drag_near_edge_min: "snd (drag_near_edge m p e d) \<ge> m"
  by (simp add: drag_near_edge_def)

end
