(* ===== verification/Window_Ops.thy ===== *)
theory Window_Ops
  imports Float_Geometry
begin

text \<open>
  The session operations of \<^verbatim>\<open>packages/ui/src/os/window-ops.ts\<close>, lines 170-1167, one
  definition per function and in the same order. A session is a value and every operation
  returns the next one, as in the source. UUIDs (\<^verbatim>\<open>generateUUID()\<close>) and the clock
  (\<^verbatim>\<open>Date.now()\<close>) are arguments; \<open>openWindow\<close> takes a whole window and overwrites
  the three fields its configuration type omits.
\<close>

section \<open>Session helpers\<close>

definition createDefaultOsSession :: "string \<Rightarrow> string \<Rightarrow> os_session" where
  "createDefaultOsSession did name =
     \<lparr>ses_schema = 1, ses_active = did,
      ses_desktops = [\<lparr>desk_id = did, desk_name = name, desk_defaultCtx = None, desk_tree = None,
                       desk_floating = [], desk_focused = None\<rparr>],
      ses_windows = []\<rparr>"

definition findDesktop :: "os_session \<Rightarrow> string \<Rightarrow> os_desktop option" where
  "findDesktop s did = find (\<lambda>d. desk_id d = did) (ses_desktops s)"

definition updateDesktop ::
  "os_session \<Rightarrow> string \<Rightarrow> (os_desktop \<Rightarrow> os_desktop) \<Rightarrow> os_session"
where
  "updateDesktop s did f =
     s\<lparr>ses_desktops := map (\<lambda>d. if desk_id d = did then f d else d) (ses_desktops s)\<rparr>"

abbreviation get_window :: "os_session \<Rightarrow> string \<Rightarrow> os_window option" where
  "get_window s wid \<equiv> rec_get (ses_windows s) wid"

definition set_window :: "string \<Rightarrow> os_window \<Rightarrow> os_session \<Rightarrow> os_session" where
  "set_window wid w s = s\<lparr>ses_windows := rec_set wid w (ses_windows s)\<rparr>"

definition removeWindowFromDesktopTree ::
  "string tile_node option \<Rightarrow> string \<Rightarrow> string tile_node option"
where
  "removeWindowFromDesktopTree tree wid =
     (case tree of
        None \<Rightarrow> None
      | Some t \<Rightarrow>
          (case findTilePaneContaining t (\<lambda>i. i = wid) of
             None \<Rightarrow> Some t
           | Some p \<Rightarrow>
               if length (items p) > 1 then Some (removeItemFromTilePane t (pane_id p) wid)
               else removeTilePane t (pane_id p)))"

text \<open>\<open>!allWindows[id]?.minimized\<close>\<close>

definition not_minimized :: "os_window js_record \<Rightarrow> string \<Rightarrow> bool" where
  "not_minimized ws i = (case rec_get ws i of None \<Rightarrow> True | Some w \<Rightarrow> \<not> win_minimized w)"

text \<open>The loop over the panes in \<open>pickNextFocus\<close>: the empty string is falsy.\<close>

fun pick_live :: "(string \<Rightarrow> bool) \<Rightarrow> string tile_pane list \<Rightarrow> string option" where
  "pick_live P [] = None"
| "pick_live P (p # ps) =
     (case find P (items p) of
        Some live \<Rightarrow> if live \<noteq> '''' then Some live else pick_live P ps
      | None \<Rightarrow> pick_live P ps)"

definition pickNextFocus :: "os_desktop \<Rightarrow> string \<Rightarrow> os_window js_record \<Rightarrow> string option" where
  "pickNextFocus d closedId ws =
     (if desk_focused d \<noteq> Some closedId then desk_focused d
      else let remainingFloating =
                 filter (\<lambda>i. i \<noteq> closedId \<and> not_minimized ws i) (desk_floating d)
           in if remainingFloating \<noteq> [] then js_last remainingFloating
              else case desk_tree d of
                     Some t \<Rightarrow>
                       pick_live (\<lambda>i. i \<noteq> closedId \<and> not_minimized ws i) (collectTilePanes t)
                   | None \<Rightarrow> None)"

definition in_tree :: "string tile_node option \<Rightarrow> string \<Rightarrow> bool" where
  "in_tree tree wid =
     (case tree of
        None \<Rightarrow> False
      | Some t \<Rightarrow> findTilePaneContaining t (\<lambda>i. i = wid) \<noteq> None)"

definition without :: "string \<Rightarrow> string list \<Rightarrow> string list" where
  "without wid ids = filter (\<lambda>i. i \<noteq> wid) ids"

definition removeWindowFromAllDesktopPlacements :: "os_session \<Rightarrow> string \<Rightarrow> os_session" where
  "removeWindowFromAllDesktopPlacements s wid =
     fold (\<lambda>desk u.
             if wid \<in> set (desk_floating desk) \<or> in_tree (desk_tree desk) wid
             then updateDesktop u (desk_id desk)
                    (\<lambda>d. d\<lparr>desk_floating := without wid (desk_floating d),
                           desk_tree := removeWindowFromDesktopTree (desk_tree d) wid,
                           desk_focused :=
                             (if desk_focused d = Some wid then pickNextFocus d wid (ses_windows s)
                              else desk_focused d)\<rparr>)
             else u)
       (ses_desktops s) s"

text \<open>The block that tiles a window into the first pane, shared by five operations.\<close>

definition place_in_tree :: "string tile_node option \<Rightarrow> string \<Rightarrow> string \<Rightarrow> string tile_node" where
  "place_in_tree tree wid uuid =
     (case tree of
        None \<Rightarrow> Pane (newTilePaneNode [wid] (Some wid) uuid)
      | Some t \<Rightarrow>
          (case js_first (collectTilePanes t) of
             Some targetPane \<Rightarrow> insertItemIntoTilePane t (pane_id targetPane) wid None
           | None \<Rightarrow> Pane (newTilePaneNode [wid] (Some wid) uuid)))"

section \<open>Opening, closing, focusing\<close>

definition target_desktop :: "os_session \<Rightarrow> string \<Rightarrow> os_desktop option" where
  "target_desktop s did =
     (case findDesktop s did of Some d \<Rightarrow> Some d | None \<Rightarrow> js_first (ses_desktops s))"

definition open_bounds ::
  "os_session \<Rightarrow> os_window \<Rightarrow> string \<Rightarrow> viewport option \<Rightarrow> float_bounds option"
where
  "open_bounds s cfg did vp =
     (case win_floatBounds cfg of
        Some b \<Rightarrow> Some b
      | None \<Rightarrow>
          if win_mode cfg = Float
          then Some (calculateNextFloatBounds s did
                       (Some (case vp of Some v \<Rightarrow> v | None \<Rightarrow> DEFAULT_VIEWPORT)))
          else None)"

definition place_on_desktop :: "window_mode \<Rightarrow> string \<Rightarrow> string \<Rightarrow> os_desktop \<Rightarrow> os_desktop" where
  "place_on_desktop mode wid uuid d =
     (if mode = Float
      then d\<lparr>desk_floating := without wid (desk_floating d) @ [wid], desk_focused := Some wid\<rparr>
      else d\<lparr>desk_tree := Some (place_in_tree (desk_tree d) wid uuid), desk_focused := Some wid\<rparr>)"

definition openWindow ::
  "os_session \<Rightarrow> os_window \<Rightarrow> string option \<Rightarrow> viewport option \<Rightarrow> string \<Rightarrow> os_session"
where
  "openWindow s cfg targetDesktopId vp uuid =
     (case target_desktop s (case targetDesktopId of Some i \<Rightarrow> i | None \<Rightarrow> ses_active s) of
        None \<Rightarrow> s
      | Some desktop \<Rightarrow>
          let window = cfg\<lparr>win_desktopId := desk_id desktop, win_maximized := False,
                           win_minimized := False,
                           win_floatBounds := open_bounds s cfg (desk_id desktop) vp\<rparr>
          in updateDesktop (set_window (win_id window) window s) (desk_id desktop)
               (place_on_desktop (win_mode window) (win_id window) uuid))"

definition closeWindow :: "os_session \<Rightarrow> string \<Rightarrow> os_session" where
  "closeWindow s wid =
     (case get_window s wid of
        None \<Rightarrow> s
      | Some window \<Rightarrow>
          let nextWindows = rec_del wid (ses_windows s)
          in case findDesktop s (win_desktopId window) of
               None \<Rightarrow> s\<lparr>ses_windows := nextWindows\<rparr>
             | Some desktop \<Rightarrow>
                 updateDesktop (s\<lparr>ses_windows := nextWindows\<rparr>) (desk_id desktop)
                   (\<lambda>d. d\<lparr>desk_floating := without wid (desk_floating d),
                          desk_tree := removeWindowFromDesktopTree (desk_tree d) wid,
                          desk_focused := pickNextFocus d wid nextWindows\<rparr>))"

text \<open>The pane that shows the window gets it as its active tab.\<close>

definition activate_in_tree :: "string tile_node option \<Rightarrow> string \<Rightarrow> string tile_node option" where
  "activate_in_tree tree wid =
     (case tree of
        None \<Rightarrow> None
      | Some t \<Rightarrow>
          (case findTilePaneContaining t (\<lambda>i. i = wid) of
             Some p \<Rightarrow>
               if active p \<noteq> Some wid
               then Some (updateTilePane t (pane_id p) (\<lambda>q. q\<lparr>active := Some wid\<rparr>))
               else Some t
           | None \<Rightarrow> Some t))"

definition focusWindow :: "os_session \<Rightarrow> string \<Rightarrow> os_session" where
  "focusWindow s wid =
     (case get_window s wid of
        None \<Rightarrow> s
      | Some window \<Rightarrow>
          (case findDesktop s (win_desktopId window) of
             None \<Rightarrow> s
           | Some currentDesktop \<Rightarrow>
               let isAlreadyFocused = (desk_focused currentDesktop = Some wid);
                   isFloating = (wid \<in> set (desk_floating currentDesktop));
                   isFloatingAtFront =
                     (\<not> isFloating \<or> js_last (desk_floating currentDesktop) = Some wid);
                   isPaneActive =
                     (case desk_tree currentDesktop of
                        None \<Rightarrow> True
                      | Some t \<Rightarrow>
                          (case findTilePaneContaining t (\<lambda>i. i = wid) of
                             None \<Rightarrow> True
                           | Some pane \<Rightarrow> active pane = Some wid))
               in if isAlreadyFocused \<and> isFloatingAtFront \<and> isPaneActive then s
                  else
                    updateDesktop s (win_desktopId window)
                      (\<lambda>d. d\<lparr>desk_tree := activate_in_tree (desk_tree d) wid,
                             desk_floating :=
                               (if isFloating then without wid (desk_floating d) @ [wid]
                                else desk_floating d),
                             desk_focused := Some wid\<rparr>)))"

definition switchDesktop :: "os_session \<Rightarrow> string \<Rightarrow> os_session" where
  "switchDesktop s did =
     (if ses_active s = did then s
      else if findDesktop s did = None then s
      else s\<lparr>ses_active := did\<rparr>)"

section \<open>Moving, tiling, floating\<close>

definition moveWindowToDesktop :: "os_session \<Rightarrow> string \<Rightarrow> string \<Rightarrow> string \<Rightarrow> os_session" where
  "moveWindowToDesktop s wid targetDesktopId uuid =
     (case get_window s wid of
        None \<Rightarrow> s
      | Some window \<Rightarrow>
          if win_desktopId window = targetDesktopId then s
          else if findDesktop s targetDesktopId = None then s
          else
            let withoutWindow =
                  updateDesktop s (win_desktopId window)
                    (\<lambda>d. d\<lparr>desk_floating := without wid (desk_floating d),
                           desk_tree := removeWindowFromDesktopTree (desk_tree d) wid,
                           desk_focused :=
                             (if desk_focused d = Some wid then None else desk_focused d)\<rparr>);
                updatedWindow =
                  window\<lparr>win_desktopId := targetDesktopId,
                         win_restorePlacement :=
                           map_option (\<lambda>rp. rp\<lparr>rp_desktopId := targetDesktopId\<rparr>)
                             (win_restorePlacement window)\<rparr>;
                updated = set_window wid updatedWindow withoutWindow
            in if win_minimized window then updated
               else
                 updateDesktop updated targetDesktopId
                   (\<lambda>d. if win_mode updatedWindow = Float
                        then d\<lparr>desk_floating := desk_floating d @ [wid], desk_focused := Some wid\<rparr>
                        else d\<lparr>desk_tree := Some (place_in_tree (desk_tree d) wid uuid),
                               desk_focused := Some wid\<rparr>))"

text \<open>The update both mode operations run on the window's desktop.\<close>

definition apply_mode :: "window_mode \<Rightarrow> string \<Rightarrow> string \<Rightarrow> os_desktop \<Rightarrow> os_desktop" where
  "apply_mode mode wid uuid d =
     (if mode = Float
      then d\<lparr>desk_tree := removeWindowFromDesktopTree (desk_tree d) wid,
             desk_floating := without wid (desk_floating d) @ [wid],
             desk_focused := Some wid\<rparr>
      else d\<lparr>desk_tree := Some (place_in_tree (desk_tree d) wid uuid),
             desk_floating := without wid (desk_floating d),
             desk_focused := Some wid\<rparr>)"

definition window_in_mode ::
  "os_session \<Rightarrow> os_window \<Rightarrow> window_mode \<Rightarrow> viewport option \<Rightarrow> os_window"
where
  "window_in_mode s window mode vp =
     window\<lparr>win_maximized := False, win_mode := mode,
            win_floatBounds :=
              (if mode = Float
               then (case win_floatBounds window of
                       Some b \<Rightarrow> Some b
                     | None \<Rightarrow>
                         Some (calculateNextFloatBounds s (win_desktopId window)
                                 (Some (case vp of Some v \<Rightarrow> v | None \<Rightarrow> DEFAULT_VIEWPORT))))
               else win_floatBounds window)\<rparr>"

definition setWindowMode ::
  "os_session \<Rightarrow> string \<Rightarrow> window_mode \<Rightarrow> viewport option \<Rightarrow> string \<Rightarrow> os_session"
where
  "setWindowMode s wid mode vp uuid =
     (case get_window s wid of
        None \<Rightarrow> s
      | Some window \<Rightarrow>
          if win_mode window = mode then s
          else updateDesktop (set_window wid (window_in_mode s window mode vp) s)
                 (win_desktopId window) (apply_mode mode wid uuid))"

definition toggleWindowMode ::
  "os_session \<Rightarrow> string \<Rightarrow> viewport option \<Rightarrow> string \<Rightarrow> os_session"
where
  "toggleWindowMode s wid vp uuid =
     (case get_window s wid of
        None \<Rightarrow> s
      | Some window \<Rightarrow>
          let nextMode = (if win_mode window = Tile then Float else Tile)
          in updateDesktop (set_window wid (window_in_mode s window nextMode vp) s)
               (win_desktopId window) (apply_mode nextMode wid uuid))"

section \<open>Minimizing, maximizing, restoring\<close>

definition minimizeWindow :: "os_session \<Rightarrow> string \<Rightarrow> os_session" where
  "minimizeWindow s wid =
     (case get_window s wid of
        None \<Rightarrow> s
      | Some window \<Rightarrow>
          if win_minimized window then s
          else
            let updatedWindow =
                  window\<lparr>win_minimized := True,
                         win_restorePlacement :=
                           Some \<lparr>rp_mode = win_mode window, rp_desktopId = win_desktopId window,
                                 rp_floatBounds = win_floatBounds window\<rparr>\<rparr>;
                updated = set_window wid updatedWindow s
            in updateDesktop updated (win_desktopId window)
                 (\<lambda>d. d\<lparr>desk_floating := without wid (desk_floating d),
                        desk_tree := removeWindowFromDesktopTree (desk_tree d) wid,
                        desk_focused := pickNextFocus d wid (ses_windows updated)\<rparr>))"

definition restored_window :: "os_window \<Rightarrow> os_window" where
  "restored_window w =
     (let rp = win_restorePlacement w
      in w\<lparr>win_minimized := False,
           win_mode := (case rp of Some r \<Rightarrow> rp_mode r | None \<Rightarrow> win_mode w),
           win_desktopId := (case rp of Some r \<Rightarrow> rp_desktopId r | None \<Rightarrow> win_desktopId w),
           win_floatBounds :=
             (case rp of
                Some r \<Rightarrow> (case rp_floatBounds r of Some b \<Rightarrow> Some b | None \<Rightarrow> win_floatBounds w)
              | None \<Rightarrow> win_floatBounds w),
           win_restorePlacement := None\<rparr>)"

definition restore_on_desktop :: "window_mode \<Rightarrow> string \<Rightarrow> string \<Rightarrow> os_desktop \<Rightarrow> os_desktop" where
  "restore_on_desktop mode wid uuid d =
     (if mode = Float
      then d\<lparr>desk_floating := without wid (desk_floating d) @ [wid], desk_focused := Some wid\<rparr>
      else d\<lparr>desk_tree :=
               (case desk_tree d of
                  None \<Rightarrow> Some (place_in_tree None wid uuid)
                | Some t \<Rightarrow>
                    if findTilePaneContaining t (\<lambda>i. i = wid) = None
                    then Some (place_in_tree (Some t) wid uuid)
                    else Some t),
             desk_focused := Some wid\<rparr>)"

definition restoreWindow :: "os_session \<Rightarrow> string \<Rightarrow> string \<Rightarrow> os_session" where
  "restoreWindow s wid uuid =
     (case get_window s wid of
        None \<Rightarrow> s
      | Some window \<Rightarrow>
          if \<not> win_minimized window \<and> \<not> win_maximized window then s
          else if win_minimized window then
            let updatedWindow = restored_window window
            in updateDesktop (set_window wid updatedWindow s) (win_desktopId updatedWindow)
                 (restore_on_desktop (win_mode updatedWindow) wid uuid)
          else set_window wid (window\<lparr>win_maximized := False\<rparr>) s)"

definition maximizeWindow :: "os_session \<Rightarrow> string \<Rightarrow> string \<Rightarrow> os_session" where
  "maximizeWindow s wid uuid =
     (case get_window s wid of
        None \<Rightarrow> s
      | Some window \<Rightarrow>
          if win_maximized window \<and> \<not> win_minimized window then s
          else
            let nextSession = (if win_minimized window then restoreWindow s wid uuid else s)
            in case get_window nextSession wid of
                 None \<Rightarrow> nextSession
               | Some currentWin \<Rightarrow>
                   set_window wid (currentWin\<lparr>win_maximized := True\<rparr>) nextSession)"

definition toggleMaximizeWindow :: "os_session \<Rightarrow> string \<Rightarrow> string \<Rightarrow> os_session" where
  "toggleMaximizeWindow s wid uuid =
     (case get_window s wid of
        None \<Rightarrow> s
      | Some window \<Rightarrow>
          if win_maximized window then restoreWindow s wid uuid
          else maximizeWindow s wid uuid)"

definition revealWindow :: "os_session \<Rightarrow> string \<Rightarrow> string \<Rightarrow> os_session" where
  "revealWindow s wid uuid =
     (case get_window s wid of
        None \<Rightarrow> s
      | Some target \<Rightarrow>
          let s1 = (if win_minimized target then restoreWindow s wid uuid else s);
              finalDesktopId =
                (case get_window s1 wid of
                   Some w \<Rightarrow> win_desktopId w | None \<Rightarrow> win_desktopId target)
          in focusWindow (switchDesktop s1 finalDesktopId) wid)"

definition presentWindowAsFloat ::
  "os_session \<Rightarrow> string \<Rightarrow> string \<Rightarrow> viewport option \<Rightarrow> os_session"
where
  "presentWindowAsFloat s wid did vp =
     (case get_window s wid of
        None \<Rightarrow> s
      | Some targetWin \<Rightarrow>
          if \<not> list_ex (\<lambda>d. desk_id d = did) (ses_desktops s) then s
          else if win_mode targetWin = Float \<and> win_desktopId targetWin = did
                  \<and> \<not> win_minimized targetWin \<and> \<not> win_maximized targetWin
          then focusWindow (if ses_active s \<noteq> did then switchDesktop s did else s) wid
          else
            let s1 = removeWindowFromAllDesktopPlacements s wid;
                fb = (case win_floatBounds targetWin of
                        Some b \<Rightarrow> b
                      | None \<Rightarrow>
                          (case Option.bind (win_restorePlacement targetWin) rp_floatBounds of
                             Some b \<Rightarrow> b
                           | None \<Rightarrow>
                               calculateNextFloatBounds s1 did
                                 (Some (case vp of Some v \<Rightarrow> v | None \<Rightarrow> DEFAULT_VIEWPORT))));
                updatedWindow =
                  targetWin\<lparr>win_desktopId := did, win_mode := Float, win_minimized := False,
                            win_maximized := False, win_floatBounds := Some fb,
                            win_restorePlacement := None\<rparr>;
                s2 = set_window wid updatedWindow s1;
                s3 = updateDesktop s2 did
                       (\<lambda>d. d\<lparr>desk_floating := without wid (desk_floating d) @ [wid],
                              desk_focused := Some wid\<rparr>)
            in focusWindow (switchDesktop s3 did) wid)"

definition updateFloatBounds ::
  "os_session \<Rightarrow> string \<Rightarrow> float_bounds \<Rightarrow> viewport option \<Rightarrow> os_session"
where
  "updateFloatBounds s wid bounds vp =
     (case get_window s wid of
        None \<Rightarrow> s
      | Some window \<Rightarrow>
          set_window wid (window\<lparr>win_floatBounds := Some (clampFloatBounds bounds vp)\<rparr>) s)"

section \<open>Docking and desktops\<close>

definition dockWindowInDesktopTree ::
  "os_session \<Rightarrow> string \<Rightarrow> string \<Rightarrow> tile_dock_target \<Rightarrow> string option \<Rightarrow> string \<Rightarrow> string
     \<Rightarrow> os_session"
where
  "dockWindowInDesktopTree s did wid tgt sourcePaneId newPaneId splitId =
     (case get_window s wid of
        None \<Rightarrow> s
      | Some window \<Rightarrow>
          (case findDesktop s did of
             None \<Rightarrow> s
           | Some targetDesk \<Rightarrow>
               if (case desk_tree targetDesk of
                     None \<Rightarrow> False
                   | Some t \<Rightarrow> findTilePaneById t (target_pane tgt) = None)
               then s
               else
                 let s1 =
                       fold (\<lambda>desk u.
                               if wid \<in> set (desk_floating desk)
                                  \<or> (desk_id desk \<noteq> did \<and> in_tree (desk_tree desk) wid)
                               then updateDesktop u (desk_id desk)
                                      (\<lambda>d. d\<lparr>desk_floating := without wid (desk_floating d),
                                             desk_tree :=
                                               (if desk_id desk \<noteq> did
                                                then removeWindowFromDesktopTree (desk_tree d) wid
                                                else desk_tree d),
                                             desk_focused :=
                                               (if desk_focused d = Some wid
                                                then pickNextFocus d wid (ses_windows s)
                                                else desk_focused d)\<rparr>)
                               else u)
                         (ses_desktops s) s;
                     s2 = set_window wid
                            (window\<lparr>win_desktopId := did, win_mode := Tile, win_minimized := False\<rparr>)
                            s1
                 in updateDesktop s2 did
                      (\<lambda>d. case desk_tree d of
                             None \<Rightarrow>
                               d\<lparr>desk_tree := Some (Pane (newTilePaneNode [wid] (Some wid) newPaneId)),
                                 desk_floating := without wid (desk_floating d),
                                 desk_focused := Some wid\<rparr>
                           | Some t \<Rightarrow>
                               d\<lparr>desk_tree :=
                                   Some (fst (dockItemIntoTileTree t wid tgt sourcePaneId
                                                newPaneId splitId)),
                                 desk_floating := without wid (desk_floating d),
                                 desk_focused := Some wid\<rparr>)))"

definition updateDesktopTreeSizes ::
  "os_session \<Rightarrow> string \<Rightarrow> string \<Rightarrow> real \<times> real \<Rightarrow> os_session"
where
  "updateDesktopTreeSizes s did splitId sizes =
     updateDesktop s did
       (\<lambda>d. case desk_tree d of
              None \<Rightarrow> d
            | Some t \<Rightarrow> d\<lparr>desk_tree := Some (updateTileSizes t splitId sizes)\<rparr>)"

definition addDesktop ::
  "os_session \<Rightarrow> string option \<Rightarrow> window_context option \<Rightarrow> nat \<Rightarrow> os_session"
where
  "addDesktop s name defaultCtx now =
     (let nextIndex = length (ses_desktops s) + 1;
          did = ''desktop-'' @ nat_dec now @ ''-'' @ nat_dec nextIndex;
          trimmed = (case name of Some n \<Rightarrow> js_trim n | None \<Rightarrow> '''');
          desktopName = (if trimmed \<noteq> '''' then trimmed else ''Desktop '' @ nat_dec nextIndex)
      in s\<lparr>ses_desktops := ses_desktops s @
             [\<lparr>desk_id = did, desk_name = desktopName, desk_defaultCtx = defaultCtx,
               desk_tree = None, desk_floating = [], desk_focused = None\<rparr>]\<rparr>)"

definition renameDesktop :: "os_session \<Rightarrow> string \<Rightarrow> string \<Rightarrow> os_session" where
  "renameDesktop s did name =
     (let trimmed = js_trim name
      in if trimmed = '''' then s
         else updateDesktop s did (\<lambda>d. d\<lparr>desk_name := trimmed\<rparr>))"

definition setDefaultCtx :: "os_session \<Rightarrow> string \<Rightarrow> window_context option \<Rightarrow> os_session" where
  "setDefaultCtx s did ctx = updateDesktop s did (\<lambda>d. d\<lparr>desk_defaultCtx := ctx\<rparr>)"

text \<open>The loop of \<open>removeDesktop\<close> moves one window per step; the \<open>i\<close>-th move draws the
  \<open>i\<close>-th UUID.\<close>

fun move_all :: "os_window list \<Rightarrow> string \<Rightarrow> (nat \<Rightarrow> string) \<Rightarrow> nat \<Rightarrow> os_session \<Rightarrow> os_session" where
  "move_all [] did uuids i s = s"
| "move_all (w # ws) did uuids i s =
     move_all ws did uuids (Suc i) (moveWindowToDesktop s (win_id w) did (uuids i))"

definition removeDesktop ::
  "os_session \<Rightarrow> string \<Rightarrow> string option \<Rightarrow> (nat \<Rightarrow> string) \<Rightarrow> os_session"
where
  "removeDesktop s did survivingDesktopId uuids =
     (if length (ses_desktops s) \<le> 1 then s
      else if find (\<lambda>d. desk_id d = did) (ses_desktops s) = None then s
      else
        case (case survivingDesktopId of
                Some sd \<Rightarrow>
                  if sd \<noteq> '''' then find (\<lambda>d. desk_id d = sd \<and> desk_id d \<noteq> did) (ses_desktops s)
                  else find (\<lambda>d. desk_id d \<noteq> did) (ses_desktops s)
              | None \<Rightarrow> find (\<lambda>d. desk_id d \<noteq> did) (ses_desktops s)) of
          None \<Rightarrow> s
        | Some targetDesk \<Rightarrow>
            let windowsToMove =
                  filter (\<lambda>w. win_desktopId w = did) (map snd (ses_windows s));
                s1 = move_all windowsToMove (desk_id targetDesk) uuids 0 s
            in s1\<lparr>ses_active := (if ses_active s1 = did then desk_id targetDesk else ses_active s1),
                  ses_desktops := filter (\<lambda>d. desk_id d \<noteq> did) (ses_desktops s1)\<rparr>)"

section \<open>Stacking order and tabs\<close>

definition bringWindowToFront :: "os_session \<Rightarrow> string \<Rightarrow> os_session" where
  "bringWindowToFront s wid =
     (case get_window s wid of
        None \<Rightarrow> s
      | Some window \<Rightarrow>
          if win_mode window \<noteq> Float then s
          else updateDesktop s (win_desktopId window)
                 (\<lambda>d. d\<lparr>desk_floating := without wid (desk_floating d) @ [wid],
                        desk_focused := Some wid\<rparr>))"

definition sendWindowToBack :: "os_session \<Rightarrow> string \<Rightarrow> os_session" where
  "sendWindowToBack s wid =
     (case get_window s wid of
        None \<Rightarrow> s
      | Some window \<Rightarrow>
          if win_mode window \<noteq> Float then s
          else updateDesktop s (win_desktopId window)
                 (\<lambda>d. d\<lparr>desk_floating := wid # without wid (desk_floating d)\<rparr>))"

definition selectPaneTab :: "os_session \<Rightarrow> string \<Rightarrow> string \<Rightarrow> os_session" where
  "selectPaneTab s paneId wid =
     (case get_window s wid of
        None \<Rightarrow> s
      | Some window \<Rightarrow>
          updateDesktop s (win_desktopId window)
            (\<lambda>d. case desk_tree d of
                   None \<Rightarrow> d
                 | Some t \<Rightarrow>
                     (case findTilePaneById t paneId of
                        None \<Rightarrow> d
                      | Some targetPane \<Rightarrow>
                          if wid \<notin> set (items targetPane) then d
                          else d\<lparr>desk_tree :=
                                   Some (updateTilePane t paneId (\<lambda>p. p\<lparr>active := Some wid\<rparr>)),
                                 desk_focused := Some wid\<rparr>)))"

definition moveTabWithinPane :: "os_session \<Rightarrow> string \<Rightarrow> int \<Rightarrow> int \<Rightarrow> os_session" where
  "moveTabWithinPane s paneId fromIndex toIndex =
     (case findDesktop s (ses_active s) of
        None \<Rightarrow> s
      | Some desktop \<Rightarrow>
          (case desk_tree desktop of
             None \<Rightarrow> s
           | Some tree \<Rightarrow>
               (case findTilePaneById tree paneId of
                  None \<Rightarrow> s
                | Some pane \<Rightarrow>
                    if fromIndex < 0 \<or> fromIndex \<ge> int (length (items pane))
                       \<or> toIndex < 0 \<or> toIndex \<ge> int (length (items pane)) then s
                    else
                      let removed = items pane ! nat fromIndex;
                          nextItems = splice_insert (nat toIndex) removed
                                        (splice_remove (nat fromIndex) (items pane))
                      in if removed = '''' then s
                         else updateDesktop s (desk_id desktop)
                                (\<lambda>d. case desk_tree d of
                                       None \<Rightarrow> d
                                     | Some t \<Rightarrow>
                                         d\<lparr>desk_tree :=
                                             Some (updateTilePane t paneId
                                                     (\<lambda>p. p\<lparr>items := nextItems\<rparr>))\<rparr>))))"

definition splitWindow ::
  "os_session \<Rightarrow> string \<Rightarrow> string \<Rightarrow> dock_edge option \<Rightarrow> string \<Rightarrow> string \<Rightarrow> os_session"
where
  "splitWindow s sourceWindowId targetWindowId direction newPaneId splitId =
     (case (get_window s sourceWindowId, get_window s targetWindowId) of
        (Some sourceWin, Some targetWin) \<Rightarrow>
          (case findDesktop s (win_desktopId targetWin) of
             None \<Rightarrow> s
           | Some targetDesk \<Rightarrow>
               (case desk_tree targetDesk of
                  None \<Rightarrow> s
                | Some t \<Rightarrow>
                    (case findTilePaneContaining t (\<lambda>i. i = targetWindowId) of
                       None \<Rightarrow> s
                     | Some targetPane \<Rightarrow>
                         dockWindowInDesktopTree s (win_desktopId targetWin) sourceWindowId
                           (case direction of
                              None \<Rightarrow> PaneCenter (pane_id targetPane)
                            | Some e \<Rightarrow> PaneEdge (pane_id targetPane) e)
                           None newPaneId splitId)))
      | _ \<Rightarrow> s)"

end
