(* ===== verification/Session_Inv.thy ===== *)
theory Session_Inv
  imports Window_Ops
begin

text \<open>
  The placement invariant of a session, the exactly-one-placement rule that
  \<^verbatim>\<open>validateOsSession\<close> enforces on stored sessions: every window that is not
  minimized is shown exactly once, on its own desktop, in the floating list or in the tile
  tree according to its mode; a minimized window is shown nowhere; the focused window of a
  desktop is shown on it. Each section proves that a group of operations keeps it. The proofs
  go through \<open>desk_ok F T\<close>, which says that a desktop floats exactly the windows \<open>F\<close> and tiles
  exactly the windows \<open>T\<close>.
\<close>

section \<open>The invariant\<close>

definition shown_ids :: "os_window js_record \<Rightarrow> string \<Rightarrow> window_mode \<Rightarrow> string list" where
  "shown_ids ws did m =
     map fst (filter (\<lambda>(k, w). win_desktopId w = did \<and> win_mode w = m \<and> \<not> win_minimized w) ws)"

definition tree_ids :: "os_desktop \<Rightarrow> string list" where
  "tree_ids d = (case desk_tree d of None \<Rightarrow> [] | Some t \<Rightarrow> tree_items t)"

definition desk_ok :: "string set \<Rightarrow> string set \<Rightarrow> os_desktop \<Rightarrow> bool" where
  "desk_ok F T d \<longleftrightarrow>
     distinct (desk_floating d) \<and> set (desk_floating d) = F \<and>
     (case desk_tree d of None \<Rightarrow> True | Some t \<Rightarrow> wf_tile t) \<and> set (tree_ids d) = T \<and>
     (case desk_focused d of None \<Rightarrow> True | Some f \<Rightarrow> f \<in> F \<or> f \<in> T)"

definition wf_desktop :: "os_window js_record \<Rightarrow> os_desktop \<Rightarrow> bool" where
  "wf_desktop ws d =
     desk_ok (set (shown_ids ws (desk_id d) Float)) (set (shown_ids ws (desk_id d) Tile)) d"

definition wf_window :: "string set \<Rightarrow> string \<times> os_window \<Rightarrow> bool" where
  "wf_window dids kw \<longleftrightarrow>
     fst kw = win_id (snd kw) \<and> fst kw \<noteq> '''' \<and> win_desktopId (snd kw) \<in> dids \<and>
     (case win_restorePlacement (snd kw) of
        None \<Rightarrow> True | Some rp \<Rightarrow> rp_desktopId rp = win_desktopId (snd kw))"

definition desktop_ids :: "os_session \<Rightarrow> string set" where
  "desktop_ids s = desk_id ` set (ses_desktops s)"

definition wf_session :: "os_session \<Rightarrow> bool" where
  "wf_session s \<longleftrightarrow>
     ses_schema s = 1 \<and> distinct (map desk_id (ses_desktops s)) \<and> ses_active s \<in> desktop_ids s \<and>
     rec_wf (ses_windows s) \<and> list_all (wf_window (desktop_ids s)) (ses_windows s) \<and>
     list_all (wf_desktop (ses_windows s)) (ses_desktops s)"

section \<open>Which windows a desktop shows\<close>

lemma set_shown_ids:
  "rec_wf ws \<Longrightarrow>
     set (shown_ids ws did m) =
       {k. \<exists>w. rec_get ws k = Some w \<and> win_desktopId w = did \<and> win_mode w = m \<and> \<not> win_minimized w}"
  by (auto simp: shown_ids_def rec_get_iff image_iff)

lemma shown_ids_set:
  assumes "rec_wf ws"
  shows "set (shown_ids (rec_set wid w ws) did m) =
    (if win_desktopId w = did \<and> win_mode w = m \<and> \<not> win_minimized w
     then insert wid (set (shown_ids ws did m)) else set (shown_ids ws did m) - {wid})"
  using assms by (auto simp: set_shown_ids rec_get_set)

lemma shown_ids_del:
  assumes "rec_wf ws"
  shows "set (shown_ids (rec_del wid ws) did m) = set (shown_ids ws did m) - {wid}"
  using assms by (auto simp: set_shown_ids rec_get_del)

lemma shown_ids_member:
  "rec_wf ws \<Longrightarrow> rec_get ws wid = Some w \<Longrightarrow>
     wid \<in> set (shown_ids ws did m) \<longleftrightarrow>
       win_desktopId w = did \<and> win_mode w = m \<and> \<not> win_minimized w"
  by (simp add: set_shown_ids)

lemma shown_ids_absent:
  "rec_wf ws \<Longrightarrow> rec_get ws wid = None \<Longrightarrow> wid \<notin> set (shown_ids ws did m)"
  by (simp add: set_shown_ids)

lemma shown_ids_disjoint:
  "rec_wf ws \<Longrightarrow> set (shown_ids ws did Float) \<inter> set (shown_ids ws did Tile) = {}"
  by (auto simp: set_shown_ids)

section \<open>Desktop updates\<close>

lemma tree_ids_simps [simp]:
  "tree_ids (d\<lparr>desk_floating := fs\<rparr>) = tree_ids d"
  "tree_ids (d\<lparr>desk_focused := fc\<rparr>) = tree_ids d"
  "tree_ids (d\<lparr>desk_tree := Some t\<rparr>) = tree_items t"
  "tree_ids (d\<lparr>desk_tree := None\<rparr>) = []"
  "tree_ids (d\<lparr>desk_name := nm\<rparr>) = tree_ids d"
  "tree_ids (d\<lparr>desk_defaultCtx := cx\<rparr>) = tree_ids d"
  by (simp_all add: tree_ids_def)

lemma set_without [simp]: "set (without wid ids) = set ids - {wid}"
  by (auto simp: without_def)

lemma distinct_without [simp]: "distinct ids \<Longrightarrow> distinct (without wid ids)"
  by (simp add: without_def)

abbreviation opt_wf :: "string tile_node option \<Rightarrow> bool" where
  "opt_wf tree \<equiv> (case tree of None \<Rightarrow> True | Some t \<Rightarrow> wf_tile t)"

abbreviation opt_items :: "string tile_node option \<Rightarrow> string list" where
  "opt_items tree \<equiv> (case tree of None \<Rightarrow> [] | Some t \<Rightarrow> tree_items t)"

lemma removeWindowFromDesktopTree_wf:
  assumes "opt_wf tree"
  shows "opt_wf (removeWindowFromDesktopTree tree wid)"
    and "set (opt_items (removeWindowFromDesktopTree tree wid)) = set (opt_items tree) - {wid}"
proof -
  have "opt_wf (removeWindowFromDesktopTree tree wid) \<and>
    set (opt_items (removeWindowFromDesktopTree tree wid)) = set (opt_items tree) - {wid}"
  proof (cases tree)
    case (Some t)
    with assms have wf: "wf_tile t" by simp
    show ?thesis
    proof (cases "findTilePaneContaining t (\<lambda>i. i = wid)")
      case None
      then have "wid \<notin> set (tree_items t)" by (simp add: findTilePaneContaining_None_iff)
      with None Some wf show ?thesis by (simp add: removeWindowFromDesktopTree_def)
    next
      case p: (Some p)
      then have pin: "p \<in> set (collectTilePanes t)" "wid \<in> set (items p)"
        by (simp_all add: findTilePaneContaining_iff [OF wf])
      show ?thesis
      proof (cases "length (items p) > 1")
        case True
        with p Some wf_tile_removeItem [OF wf pin(1) refl pin(2) True] show ?thesis
          by (simp add: removeWindowFromDesktopTree_def)
      next
        case False
        with pin(2) have one: "items p = [wid]" by (cases "items p") auto
        with p Some have eq: "removeWindowFromDesktopTree tree wid = removeTilePane t (pane_id p)"
          by (simp add: removeWindowFromDesktopTree_def)
        show ?thesis
        proof (cases "removeTilePane t (pane_id p)")
          case None
          then have "\<forall>q \<in> set (collectTilePanes t). pane_id q = pane_id p"
            by (simp add: removeTilePane_None_iff)
          then have "set (collectTilePanes t) = {p}"
            using pin(1) by (auto intro: distinct_map_eqD [OF wf_tileD(2) [OF wf] _ pin(1)])
          then have "set (tree_items t) = {wid}" by (simp add: tree_items_def one)
          with None Some eq show ?thesis by simp
        next
          case (Some t')
          from wf_tile_removeTilePane [OF wf pin(1) Some] one Some eq \<open>tree = Some t\<close>
          show ?thesis by simp
        qed
      qed
    qed
  qed (simp add: removeWindowFromDesktopTree_def)
  then show "opt_wf (removeWindowFromDesktopTree tree wid)"
    and "set (opt_items (removeWindowFromDesktopTree tree wid)) = set (opt_items tree) - {wid}"
    by auto
qed

lemma place_in_tree_wf:
  assumes "opt_wf tree" and "wid \<notin> set (opt_items tree)" and "uuid \<noteq> ''''"
  shows "wf_tile (place_in_tree tree wid uuid)"
    and "set (tree_items (place_in_tree tree wid uuid)) = insert wid (set (opt_items tree))"
proof -
  have "wf_tile (place_in_tree tree wid uuid) \<and>
    set (tree_items (place_in_tree tree wid uuid)) = insert wid (set (opt_items tree))"
  proof (cases tree)
    case None
    with wf_tile_new_pane [OF assms(3), of wid] show ?thesis by (simp add: place_in_tree_def)
  next
    case (Some t)
    obtain p ps where ps: "collectTilePanes t = p # ps" by (cases "collectTilePanes t") auto
    from Some assms(1,2) have "wf_tile t" "wid \<notin> set (tree_items t)" by simp_all
    with Some ps wf_tile_insertItem [of t p "pane_id p" wid None] show ?thesis
      by (simp add: place_in_tree_def js_first_def)
  qed
  then show "wf_tile (place_in_tree tree wid uuid)"
    and "set (tree_items (place_in_tree tree wid uuid)) = insert wid (set (opt_items tree))"
    by auto
qed

lemma pick_live_in: "pick_live P ps = Some f \<Longrightarrow> \<exists>p \<in> set ps. f \<in> set (items p) \<and> P f"
proof (induction ps)
  case (Cons p ps)
  show ?case
  proof (cases "find P (items p)")
    case None
    with Cons show ?thesis by auto
  next
    case (Some l)
    with find_Some_in [OF Some] Cons show ?thesis by (cases "l = ''''") auto
  qed
qed simp

lemma pickNextFocus_shown:
  assumes "desk_ok F T d" and "pickNextFocus d wid ws = Some f"
  shows "f \<in> F - {wid} \<or> f \<in> T - {wid}"
proof (cases "desk_focused d = Some wid")
  case False
  with assms show ?thesis by (auto simp: pickNextFocus_def desk_ok_def)
next
  case True
  let ?fl = "filter (\<lambda>i. i \<noteq> wid \<and> not_minimized ws i) (desk_floating d)"
  show ?thesis
  proof (cases "?fl = []")
    case False
    with True assms(2) have "js_last ?fl = Some f" by (simp add: pickNextFocus_def)
    then have "f \<in> set ?fl" by (rule js_last_in)
    with assms(1) show ?thesis by (auto simp: desk_ok_def)
  next
    case True
    with \<open>desk_focused d = Some wid\<close> assms(2) obtain t where t: "desk_tree d = Some t"
      and "pick_live (\<lambda>i. i \<noteq> wid \<and> not_minimized ws i) (collectTilePanes t) = Some f"
      by (cases "desk_tree d") (auto simp: pickNextFocus_def)
    then obtain p where "p \<in> set (collectTilePanes t)" "f \<in> set (items p)" "f \<noteq> wid"
      by (auto dest: pick_live_in)
    with t assms(1) show ?thesis by (auto simp: desk_ok_def tree_ids_def tree_items_def)
  qed
qed

section \<open>From desktops to sessions\<close>

lemma desk_ok_remove:
  assumes "desk_ok F T d" and "\<And>f. foc = Some f \<Longrightarrow> f \<in> F - {wid} \<or> f \<in> T - {wid}"
  shows "desk_ok (F - {wid}) (T - {wid})
    (d\<lparr>desk_floating := without wid (desk_floating d),
       desk_tree := removeWindowFromDesktopTree (desk_tree d) wid, desk_focused := foc\<rparr>)"
  using assms removeWindowFromDesktopTree_wf [of "desk_tree d" wid]
  by (auto simp: desk_ok_def tree_ids_def split: option.splits)

lemma desk_ok_float:
  assumes "desk_ok F T d"
  shows "desk_ok (insert wid F) T
    (d\<lparr>desk_floating := without wid (desk_floating d) @ [wid], desk_focused := Some wid\<rparr>)"
  using assms by (auto simp: desk_ok_def)

lemma desk_ok_tile:
  assumes "desk_ok F T d" and "wid \<notin> T" and "uuid \<noteq> ''''"
  shows "desk_ok F (insert wid T)
    (d\<lparr>desk_tree := Some (place_in_tree (desk_tree d) wid uuid), desk_focused := Some wid\<rparr>)"
  using assms place_in_tree_wf [of "desk_tree d" wid uuid]
  by (auto simp: desk_ok_def tree_ids_def)

lemma desk_ok_place:
  assumes "desk_ok F T d" and "wid \<notin> T" and "uuid \<noteq> ''''"
  shows "desk_ok (insert wid F) T (place_on_desktop Float wid uuid d)"
    and "desk_ok F (insert wid T) (place_on_desktop Tile wid uuid d)"
  using desk_ok_float [OF assms(1)] desk_ok_tile [OF assms] by (simp_all add: place_on_desktop_def)

lemma desk_id_place [simp]: "desk_id (place_on_desktop m wid uuid d) = desk_id d"
  by (simp add: place_on_desktop_def)

lemma desk_ok_apply_mode:
  assumes "desk_ok F T d"
  shows "desk_ok (insert wid F) (T - {wid}) (apply_mode Float wid uuid d)"
    and "wid \<notin> T \<Longrightarrow> uuid \<noteq> '''' \<Longrightarrow>
      desk_ok (F - {wid}) (insert wid T) (apply_mode Tile wid uuid d)"
  using assms removeWindowFromDesktopTree_wf [of "desk_tree d" wid]
    place_in_tree_wf [of "desk_tree d" wid uuid]
  by (auto simp: desk_ok_def tree_ids_def apply_mode_def split: option.splits)

lemma desk_id_apply_mode [simp]: "desk_id (apply_mode m wid uuid d) = desk_id d"
  by (simp add: apply_mode_def)

lemma set_rec_set_subset: "set (rec_set k v m) \<subseteq> insert (k, v) (set m)"
  by (induction m) auto

lemma windows_ok_set:
  "list_all P m \<Longrightarrow> P (k, v) \<Longrightarrow> list_all P (rec_set k v m)"
  using set_rec_set_subset [of k v m] by (auto simp: list_all_iff)

lemma windows_ok_del: "list_all P m \<Longrightarrow> list_all P (rec_del k m)"
  by (auto simp: list_all_iff AList.delete_eq)

lemma desktop_ids_alt: "desktop_ids s = set (map desk_id (ses_desktops s))"
  by (simp add: desktop_ids_def)

lemma wf_sessionD:
  assumes "wf_session s"
  shows "distinct (map desk_id (ses_desktops s))" and "rec_wf (ses_windows s)"
    and "list_all (wf_window (desktop_ids s)) (ses_windows s)"
    and "d \<in> set (ses_desktops s) \<Longrightarrow> wf_desktop (ses_windows s) d"
    and "ses_active s \<in> desktop_ids s"
  using assms by (auto simp: wf_session_def list_all_iff)

lemma wf_session_window:
  assumes "wf_session s" and "get_window s wid = Some w"
  shows "win_id w = wid" and "wid \<noteq> ''''" and "win_desktopId w \<in> desktop_ids s"
    and "win_restorePlacement w = Some rp \<Longrightarrow> rp_desktopId rp = win_desktopId w"
proof -
  from assms(2) have "(wid, w) \<in> set (ses_windows s)" by (rule map_of_SomeD)
  with wf_sessionD(3) [OF assms(1)] have "wf_window (desktop_ids s) (wid, w)"
    by (auto simp: list_all_iff)
  then show "win_id w = wid" and "wid \<noteq> ''''" and "win_desktopId w \<in> desktop_ids s"
    and "win_restorePlacement w = Some rp \<Longrightarrow> rp_desktopId rp = win_desktopId w"
    by (auto simp: wf_window_def)
qed

lemma wf_session_map:
  assumes "wf_session s" and "rec_wf ws" and "list_all (wf_window (desktop_ids s)) ws"
    and "map desk_id ds = map desk_id (ses_desktops s)" and "list_all (wf_desktop ws) ds"
  shows "wf_session (s\<lparr>ses_windows := ws, ses_desktops := ds\<rparr>)"
proof -
  have "desktop_ids (s\<lparr>ses_windows := ws, ses_desktops := ds\<rparr>) = desktop_ids s"
    using assms(4) by (simp add: desktop_ids_alt del: set_map)
  with assms show ?thesis by (simp add: wf_session_def)
qed

text \<open>Replacing the window table and updating one desktop: the other desktops show the same
  windows as before.\<close>

lemma wf_session_update_one:
  assumes wf: "wf_session s"
    and ws: "rec_wf ws" "list_all (wf_window (desktop_ids s)) ws"
    and here: "\<And>d. d \<in> set (ses_desktops s) \<Longrightarrow> desk_id d = did \<Longrightarrow>
        desk_ok (set (shown_ids ws did Float)) (set (shown_ids ws did Tile)) (f d) \<and>
        desk_id (f d) = did"
    and elsewhere: "\<And>e m. e \<in> desktop_ids s \<Longrightarrow> e \<noteq> did \<Longrightarrow>
        set (shown_ids ws e m) = set (shown_ids (ses_windows s) e m)"
  shows "wf_session (updateDesktop (s\<lparr>ses_windows := ws\<rparr>) did f)"
proof -
  let ?g = "\<lambda>d. if desk_id d = did then f d else d"
  have ids: "\<And>d. d \<in> set (ses_desktops s) \<Longrightarrow> desk_id (?g d) = desk_id d"
    using here by auto
  have idl: "map desk_id (map ?g (ses_desktops s)) = map desk_id (ses_desktops s)"
    using ids by simp
  have "wf_desktop ws (?g d)" if d: "d \<in> set (ses_desktops s)" for d
  proof (cases "desk_id d = did")
    case True
    with here [OF d] show ?thesis by (simp add: wf_desktop_def)
  next
    case False
    with d have "desk_id d \<in> desktop_ids s" by (simp add: desktop_ids_def)
    with False wf_sessionD(4) [OF wf d] elsewhere [of "desk_id d"] show ?thesis
      by (simp add: wf_desktop_def)
  qed
  then have "list_all (wf_desktop ws) (map ?g (ses_desktops s))"
    unfolding list.pred_map by (simp add: list_all_iff)
  from wf_session_map [OF wf ws idl this] show ?thesis by (simp add: updateDesktop_def)
qed

text \<open>The same with one window assigned.\<close>

lemma wf_session_set_one:
  assumes wf: "wf_session s"
    and w': "wf_window (desktop_ids s) (wid, w')"
    and old: "\<And>e m. e \<in> desktop_ids s \<Longrightarrow> e \<noteq> did \<Longrightarrow> wid \<notin> set (shown_ids (ses_windows s) e m)"
    and new: "win_minimized w' \<or> win_desktopId w' = did"
    and here: "\<And>d. d \<in> set (ses_desktops s) \<Longrightarrow> desk_id d = did \<Longrightarrow>
        desk_ok (set (shown_ids (ses_windows s) did Float)) (set (shown_ids (ses_windows s) did Tile)) d \<Longrightarrow>
        desk_ok (set (shown_ids (rec_set wid w' (ses_windows s)) did Float))
          (set (shown_ids (rec_set wid w' (ses_windows s)) did Tile)) (f d) \<and> desk_id (f d) = did"
  shows "wf_session (updateDesktop (set_window wid w' s) did f)"
  unfolding set_window_def
proof (rule wf_session_update_one [OF wf])
  show "rec_wf (rec_set wid w' (ses_windows s))"
    using wf_sessionD(2) [OF wf] by (rule rec_wf_set)
  show "list_all (wf_window (desktop_ids s)) (rec_set wid w' (ses_windows s))"
    using wf_sessionD(3) [OF wf] w' by (rule windows_ok_set)
  show "desk_ok (set (shown_ids (rec_set wid w' (ses_windows s)) did Float))
      (set (shown_ids (rec_set wid w' (ses_windows s)) did Tile)) (f d) \<and> desk_id (f d) = did"
    if "d \<in> set (ses_desktops s)" "desk_id d = did" for d
    using here [OF that] wf_sessionD(4) [OF wf that(1)] that(2) by (simp add: wf_desktop_def)
  show "set (shown_ids (rec_set wid w' (ses_windows s)) e m) = set (shown_ids (ses_windows s) e m)"
    if "e \<in> desktop_ids s" "e \<noteq> did" for e m
    using old [OF that] new that(2) by (auto simp: shown_ids_set [OF wf_sessionD(2) [OF wf]])
qed

section \<open>Preservation, operation by operation\<close>

lemma wf_createDefaultOsSession: "wf_session (createDefaultOsSession did name)"
  by (simp add: wf_session_def createDefaultOsSession_def desktop_ids_def wf_desktop_def
      desk_ok_def shown_ids_def tree_ids_def)

lemma findDesktop_Some:
  "findDesktop s did = Some d \<Longrightarrow> d \<in> set (ses_desktops s) \<and> desk_id d = did"
  by (auto simp: findDesktop_def dest: find_Some_in)

lemma findDesktop_None_iff: "findDesktop s did = None \<longleftrightarrow> did \<notin> desktop_ids s"
  by (auto simp: findDesktop_def find_None_iff' desktop_ids_def)

lemma not_shown_elsewhere:
  assumes "wf_session s" and "get_window s wid = Some w" and "e \<noteq> win_desktopId w"
  shows "wid \<notin> set (shown_ids (ses_windows s) e m)"
  using shown_ids_member [OF wf_sessionD(2) [OF assms(1)] assms(2)] assms(3) by simp

text \<open>A new window: its id is not in use and not empty, and it has no stale placement.\<close>

lemma wf_openWindow:
  assumes wf: "wf_session s" and new: "get_window s (win_id cfg) = None" "win_id cfg \<noteq> ''''"
    and rp: "win_restorePlacement cfg = None" and u: "uuid \<noteq> ''''"
  shows "wf_session (openWindow s cfg target vp uuid)"
proof -
  let ?did = "case target of Some i \<Rightarrow> i | None \<Rightarrow> ses_active s"
  show ?thesis
  proof (cases "target_desktop s ?did")
    case None
    with wf show ?thesis by (simp add: openWindow_def)
  next
    case (Some desktop)
    then have din: "desktop \<in> set (ses_desktops s)"
      by (auto simp: target_desktop_def js_first_def split: option.splits list.splits
          dest: findDesktop_Some)
    let ?wid = "win_id cfg"
    define w where "w = cfg\<lparr>win_desktopId := desk_id desktop, win_maximized := False,
        win_minimized := False, win_floatBounds := open_bounds s cfg (desk_id desktop) vp\<rparr>"
    have ww: "wf_window (desktop_ids s) (?wid, w)"
      using din new(2) rp by (simp add: wf_window_def w_def desktop_ids_def)
    have absent: "\<And>e m. ?wid \<notin> set (shown_ids (ses_windows s) e m)"
      using shown_ids_absent [OF wf_sessionD(2) [OF wf] new(1)] .
    have "wf_session (updateDesktop (set_window ?wid w s) (desk_id desktop)
        (place_on_desktop (win_mode w) ?wid uuid))"
    proof (rule wf_session_set_one [OF wf ww])
      show "desk_ok (set (shown_ids (rec_set ?wid w (ses_windows s)) (desk_id desktop) Float))
          (set (shown_ids (rec_set ?wid w (ses_windows s)) (desk_id desktop) Tile))
          (place_on_desktop (win_mode w) ?wid uuid d) \<and>
         desk_id (place_on_desktop (win_mode w) ?wid uuid d) = desk_id desktop"
        if "desk_id d = desk_id desktop"
          "desk_ok (set (shown_ids (ses_windows s) (desk_id desktop) Float))
            (set (shown_ids (ses_windows s) (desk_id desktop) Tile)) d" for d
        using that desk_ok_place [OF that(2) absent u] absent
        by (cases "win_mode w") (auto simp: shown_ids_set [OF wf_sessionD(2) [OF wf]] w_def)
    qed (use absent in \<open>auto simp: w_def\<close>)
    then show ?thesis
      using Some by (simp add: openWindow_def Let_def w_def)
  qed
qed

lemma wf_session_desktop:
  assumes wf: "wf_session s"
    and here: "\<And>F T d. d \<in> set (ses_desktops s) \<Longrightarrow> desk_id d = did \<Longrightarrow> desk_ok F T d \<Longrightarrow>
        F = set (shown_ids (ses_windows s) did Float) \<Longrightarrow>
        T = set (shown_ids (ses_windows s) did Tile) \<Longrightarrow> desk_ok F T (f d) \<and> desk_id (f d) = did"
  shows "wf_session (updateDesktop s did f)"
proof -
  have "wf_session (updateDesktop (s\<lparr>ses_windows := ses_windows s\<rparr>) did f)"
  proof (rule wf_session_update_one [OF wf wf_sessionD(2,3) [OF wf]])
    fix d
    assume d: "d \<in> set (ses_desktops s)" "desk_id d = did"
    with wf_sessionD(4) [OF wf d(1)] show
      "desk_ok (set (shown_ids (ses_windows s) did Float)) (set (shown_ids (ses_windows s) did Tile)) (f d)
       \<and> desk_id (f d) = did"
      using here [OF d _ refl refl] by (simp add: wf_desktop_def)
  qed simp
  then show ?thesis by simp
qed

text \<open>A change of a window that does not touch mode, desktop, minimized flag or restore
  placement.\<close>

lemma wf_session_window_frame:
  assumes wf: "wf_session s" and w: "get_window s wid = Some w"
    and same: "win_id w' = win_id w" "win_mode w' = win_mode w" "win_desktopId w' = win_desktopId w"
      "win_minimized w' = win_minimized w" "win_restorePlacement w' = win_restorePlacement w"
  shows "wf_session (set_window wid w' s)"
proof -
  have "wf_session (updateDesktop (set_window wid w' s) (win_desktopId w) (\<lambda>d. d))"
  proof (rule wf_session_set_one [OF wf])
    show "wf_window (desktop_ids s) (wid, w')"
      using wf_session_window [OF wf w] same by (auto simp: wf_window_def split: option.splits)
    show "wid \<notin> set (shown_ids (ses_windows s) e m)" if "e \<noteq> win_desktopId w" for e m
      using not_shown_elsewhere [OF wf w that] .
    show "win_minimized w' \<or> win_desktopId w' = win_desktopId w" using same by simp
    fix d
    assume d: "desk_id d = win_desktopId w"
      "desk_ok (set (shown_ids (ses_windows s) (win_desktopId w) Float))
        (set (shown_ids (ses_windows s) (win_desktopId w) Tile)) d"
    note mem = shown_ids_member [OF wf_sessionD(2) [OF wf] w]
    have "set (shown_ids (rec_set wid w' (ses_windows s)) (win_desktopId w) m) =
        set (shown_ids (ses_windows s) (win_desktopId w) m)" for m
      using mem [of "win_desktopId w" m] same
      by (auto simp: shown_ids_set [OF wf_sessionD(2) [OF wf]])
    with d show "desk_ok (set (shown_ids (rec_set wid w' (ses_windows s)) (win_desktopId w) Float))
        (set (shown_ids (rec_set wid w' (ses_windows s)) (win_desktopId w) Tile)) d \<and>
        desk_id d = win_desktopId w"
      by simp
  qed
  then show ?thesis by (simp add: updateDesktop_def)
qed

lemma wf_closeWindow:
  assumes wf: "wf_session s"
  shows "wf_session (closeWindow s wid)"
proof (cases "get_window s wid")
  case None
  with wf show ?thesis by (simp add: closeWindow_def)
next
  case (Some w)
  let ?ws = "rec_del wid (ses_windows s)"
  from wf_session_window(3) [OF wf Some] obtain desktop where
    dk: "findDesktop s (win_desktopId w) = Some desktop" and did: "desk_id desktop = win_desktopId w"
    by (cases "findDesktop s (win_desktopId w)") (auto simp: findDesktop_None_iff dest: findDesktop_Some)
  note del = shown_ids_del [OF wf_sessionD(2) [OF wf], of wid]
  have "wf_session (updateDesktop (s\<lparr>ses_windows := ?ws\<rparr>) (win_desktopId w)
      (\<lambda>d. d\<lparr>desk_floating := without wid (desk_floating d),
             desk_tree := removeWindowFromDesktopTree (desk_tree d) wid,
             desk_focused := pickNextFocus d wid ?ws\<rparr>))"
  proof (rule wf_session_update_one [OF wf])
    show "rec_wf ?ws" using wf_sessionD(2) [OF wf] by (rule rec_wf_del)
    show "list_all (wf_window (desktop_ids s)) ?ws"
      using wf_sessionD(3) [OF wf] by (rule windows_ok_del)
    show "set (shown_ids ?ws e m) = set (shown_ids (ses_windows s) e m)"
      if "e \<noteq> win_desktopId w" for e m
      using not_shown_elsewhere [OF wf Some that] by (simp add: del)
    fix d
    assume d: "d \<in> set (ses_desktops s)" "desk_id d = win_desktopId w"
    from wf_sessionD(4) [OF wf d(1)] d(2)
    have ok: "desk_ok (set (shown_ids (ses_windows s) (win_desktopId w) Float))
        (set (shown_ids (ses_windows s) (win_desktopId w) Tile)) d" by (simp add: wf_desktop_def)
    from desk_ok_remove [OF ok pickNextFocus_shown [OF ok]] d(2)
    show "desk_ok (set (shown_ids ?ws (win_desktopId w) Float))
        (set (shown_ids ?ws (win_desktopId w) Tile))
        (d\<lparr>desk_floating := without wid (desk_floating d),
             desk_tree := removeWindowFromDesktopTree (desk_tree d) wid,
             desk_focused := pickNextFocus d wid ?ws\<rparr>) \<and>
        desk_id (d\<lparr>desk_floating := without wid (desk_floating d),
             desk_tree := removeWindowFromDesktopTree (desk_tree d) wid,
             desk_focused := pickNextFocus d wid ?ws\<rparr>) = win_desktopId w"
      by (simp add: del)
  qed
  then show ?thesis using Some dk did by (simp add: closeWindow_def Let_def)
qed

lemma wf_switchDesktop: "wf_session s \<Longrightarrow> wf_session (switchDesktop s did)"
  by (auto simp: switchDesktop_def wf_session_def desktop_ids_def findDesktop_None_iff
      dest: findDesktop_Some)

lemma activate_in_tree_wf:
  assumes "opt_wf tree"
  shows "opt_wf (activate_in_tree tree wid)"
    and "set (opt_items (activate_in_tree tree wid)) = set (opt_items tree)"
proof -
  have "opt_wf (activate_in_tree tree wid) \<and>
      set (opt_items (activate_in_tree tree wid)) = set (opt_items tree)"
  proof (cases tree)
    case (Some t)
    with assms have wf: "wf_tile t" by simp
    show ?thesis
    proof (cases "findTilePaneContaining t (\<lambda>i. i = wid)")
      case None
      with Some wf show ?thesis by (simp add: activate_in_tree_def)
    next
      case p: (Some p)
      then have "p \<in> set (collectTilePanes t)" "wid \<in> set (items p)"
        by (simp_all add: findTilePaneContaining_iff [OF wf])
      from wf_tile_setActive [OF wf this(1) refl this(2)] p Some wf show ?thesis
        by (simp add: activate_in_tree_def)
    qed
  qed (simp add: activate_in_tree_def)
  then show "opt_wf (activate_in_tree tree wid)"
    and "set (opt_items (activate_in_tree tree wid)) = set (opt_items tree)" by auto
qed

lemma desk_ok_focus:
  assumes "desk_ok F T d" and "wid \<in> F \<or> wid \<in> T" and "fl \<longleftrightarrow> wid \<in> set (desk_floating d)"
  shows "desk_ok F T (d\<lparr>desk_tree := activate_in_tree (desk_tree d) wid,
    desk_floating := (if fl then without wid (desk_floating d) @ [wid] else desk_floating d),
    desk_focused := Some wid\<rparr>)"
  using assms activate_in_tree_wf [of "desk_tree d" wid]
  by (auto simp: desk_ok_def tree_ids_def split: option.splits)

text \<open>A window that is not minimized is shown on its desktop.\<close>

lemma window_shown:
  assumes wf: "wf_session s" and w: "get_window s wid = Some w" "\<not> win_minimized w"
  shows "wid \<in> set (shown_ids (ses_windows s) (win_desktopId w) (win_mode w))"
  using shown_ids_member [OF wf_sessionD(2) [OF wf] w(1)] w(2) by simp

lemma desktop_unique:
  assumes "wf_session s" and "findDesktop s did = Some c"
    and "d \<in> set (ses_desktops s)" and "desk_id d = did"
  shows "d = c"
  using distinct_map_eqD [OF wf_sessionD(1) [OF assms(1)] assms(3)] findDesktop_Some [OF assms(2)]
    assms(4) by simp

lemma wf_focusWindow:
  assumes wf: "wf_session s" and nm: "\<And>w. get_window s wid = Some w \<Longrightarrow> \<not> win_minimized w"
  shows "wf_session (focusWindow s wid)"
proof (cases "get_window s wid")
  case None
  with wf show ?thesis by (simp add: focusWindow_def)
next
  case (Some w)
  show ?thesis
  proof (cases "findDesktop s (win_desktopId w)")
    case None
    with Some wf show ?thesis by (simp add: focusWindow_def)
  next
    case c: (Some c)
    have "wf_session (updateDesktop s (win_desktopId w)
        (\<lambda>d. d\<lparr>desk_tree := activate_in_tree (desk_tree d) wid,
           desk_floating := (if wid \<in> set (desk_floating c) then without wid (desk_floating d) @ [wid]
                             else desk_floating d),
           desk_focused := Some wid\<rparr>))"
    proof (rule wf_session_desktop [OF wf], rule conjI)
      fix F T d
      assume d: "d \<in> set (ses_desktops s)" "desk_id d = win_desktopId w" "desk_ok F T d"
        "F = set (shown_ids (ses_windows s) (win_desktopId w) Float)"
        "T = set (shown_ids (ses_windows s) (win_desktopId w) Tile)"
      have "wid \<in> F \<or> wid \<in> T"
        using window_shown [OF wf Some nm [OF Some]] d(4,5) by (cases "win_mode w") auto
      moreover have "d = c" by (rule desktop_unique [OF wf c d(1,2)])
      ultimately show "desk_ok F T (d\<lparr>desk_tree := activate_in_tree (desk_tree d) wid,
           desk_floating := (if wid \<in> set (desk_floating c) then without wid (desk_floating d) @ [wid]
                             else desk_floating d),
           desk_focused := Some wid\<rparr>)"
        using desk_ok_focus [OF d(3)] by simp
    qed simp
    with Some c wf show ?thesis by (simp add: focusWindow_def Let_def)
  qed
qed

subsection \<open>Moves between desktops\<close>

lemma wf_session_gen:
  assumes wf: "wf_session s" and ws: "rec_wf ws" "list_all (wf_window (desktop_ids s)) ws"
    and g: "\<And>d. d \<in> set (ses_desktops s) \<Longrightarrow>
        desk_ok (set (shown_ids (ses_windows s) (desk_id d) Float))
          (set (shown_ids (ses_windows s) (desk_id d) Tile)) d \<Longrightarrow>
        desk_ok (set (shown_ids ws (desk_id d) Float)) (set (shown_ids ws (desk_id d) Tile)) (g d) \<and>
        desk_id (g d) = desk_id d"
  shows "wf_session (s\<lparr>ses_windows := ws, ses_desktops := map g (ses_desktops s)\<rparr>)"
proof (rule wf_session_map [OF wf ws])
  have g': "desk_ok (set (shown_ids ws (desk_id d) Float)) (set (shown_ids ws (desk_id d) Tile)) (g d) \<and>
        desk_id (g d) = desk_id d" if "d \<in> set (ses_desktops s)" for d
    using g [OF that] wf_sessionD(4) [OF wf that] by (simp add: wf_desktop_def)
  then show "map desk_id (map g (ses_desktops s)) = map desk_id (ses_desktops s)" by simp
  show "list_all (wf_desktop ws) (map g (ses_desktops s))"
    unfolding list.pred_map using g' by (simp add: list_all_iff wf_desktop_def)
qed

definition off_desktop :: "string \<Rightarrow> os_desktop \<Rightarrow> os_desktop" where
  "off_desktop wid d =
     d\<lparr>desk_floating := without wid (desk_floating d),
       desk_tree := removeWindowFromDesktopTree (desk_tree d) wid,
       desk_focused := (if desk_focused d = Some wid then None else desk_focused d)\<rparr>"

lemma desk_ok_off:
  assumes "desk_ok F T d" shows "desk_ok (F - {wid}) (T - {wid}) (off_desktop wid d)"
  unfolding off_desktop_def
  by (rule desk_ok_remove [OF assms]) (use assms in \<open>auto simp: desk_ok_def split: if_splits\<close>)

lemma desk_id_off [simp]: "desk_id (off_desktop wid d) = desk_id d"
  by (simp add: off_desktop_def)

definition append_on_desktop :: "window_mode \<Rightarrow> string \<Rightarrow> string \<Rightarrow> os_desktop \<Rightarrow> os_desktop" where
  "append_on_desktop m wid uuid d =
     (if m = Float then d\<lparr>desk_floating := desk_floating d @ [wid], desk_focused := Some wid\<rparr>
      else d\<lparr>desk_tree := Some (place_in_tree (desk_tree d) wid uuid), desk_focused := Some wid\<rparr>)"

lemma append_on_desktop_eq:
  assumes "desk_ok F T d" and "wid \<notin> F"
  shows "append_on_desktop m wid uuid d = place_on_desktop m wid uuid d"
  using assms by (simp add: append_on_desktop_def place_on_desktop_def desk_ok_def without_def filter_neq_id)

lemma desk_id_append [simp]: "desk_id (append_on_desktop m wid uuid d) = desk_id d"
  by (simp add: append_on_desktop_def)

lemma moveWindowToDesktop_eq:
  assumes "get_window s wid = Some w" and "win_desktopId w \<noteq> tgt" and "findDesktop s tgt \<noteq> None"
  defines "w' \<equiv> w\<lparr>win_desktopId := tgt,
      win_restorePlacement := map_option (\<lambda>rp. rp\<lparr>rp_desktopId := tgt\<rparr>) (win_restorePlacement w)\<rparr>"
  shows "moveWindowToDesktop s wid tgt uuid =
    s\<lparr>ses_windows := rec_set wid w' (ses_windows s),
      ses_desktops := map (\<lambda>d. if desk_id d = win_desktopId w then off_desktop wid d
                               else if desk_id d = tgt \<and> \<not> win_minimized w
                               then append_on_desktop (win_mode w) wid uuid d else d)
                        (ses_desktops s)\<rparr>"
  using assms
  by (auto simp: moveWindowToDesktop_def Let_def updateDesktop_def set_window_def off_desktop_def
      append_on_desktop_def)

lemma wf_moveWindowToDesktop:
  assumes wf: "wf_session s" and u: "uuid \<noteq> ''''"
  shows "wf_session (moveWindowToDesktop s wid tgt uuid)"
proof (cases "\<exists>w. get_window s wid = Some w \<and> win_desktopId w \<noteq> tgt \<and> findDesktop s tgt \<noteq> None")
  case False
  with wf show ?thesis by (cases "get_window s wid") (auto simp: moveWindowToDesktop_def)
next
  case True
  then obtain w where w: "get_window s wid = Some w" "win_desktopId w \<noteq> tgt"
    and t: "findDesktop s tgt \<noteq> None" by auto
  define w' where "w' = w\<lparr>win_desktopId := tgt,
      win_restorePlacement := map_option (\<lambda>rp. rp\<lparr>rp_desktopId := tgt\<rparr>) (win_restorePlacement w)\<rparr>"
  have tid: "tgt \<in> desktop_ids s" using t findDesktop_None_iff [of s tgt] by metis
  have ww: "wf_window (desktop_ids s) (wid, w')"
    using wf_session_window [OF wf w(1)] tid by (auto simp: wf_window_def w'_def split: option.splits)
  note ws = rec_wf_set [OF wf_sessionD(2) [OF wf]] windows_ok_set [OF wf_sessionD(3) [OF wf] ww]
  note mem = shown_ids_member [OF wf_sessionD(2) [OF wf] w(1)]
  note shown = shown_ids_set [OF wf_sessionD(2) [OF wf]]
  show ?thesis
    unfolding moveWindowToDesktop_eq [OF w t, folded w'_def]
  proof (rule wf_session_gen [OF wf ws])
    fix d
    assume ok: "desk_ok (set (shown_ids (ses_windows s) (desk_id d) Float))
        (set (shown_ids (ses_windows s) (desk_id d) Tile)) d"
    consider (src) "desk_id d = win_desktopId w" | (tgt) "desk_id d = tgt" "\<not> win_minimized w"
      | (other) "desk_id d \<noteq> win_desktopId w" "desk_id d = tgt \<longrightarrow> win_minimized w" by blast
    then show "desk_ok (set (shown_ids (rec_set wid w' (ses_windows s)) (desk_id d) Float))
        (set (shown_ids (rec_set wid w' (ses_windows s)) (desk_id d) Tile))
        (if desk_id d = win_desktopId w then off_desktop wid d
         else if desk_id d = tgt \<and> \<not> win_minimized w then append_on_desktop (win_mode w) wid uuid d else d)
      \<and> desk_id (if desk_id d = win_desktopId w then off_desktop wid d
         else if desk_id d = tgt \<and> \<not> win_minimized w then append_on_desktop (win_mode w) wid uuid d else d)
        = desk_id d"
    proof cases
      case src
      with ok w(2) desk_ok_off [OF ok, of wid] show ?thesis by (simp add: shown w'_def)
    next
      case tgt
      have nF: "wid \<notin> set (shown_ids (ses_windows s) (desk_id d) Float)"
        and nT: "wid \<notin> set (shown_ids (ses_windows s) (desk_id d) Tile)"
        using mem w(2) tgt(1) by auto
      from tgt w(2) nF nT desk_ok_place [OF ok nT u] show ?thesis
        by (cases "win_mode w") (simp_all add: shown w'_def append_on_desktop_eq [OF ok nF])
    next
      case other
      with ok mem show ?thesis by (auto simp: shown w'_def)
    qed
  qed
qed

subsection \<open>Modes, minimizing, restoring\<close>

text \<open>Both mode operations assign a window in the other mode and move it on its desktop. They
  keep the invariant for a window that is shown; on a minimized window they do not (the
  root theory has the counterexample).\<close>

lemma wf_apply_mode:
  assumes wf: "wf_session s" and w: "get_window s wid = Some w" "\<not> win_minimized w"
    and m: "m \<noteq> win_mode w" and u: "uuid \<noteq> ''''"
  shows "wf_session (updateDesktop (set_window wid (window_in_mode s w m vp) s) (win_desktopId w)
           (apply_mode m wid uuid))"
proof (rule wf_session_set_one [OF wf])
  let ?w' = "window_in_mode s w m vp"
  have w': "win_id ?w' = win_id w" "win_mode ?w' = m" "win_desktopId ?w' = win_desktopId w"
    "win_minimized ?w' = win_minimized w" "win_restorePlacement ?w' = win_restorePlacement w"
    by (simp_all add: window_in_mode_def)
  show "wf_window (desktop_ids s) (wid, ?w')"
    using wf_session_window [OF wf w(1)] w' by (auto simp: wf_window_def split: option.splits)
  show "wid \<notin> set (shown_ids (ses_windows s) e m')" if "e \<noteq> win_desktopId w" for e m'
    using not_shown_elsewhere [OF wf w(1) that] .
  show "win_minimized ?w' \<or> win_desktopId ?w' = win_desktopId w" using w' by simp
  fix d
  assume d: "desk_id d = win_desktopId w"
    "desk_ok (set (shown_ids (ses_windows s) (win_desktopId w) Float))
      (set (shown_ids (ses_windows s) (win_desktopId w) Tile)) d"
  note mem = shown_ids_member [OF wf_sessionD(2) [OF wf] w(1)]
  note shown = shown_ids_set [OF wf_sessionD(2) [OF wf]]
  have "wid \<notin> set (shown_ids (ses_windows s) (win_desktopId w) m)" using mem m by simp
  with d w w' m u desk_ok_apply_mode [OF d(2), of wid uuid]
  show "desk_ok (set (shown_ids (rec_set wid ?w' (ses_windows s)) (win_desktopId w) Float))
      (set (shown_ids (rec_set wid ?w' (ses_windows s)) (win_desktopId w) Tile))
      (apply_mode m wid uuid d) \<and> desk_id (apply_mode m wid uuid d) = win_desktopId w"
    by (cases m) (simp_all add: shown)
qed

lemma wf_setWindowMode:
  assumes "wf_session s" and "\<And>w. get_window s wid = Some w \<Longrightarrow> \<not> win_minimized w" and "uuid \<noteq> ''''"
  shows "wf_session (setWindowMode s wid m vp uuid)"
  using assms wf_apply_mode [OF assms(1) _ _ _ assms(3)]
  by (auto simp: setWindowMode_def split: option.splits)

lemma wf_toggleWindowMode:
  assumes "wf_session s" and "\<And>w. get_window s wid = Some w \<Longrightarrow> \<not> win_minimized w" and "uuid \<noteq> ''''"
  shows "wf_session (toggleWindowMode s wid vp uuid)"
  using assms wf_apply_mode [OF assms(1) _ _ _ assms(3)]
  by (auto simp: toggleWindowMode_def Let_def split: option.splits)

lemma wf_minimizeWindow:
  assumes wf: "wf_session s"
  shows "wf_session (minimizeWindow s wid)"
proof (cases "get_window s wid")
  case None
  with wf show ?thesis by (simp add: minimizeWindow_def)
next
  case (Some w)
  show ?thesis
  proof (cases "win_minimized w")
    case True
    with Some wf show ?thesis by (simp add: minimizeWindow_def)
  next
    case False
    define w' where "w' = w\<lparr>win_minimized := True,
        win_restorePlacement := Some \<lparr>rp_mode = win_mode w, rp_desktopId = win_desktopId w,
          rp_floatBounds = win_floatBounds w\<rparr>\<rparr>"
    let ?ws = "rec_set wid w' (ses_windows s)"
    have "wf_session (updateDesktop (set_window wid w' s) (win_desktopId w)
        (\<lambda>d. d\<lparr>desk_floating := without wid (desk_floating d),
               desk_tree := removeWindowFromDesktopTree (desk_tree d) wid,
               desk_focused := pickNextFocus d wid ?ws\<rparr>))"
    proof (rule wf_session_set_one [OF wf])
      show "wf_window (desktop_ids s) (wid, w')"
        using wf_session_window [OF wf Some] by (simp add: wf_window_def w'_def)
      show "wid \<notin> set (shown_ids (ses_windows s) e m)" if "e \<noteq> win_desktopId w" for e m
        using not_shown_elsewhere [OF wf Some that] .
      show "win_minimized w' \<or> win_desktopId w' = win_desktopId w" by (simp add: w'_def)
      fix d
      assume d: "desk_id d = win_desktopId w"
        "desk_ok (set (shown_ids (ses_windows s) (win_desktopId w) Float))
          (set (shown_ids (ses_windows s) (win_desktopId w) Tile)) d"
      from d desk_ok_remove [OF d(2) pickNextFocus_shown [OF d(2), of wid ?ws]]
      show "desk_ok (set (shown_ids ?ws (win_desktopId w) Float)) (set (shown_ids ?ws (win_desktopId w) Tile))
          (d\<lparr>desk_floating := without wid (desk_floating d),
             desk_tree := removeWindowFromDesktopTree (desk_tree d) wid,
             desk_focused := pickNextFocus d wid ?ws\<rparr>) \<and>
          desk_id (d\<lparr>desk_floating := without wid (desk_floating d),
             desk_tree := removeWindowFromDesktopTree (desk_tree d) wid,
             desk_focused := pickNextFocus d wid ?ws\<rparr>) = win_desktopId w"
        by (simp add: shown_ids_set [OF wf_sessionD(2) [OF wf]] w'_def)
    qed
    with Some False show ?thesis by (simp add: minimizeWindow_def Let_def w'_def set_window_def)
  qed
qed

text \<open>\<open>restoreWindow\<close> looks for the window in the tree first; a minimized window is not there.\<close>

lemma restore_on_desktop_eq:
  assumes "desk_ok F T d" and "wid \<notin> T"
  shows "restore_on_desktop m wid uuid d = place_on_desktop m wid uuid d"
  using assms
  by (auto simp: restore_on_desktop_def place_on_desktop_def desk_ok_def tree_ids_def
      findTilePaneContaining_None_iff split: option.splits)

lemma restoreWindow_minimized:
  assumes "get_window s wid = Some w" and "win_minimized w"
  shows "restoreWindow s wid uuid =
    updateDesktop (set_window wid (restored_window w) s) (win_desktopId (restored_window w))
      (restore_on_desktop (win_mode (restored_window w)) wid uuid)"
  using assms
  by (cases "win_restorePlacement w")
     (simp_all add: restoreWindow_def restored_window_def restore_on_desktop_def Let_def)

lemma restored_window_desktop:
  assumes "wf_session s" and "get_window s wid = Some w"
  shows "win_desktopId (restored_window w) = win_desktopId w"
  using wf_session_window(4) [OF assms]
  by (cases "win_restorePlacement w") (auto simp: restored_window_def)

lemma wf_restoreWindow:
  assumes wf: "wf_session s" and u: "uuid \<noteq> ''''"
  shows "wf_session (restoreWindow s wid uuid)"
proof (cases "get_window s wid")
  case None
  with wf show ?thesis by (simp add: restoreWindow_def)
next
  case (Some w)
  show ?thesis
  proof (cases "win_minimized w")
    case False
    with Some wf wf_session_window_frame [OF wf Some, of "w\<lparr>win_maximized := False\<rparr>"]
    show ?thesis by (simp add: restoreWindow_def)
  next
    case True
    let ?w' = "restored_window w" let ?did = "win_desktopId w"
    note did = restored_window_desktop [OF wf Some]
    have w': "win_id ?w' = win_id w" "\<not> win_minimized ?w'" "win_restorePlacement ?w' = None"
      by (simp_all add: restored_window_def Let_def)
    have absent: "\<And>e m. wid \<notin> set (shown_ids (ses_windows s) e m)"
      using shown_ids_member [OF wf_sessionD(2) [OF wf] Some] True by simp
    have "wf_session (updateDesktop (set_window wid ?w' s) ?did
        (restore_on_desktop (win_mode ?w') wid uuid))"
    proof (rule wf_session_set_one [OF wf])
      show "wf_window (desktop_ids s) (wid, ?w')"
        using wf_session_window [OF wf Some] w' did by (simp add: wf_window_def)
      fix d
      assume d: "desk_id d = ?did" "desk_ok (set (shown_ids (ses_windows s) ?did Float))
          (set (shown_ids (ses_windows s) ?did Tile)) d"
      show "desk_ok (set (shown_ids (rec_set wid ?w' (ses_windows s)) ?did Float))
          (set (shown_ids (rec_set wid ?w' (ses_windows s)) ?did Tile))
          (restore_on_desktop (win_mode ?w') wid uuid d) \<and>
         desk_id (restore_on_desktop (win_mode ?w') wid uuid d) = ?did"
        unfolding restore_on_desktop_eq [OF d(2) absent]
        using d did w' absent desk_ok_place [OF d(2) absent u]
        by (cases "win_mode ?w'") (simp_all add: shown_ids_set [OF wf_sessionD(2) [OF wf]])
    qed (use absent did in auto)
    then show ?thesis unfolding restoreWindow_minimized [OF Some True] did .
  qed
qed

lemma get_window_restoreWindow:
  assumes "get_window s wid = Some w"
  shows "\<exists>w'. get_window (restoreWindow s wid uuid) wid = Some w' \<and> \<not> win_minimized w'"
proof (cases "win_minimized w")
  case True
  then show ?thesis
    unfolding restoreWindow_minimized [OF assms True]
    by (simp add: updateDesktop_def set_window_def rec_get_set restored_window_def Let_def)
next
  case False
  with assms show ?thesis by (simp add: restoreWindow_def set_window_def rec_get_set)
qed

lemma wf_maximizeWindow:
  assumes wf: "wf_session s" and u: "uuid \<noteq> ''''"
  shows "wf_session (maximizeWindow s wid uuid)"
proof (cases "get_window s wid")
  case None
  with wf show ?thesis by (simp add: maximizeWindow_def)
next
  case (Some w)
  define s1 where "s1 = (if win_minimized w then restoreWindow s wid uuid else s)"
  have wf1: "wf_session s1" using wf wf_restoreWindow [OF wf u] by (simp add: s1_def)
  show ?thesis
  proof (cases "get_window s1 wid")
    case None
    with Some wf wf1 show ?thesis by (auto simp: maximizeWindow_def Let_def s1_def)
  next
    case c: (Some c)
    with Some wf wf_session_window_frame [OF wf1 c, of "c\<lparr>win_maximized := True\<rparr>"]
    show ?thesis by (auto simp: maximizeWindow_def Let_def s1_def)
  qed
qed

lemma wf_toggleMaximizeWindow:
  "wf_session s \<Longrightarrow> uuid \<noteq> '''' \<Longrightarrow> wf_session (toggleMaximizeWindow s wid uuid)"
  by (auto simp: toggleMaximizeWindow_def wf_restoreWindow wf_maximizeWindow split: option.splits)

lemma get_window_switchDesktop [simp]: "get_window (switchDesktop s did) wid = get_window s wid"
  by (simp add: switchDesktop_def)

lemma wf_revealWindow:
  assumes wf: "wf_session s" and u: "uuid \<noteq> ''''"
  shows "wf_session (revealWindow s wid uuid)"
proof (cases "get_window s wid")
  case None
  with wf show ?thesis by (simp add: revealWindow_def)
next
  case (Some w)
  define s1 where "s1 = (if win_minimized w then restoreWindow s wid uuid else s)"
  have wf1: "wf_session s1" using wf wf_restoreWindow [OF wf u] by (simp add: s1_def)
  have nm: "\<And>v. get_window s1 wid = Some v \<Longrightarrow> \<not> win_minimized v"
    using get_window_restoreWindow [OF Some, of uuid] Some by (auto simp: s1_def split: if_splits)
  have "wf_session (focusWindow (switchDesktop s1 did) wid)" for did
    by (rule wf_focusWindow [OF wf_switchDesktop [OF wf1]]) (use nm in simp)
  with Some show ?thesis by (simp add: revealWindow_def Let_def s1_def)
qed

lemma wf_updateFloatBounds: "wf_session s \<Longrightarrow> wf_session (updateFloatBounds s wid b vp)"
  using wf_session_window_frame [of s wid]
  by (auto simp: updateFloatBounds_def split: option.splits)

end
