(* ===== verification/Desktop_Inv.thy ===== *)
theory Desktop_Inv
  imports Session_Inv
begin

text \<open>
  Preservation of the placement invariant by the operations that touch several desktops
  (\<^verbatim>\<open>presentWindowAsFloat\<close>, \<^verbatim>\<open>dockWindowInDesktopTree\<close>, \<^verbatim>\<open>removeDesktop\<close>) or only the
  desktop itself (names, sizes, stacking order and tabs), and what \<^verbatim>\<open>removeDesktop\<close> does with
  the windows of the removed desktop.
\<close>

section \<open>Desktops, stacking order and tabs\<close>

lemma wf_renameDesktop: "wf_session s \<Longrightarrow> wf_session (renameDesktop s did name)"
  using wf_session_desktop [of s did "\<lambda>d. d\<lparr>desk_name := js_trim name\<rparr>"]
  by (simp add: renameDesktop_def Let_def desk_ok_def tree_ids_def)

lemma wf_setDefaultCtx: "wf_session s \<Longrightarrow> wf_session (setDefaultCtx s did ctx)"
  using wf_session_desktop [of s did "\<lambda>d. d\<lparr>desk_defaultCtx := ctx\<rparr>"]
  by (simp add: setDefaultCtx_def desk_ok_def tree_ids_def)

lemma tree_items_updateTileSizes [simp]: "tree_items (updateTileSizes t nid szs) = tree_items t"
  by (simp add: tree_items_def updateTileSizes_frame)

lemma wf_updateDesktopTreeSizes:
  assumes "wf_session s" and "fst szs > 0" and "snd szs > 0"
  shows "wf_session (updateDesktopTreeSizes s did nid szs)"
  unfolding updateDesktopTreeSizes_def
  by (rule wf_session_desktop [OF assms(1)])
     (use assms(2,3) in \<open>auto simp: desk_ok_def tree_ids_def wf_tile_updateTileSizes split: option.splits\<close>)

definition new_desktop_id :: "os_session \<Rightarrow> nat \<Rightarrow> string" where
  "new_desktop_id s now = ''desktop-'' @ nat_dec now @ ''-'' @ nat_dec (length (ses_desktops s) + 1)"

lemma wf_add_desktop:
  assumes wf: "wf_session s" and d: "desk_id d \<notin> desktop_ids s"
    and e: "desk_tree d = None" "desk_floating d = []" "desk_focused d = None"
  shows "wf_session (s\<lparr>ses_desktops := ses_desktops s @ [d]\<rparr>)"
proof -
  have "wf_desktop (ses_windows s) d"
  proof -
    have "shown_ids (ses_windows s) (desk_id d) m = []" for m
      using wf_sessionD(3) [OF wf] d
      by (auto simp: shown_ids_def filter_empty_conv list_all_iff wf_window_def)
    with e show ?thesis by (simp add: wf_desktop_def desk_ok_def tree_ids_def)
  qed
  moreover have "wf_window (desktop_ids s) kw \<Longrightarrow>
      wf_window (desktop_ids (s\<lparr>ses_desktops := ses_desktops s @ [d]\<rparr>)) kw" for kw
    by (auto simp: wf_window_def desktop_ids_def split: option.splits)
  ultimately show ?thesis
    using wf d by (auto simp: wf_session_def list_all_iff desktop_ids_def)
qed

lemma wf_addDesktop:
  "wf_session s \<Longrightarrow> new_desktop_id s now \<notin> desktop_ids s \<Longrightarrow> wf_session (addDesktop s name ctx now)"
  unfolding addDesktop_def Let_def by (rule wf_add_desktop) (simp_all add: new_desktop_id_def)

lemma wf_bringWindowToFront:
  assumes wf: "wf_session s" and nm: "\<And>w. get_window s wid = Some w \<Longrightarrow> \<not> win_minimized w"
  shows "wf_session (bringWindowToFront s wid)"
proof (cases "\<exists>w. get_window s wid = Some w \<and> win_mode w = Float")
  case True
  then obtain w where w: "get_window s wid = Some w" "win_mode w = Float" by blast
  have "wf_session (updateDesktop s (win_desktopId w)
      (\<lambda>d. d\<lparr>desk_floating := without wid (desk_floating d) @ [wid], desk_focused := Some wid\<rparr>))"
  proof (rule wf_session_desktop [OF wf])
    fix F T d
    assume "desk_ok F T d" "desk_id d = win_desktopId w"
      and F: "F = set (shown_ids (ses_windows s) (win_desktopId w) Float)"
    moreover have "wid \<in> F" using window_shown [OF wf w(1) nm [OF w(1)]] w(2) F by simp
    ultimately show "desk_ok F T (d\<lparr>desk_floating := without wid (desk_floating d) @ [wid],
          desk_focused := Some wid\<rparr>) \<and>
        desk_id (d\<lparr>desk_floating := without wid (desk_floating d) @ [wid],
          desk_focused := Some wid\<rparr>) = win_desktopId w"
      using desk_ok_float [of F T d wid] by (simp add: insert_absorb)
  qed
  with w show ?thesis by (simp add: bringWindowToFront_def)
qed (use wf in \<open>auto simp: bringWindowToFront_def split: option.splits\<close>)

lemma wf_sendWindowToBack:
  assumes wf: "wf_session s" and nm: "\<And>w. get_window s wid = Some w \<Longrightarrow> \<not> win_minimized w"
  shows "wf_session (sendWindowToBack s wid)"
proof (cases "\<exists>w. get_window s wid = Some w \<and> win_mode w = Float")
  case True
  then obtain w where w: "get_window s wid = Some w" "win_mode w = Float" by blast
  have "wf_session (updateDesktop s (win_desktopId w)
      (\<lambda>d. d\<lparr>desk_floating := wid # without wid (desk_floating d)\<rparr>))"
    by (rule wf_session_desktop [OF wf])
       (use window_shown [OF wf w(1) nm [OF w(1)]] w(2) in \<open>auto simp: desk_ok_def tree_ids_def without_def\<close>)
  with w show ?thesis by (simp add: sendWindowToBack_def)
qed (use wf in \<open>auto simp: sendWindowToBack_def split: option.splits\<close>)

lemma in_pane_in_tree:
  "findTilePaneById t pid = Some p \<Longrightarrow> x \<in> set (items p) \<Longrightarrow> x \<in> set (tree_items t)"
  by (auto simp: tree_items_def dest: findTilePaneById_Some)

lemma desk_ok_select:
  assumes ok: "desk_ok F T d" and t: "desk_tree d = Some t"
    and p: "findTilePaneById t pid = Some p" "wid \<in> set (items p)"
  shows "desk_ok F T (d\<lparr>desk_tree := Some (updateTilePane t pid (\<lambda>p. p\<lparr>active := Some wid\<rparr>)),
    desk_focused := Some wid\<rparr>)"
proof -
  from findTilePaneById_Some [OF p(1)] have q: "p \<in> set (collectTilePanes t)" "pane_id p = pid" by auto
  from ok t have wf: "wf_tile t" by (simp add: desk_ok_def)
  from ok t wf_tile_setActive [OF wf q p(2)] in_pane_in_tree [OF p] show ?thesis
    by (simp add: desk_ok_def tree_ids_def)
qed

lemma wf_selectPaneTab: "wf_session s \<Longrightarrow> wf_session (selectPaneTab s pid wid)"
  unfolding selectPaneTab_def
  by (cases "get_window s wid")
     (auto intro!: wf_session_desktop desk_ok_select split: option.split)

lemma wf_moveTabWithinPane:
  assumes wf: "wf_session s"
  shows "wf_session (moveTabWithinPane s pid i j)"
proof -
  have "wf_session (updateDesktop s (desk_id c)
      (\<lambda>d. case desk_tree d of None \<Rightarrow> d
         | Some t \<Rightarrow> d\<lparr>desk_tree := Some (updateTilePane t pid (\<lambda>p. p\<lparr>items := its\<rparr>))\<rparr>))"
    if c: "findDesktop s (ses_active s) = Some c" and t: "desk_tree c = Some t"
      and p: "findTilePaneById t pid = Some p"
      and its: "its = splice_insert (nat j) (items p ! nat i) (splice_remove (nat i) (items p))"
      and i: "nat i < length (items p)"
    for c t p its
  proof (rule wf_session_desktop [OF wf])
    fix F T d
    assume d: "d \<in> set (ses_desktops s)" "desk_id d = desk_id c" and ok: "desk_ok F T d"
    from desktop_unique [OF wf c d(1)] findDesktop_Some [OF c] d(2) have dc: "d = c" by simp
    from findTilePaneById_Some [OF p] have q: "p \<in> set (collectTilePanes t)" "pane_id p = pid" by auto
    from ok t dc have wft: "wf_tile t" by (simp add: desk_ok_def)
    have sp: "set its = set (items p)" "distinct (items p) \<Longrightarrow> distinct its"
      using splice_move [OF i, of "nat j"] its by (auto simp del: set_splice_insert)
    have "its \<noteq> []" using sp(1) i by auto
    then have wp: "wf_pane (p\<lparr>items := its\<rparr>)"
      using wf_tileD(3) [OF wft q(1)] sp by (auto simp: wf_pane_def split: option.splits)
    have sub: "set (items p) \<subseteq> set (tree_items t)" using q(1) by (auto simp: tree_items_def)
    note up = wf_tile_updateTilePane [where f = "\<lambda>p. p\<lparr>items := its\<rparr>", OF wft q _ wp]
    from ok t dc up sp sub show "desk_ok F T
        (case desk_tree d of None \<Rightarrow> d
         | Some t \<Rightarrow> d\<lparr>desk_tree := Some (updateTilePane t pid (\<lambda>p. p\<lparr>items := its\<rparr>))\<rparr>) \<and>
       desk_id (case desk_tree d of None \<Rightarrow> d
         | Some t \<Rightarrow> d\<lparr>desk_tree := Some (updateTilePane t pid (\<lambda>p. p\<lparr>items := its\<rparr>))\<rparr>) = desk_id c"
      by (auto simp: desk_ok_def tree_ids_def)
  qed
  with wf show ?thesis
    by (auto simp: moveTabWithinPane_def Let_def split: option.split)
qed

section \<open>Loops over all desktops\<close>

lemma map_updateDesktop_other:
  assumes "\<And>e. e \<in> set ds \<Longrightarrow> desk_id e \<noteq> did"
  shows "map (\<lambda>d. if desk_id d = did then f d else d) ds = ds"
  using assms by (induction ds) auto

lemma fold_updateDesktop_suffix:
  assumes "distinct (map desk_id (pre @ ds))"
    and "\<And>d. desk_id (f d d) = desk_id d"
  shows "fold (\<lambda>d u. if P d then updateDesktop u (desk_id d) (f d) else u) ds
           (s\<lparr>ses_desktops := map (\<lambda>d. if P d then f d d else d) pre @ ds\<rparr>) =
         s\<lparr>ses_desktops := map (\<lambda>d. if P d then f d d else d) (pre @ ds)\<rparr>"
  using assms(1)
proof (induction ds arbitrary: pre)
  case (Cons d ds)
  let ?g = "\<lambda>d. if P d then f d d else d"
  have "map (\<lambda>e. if desk_id e = desk_id d then f d e else e) (map ?g pre) = map ?g pre"
  proof (rule map_updateDesktop_other)
    fix e assume "e \<in> set (map ?g pre)"
    then obtain x where "x \<in> set pre" "desk_id e = desk_id x" using assms(2) by auto
    moreover have "desk_id d \<notin> desk_id ` set pre" using Cons.prems by auto
    ultimately show "desk_id e \<noteq> desk_id d" by (metis imageI)
  qed
  moreover have "map (\<lambda>e. if desk_id e = desk_id d then f d e else e) ds = ds"
    by (rule map_updateDesktop_other) (use Cons.prems in \<open>auto simp: image_iff\<close>)
  ultimately have "(if P d then updateDesktop (s\<lparr>ses_desktops := map ?g pre @ d # ds\<rparr>) (desk_id d) (f d)
      else s\<lparr>ses_desktops := map ?g pre @ d # ds\<rparr>) = s\<lparr>ses_desktops := map ?g (pre @ [d]) @ ds\<rparr>"
    by (simp add: updateDesktop_def)
  with Cons.IH [of "pre @ [d]"] Cons.prems show ?case by simp
qed simp

lemma fold_updateDesktop:
  assumes "distinct (map desk_id (ses_desktops s))" and "\<And>d. desk_id (f d d) = desk_id d"
  shows "fold (\<lambda>d u. if P d then updateDesktop u (desk_id d) (f d) else u) (ses_desktops s) s =
         s\<lparr>ses_desktops := map (\<lambda>d. if P d then f d d else d) (ses_desktops s)\<rparr>"
  using fold_updateDesktop_suffix [of "[]" "ses_desktops s" f P s] assms by simp

text \<open>Taking a window off a desktop, with the focus passed on as \<open>removeWindowFromAllDesktopPlacements\<close>
  does; where the window was not shown, this changes nothing that matters.\<close>

definition lift_off :: "os_window js_record \<Rightarrow> string \<Rightarrow> os_desktop \<Rightarrow> os_desktop" where
  "lift_off ws wid d =
     (if wid \<in> set (desk_floating d) \<or> in_tree (desk_tree d) wid
      then d\<lparr>desk_floating := without wid (desk_floating d),
             desk_tree := removeWindowFromDesktopTree (desk_tree d) wid,
             desk_focused := (if desk_focused d = Some wid then pickNextFocus d wid ws
                              else desk_focused d)\<rparr>
      else d)"

lemma desk_id_lift_off [simp]: "desk_id (lift_off ws wid d) = desk_id d"
  by (simp add: lift_off_def)

lemma in_tree_iff: "in_tree tree wid \<longleftrightarrow> wid \<in> set (opt_items tree)"
  by (cases tree) (simp_all add: in_tree_def findTilePaneContaining_None_iff)

lemma desk_ok_lift_off:
  assumes "desk_ok F T d"
  shows "desk_ok (F - {wid}) (T - {wid}) (lift_off ws wid d)"
proof (cases "wid \<in> set (desk_floating d) \<or> in_tree (desk_tree d) wid")
  case True
  let ?foc = "if desk_focused d = Some wid then pickNextFocus d wid ws else desk_focused d"
  have "\<And>f. ?foc = Some f \<Longrightarrow> f \<in> F - {wid} \<or> f \<in> T - {wid}"
    using assms pickNextFocus_shown [OF assms, of wid ws] by (auto simp: desk_ok_def split: if_splits)
  from desk_ok_remove [OF assms this] True show ?thesis by (simp add: lift_off_def)
next
  case False
  with assms have "F - {wid} = F" "T - {wid} = T"
    by (auto simp: desk_ok_def in_tree_iff tree_ids_def)
  with False assms show ?thesis by (simp add: lift_off_def)
qed

lemma removeWindowFromAllDesktopPlacements_eq:
  assumes "wf_session s"
  shows "removeWindowFromAllDesktopPlacements s wid =
    s\<lparr>ses_desktops := map (lift_off (ses_windows s) wid) (ses_desktops s)\<rparr>"
  unfolding removeWindowFromAllDesktopPlacements_def lift_off_def [abs_def]
  by (subst fold_updateDesktop [OF wf_sessionD(1) [OF assms]]) simp_all

section \<open>Presenting a window as a float\<close>

definition presented_window :: "os_session \<Rightarrow> os_window \<Rightarrow> string \<Rightarrow> float_bounds \<Rightarrow> os_window" where
  "presented_window s w did b =
     w\<lparr>win_desktopId := did, win_mode := Float, win_minimized := False, win_maximized := False,
       win_floatBounds := Some b, win_restorePlacement := None\<rparr>"

lemma wf_present:
  fixes b :: float_bounds
  assumes wf: "wf_session s" and w: "get_window s wid = Some w" and did: "did \<in> desktop_ids s"
  defines "w' \<equiv> presented_window s w did b"
  shows "wf_session (updateDesktop
           (set_window wid w' (s\<lparr>ses_desktops := map (lift_off (ses_windows s) wid) (ses_desktops s)\<rparr>)) did
           (\<lambda>d. d\<lparr>desk_floating := without wid (desk_floating d) @ [wid], desk_focused := Some wid\<rparr>))"
proof -
  let ?h = "\<lambda>d. d\<lparr>desk_floating := without wid (desk_floating d) @ [wid], desk_focused := Some wid\<rparr>"
  let ?g = "\<lambda>d. if desk_id d = did then ?h (lift_off (ses_windows s) wid d)
                else lift_off (ses_windows s) wid d"
  let ?ws = "rec_set wid w' (ses_windows s)"
  have ok: "wf_window (desktop_ids s) (wid, w')"
    using wf_session_window [OF wf w] did by (simp add: wf_window_def w'_def presented_window_def)
  have "wf_session (s\<lparr>ses_windows := ?ws, ses_desktops := map ?g (ses_desktops s)\<rparr>)"
  proof (rule wf_session_gen [OF wf])
    show "rec_wf ?ws" using wf_sessionD(2) [OF wf] by (rule rec_wf_set)
    show "list_all (wf_window (desktop_ids s)) ?ws"
      using wf_sessionD(3) [OF wf] ok by (rule windows_ok_set)
    fix d
    assume d: "desk_ok (set (shown_ids (ses_windows s) (desk_id d) Float))
        (set (shown_ids (ses_windows s) (desk_id d) Tile)) d"
    note off = desk_ok_lift_off [OF d, of wid "ses_windows s"]
    show "desk_ok (set (shown_ids ?ws (desk_id d) Float)) (set (shown_ids ?ws (desk_id d) Tile)) (?g d) \<and>
        desk_id (?g d) = desk_id d"
      using off desk_ok_float [OF off, of wid]
      by (cases "desk_id d = did") (simp_all add: shown_ids_set [OF wf_sessionD(2) [OF wf]] w'_def presented_window_def)
  qed
  then show ?thesis by (simp add: updateDesktop_def set_window_def comp_def if_distrib cong: if_cong)
qed

lemma desktop_exists: "list_ex (\<lambda>d. desk_id d = did) (ses_desktops s) \<longleftrightarrow> did \<in> desktop_ids s"
  by (auto simp: list_ex_iff desktop_ids_def)

lemma wf_presentWindowAsFloat:
  assumes wf: "wf_session s"
  shows "wf_session (presentWindowAsFloat s wid did vp)"
proof (cases "\<exists>w. get_window s wid = Some w \<and> did \<in> desktop_ids s")
  case True
  then obtain w where w: "get_window s wid = Some w" and did: "did \<in> desktop_ids s" by blast
  show ?thesis
  proof (cases "win_mode w = Float \<and> win_desktopId w = did \<and> \<not> win_minimized w \<and> \<not> win_maximized w")
    case True
    with w wf wf_switchDesktop [OF wf, of did] show ?thesis
      by (auto simp: presentWindowAsFloat_def desktop_exists did intro!: wf_focusWindow)
  next
    case False
    have "wf_session (focusWindow (switchDesktop (updateDesktop
           (set_window wid (presented_window s w did b)
             (s\<lparr>ses_desktops := map (lift_off (ses_windows s) wid) (ses_desktops s)\<rparr>)) did
           (\<lambda>d. d\<lparr>desk_floating := without wid (desk_floating d) @ [wid], desk_focused := Some wid\<rparr>)) did)
           wid)" for b
      by (rule wf_focusWindow [OF wf_switchDesktop [OF wf_present [OF wf w did]]])
         (auto simp: updateDesktop_def set_window_def rec_get_set presented_window_def)
    from this [of "_"] False w show ?thesis
      unfolding presentWindowAsFloat_def Let_def removeWindowFromAllDesktopPlacements_eq [OF wf]
      by (simp only: desktop_exists did presented_window_def option.case if_False not_True_eq_False)
  qed
qed (use wf in \<open>auto simp: presentWindowAsFloat_def desktop_exists split: option.splits\<close>)

section \<open>Docking into a desktop tree\<close>

text \<open>What a caller of \<open>dockWindowInDesktopTree\<close> has to respect: fresh UUIDs, a source pane that
  shows the window, and no restore placement on another desktop.\<close>

definition dock_allowed ::
  "os_session \<Rightarrow> string \<Rightarrow> string \<Rightarrow> string option \<Rightarrow> string \<Rightarrow> string \<Rightarrow> bool"
where
  "dock_allowed s did wid src u v \<longleftrightarrow>
     u \<noteq> '''' \<and>
     (case findDesktop s did of
        None \<Rightarrow> True
      | Some d \<Rightarrow>
          (case desk_tree d of
             None \<Rightarrow> True | Some t \<Rightarrow> fresh_ids t u v \<and> dock_source_ok t wid src)) \<and>
     (case get_window s wid of
        None \<Rightarrow> True
      | Some w \<Rightarrow>
          (case win_restorePlacement w of None \<Rightarrow> True | Some rp \<Rightarrow> rp_desktopId rp = did))"

definition lift_for_dock :: "os_window js_record \<Rightarrow> string \<Rightarrow> string \<Rightarrow> os_desktop \<Rightarrow> os_desktop" where
  "lift_for_dock ws did wid d =
     (if wid \<in> set (desk_floating d) \<or> (desk_id d \<noteq> did \<and> in_tree (desk_tree d) wid)
      then d\<lparr>desk_floating := without wid (desk_floating d),
             desk_tree := (if desk_id d \<noteq> did then removeWindowFromDesktopTree (desk_tree d) wid
                           else desk_tree d),
             desk_focused := (if desk_focused d = Some wid then pickNextFocus d wid ws
                              else desk_focused d)\<rparr>
      else d)"

definition dock_on_desktop ::
  "string \<Rightarrow> tile_dock_target \<Rightarrow> string option \<Rightarrow> string \<Rightarrow> string \<Rightarrow> os_desktop \<Rightarrow> os_desktop"
where
  "dock_on_desktop wid tgt src u v d =
     (case desk_tree d of
        None \<Rightarrow> d\<lparr>desk_tree := Some (Pane (newTilePaneNode [wid] (Some wid) u)),
                  desk_floating := without wid (desk_floating d), desk_focused := Some wid\<rparr>
      | Some t \<Rightarrow> d\<lparr>desk_tree := Some (fst (dockItemIntoTileTree t wid tgt src u v)),
                    desk_floating := without wid (desk_floating d), desk_focused := Some wid\<rparr>)"

lemma dockWindowInDesktopTree_eq:
  assumes ids: "distinct (map desk_id (ses_desktops s))" and w: "get_window s wid = Some w" and d: "findDesktop s did = Some td"
    and tgt: "\<forall>t. desk_tree td = Some t \<longrightarrow> findTilePaneById t (target_pane tgt) \<noteq> None"
  shows "dockWindowInDesktopTree s did wid tgt src u v =
    updateDesktop (set_window wid (w\<lparr>win_desktopId := did, win_mode := Tile, win_minimized := False\<rparr>)
      (s\<lparr>ses_desktops := map (lift_for_dock (ses_windows s) did wid) (ses_desktops s)\<rparr>)) did
      (dock_on_desktop wid tgt src u v)"
proof -
  let ?f = "\<lambda>e d. d\<lparr>desk_floating := without wid (desk_floating d),
             desk_tree := (if desk_id e \<noteq> did then removeWindowFromDesktopTree (desk_tree d) wid
                           else desk_tree d),
             desk_focused := (if desk_focused d = Some wid then pickNextFocus d wid (ses_windows s)
                              else desk_focused d)\<rparr>"
  have "fold (\<lambda>d u. if wid \<in> set (desk_floating d) \<or> (desk_id d \<noteq> did \<and> in_tree (desk_tree d) wid)
          then updateDesktop u (desk_id d) (?f d) else u) (ses_desktops s) s =
        s\<lparr>ses_desktops := map (lift_for_dock (ses_windows s) did wid) (ses_desktops s)\<rparr>"
    unfolding lift_for_dock_def [abs_def]
    by (rule fold_updateDesktop [OF ids]) simp
  with w d tgt show ?thesis
    by (auto simp: dockWindowInDesktopTree_def Let_def dock_on_desktop_def [abs_def] split: option.split)
qed

lemma desk_id_lift_for_dock [simp]: "desk_id (lift_for_dock ws did wid d) = desk_id d"
  by (simp add: lift_for_dock_def)

lemma desk_id_dock_on_desktop [simp]: "desk_id (dock_on_desktop wid tgt src u v d) = desk_id d"
  by (simp add: dock_on_desktop_def split: option.split)

lemma desk_ok_lift_for_dock:
  assumes "desk_ok F T d" and "desk_id d \<noteq> did"
  shows "desk_ok (F - {wid}) (T - {wid}) (lift_for_dock ws did wid d)"
proof -
  have "lift_for_dock ws did wid d = lift_off ws wid d"
    using assms(2) by (simp add: lift_for_dock_def lift_off_def)
  with desk_ok_lift_off [OF assms(1)] show ?thesis by simp
qed

lemma desk_ok_dock:
  assumes ok: "desk_ok F T d" and did: "desk_id d = did" and u: "u \<noteq> ''''"
    and t: "\<And>t. desk_tree d = Some t \<Longrightarrow> findTilePaneById t (target_pane tgt) \<noteq> None \<and>
              fresh_ids t u v \<and> dock_source_ok t wid src"
  shows "desk_ok (F - {wid}) (insert wid T)
    (dock_on_desktop wid tgt src u v (lift_for_dock ws did wid d))"
proof (cases "desk_tree d")
  case None
  with ok did wf_tile_new_pane [OF u, of wid] show ?thesis
    by (auto simp: desk_ok_def dock_on_desktop_def lift_for_dock_def tree_ids_def without_def)
next
  case (Some t)
  with ok have wf: "wf_tile t" by (simp add: desk_ok_def)
  from Some t have t': "findTilePaneById t (target_pane tgt) \<noteq> None" "dock_source_ok t wid src"
    "fresh_ids t u v" by auto
  from Some ok did dock_wf_items [OF wf t'] show ?thesis
    by (auto simp: desk_ok_def dock_on_desktop_def lift_for_dock_def tree_ids_def without_def)
qed

lemma dockWindowInDesktopTree_refused:
  assumes "findDesktop s did = Some td" and "desk_tree td = Some t"
    and "findTilePaneById t (target_pane tgt) = None"
  shows "dockWindowInDesktopTree s did wid tgt src u v = s"
  using assms by (simp add: dockWindowInDesktopTree_def split: option.split)

lemma wf_dockWindowInDesktopTree:
  assumes wf: "wf_session s" and al: "dock_allowed s did wid src u v"
  shows "wf_session (dockWindowInDesktopTree s did wid tgt src u v)"
proof (cases "\<exists>w td. get_window s wid = Some w \<and> findDesktop s did = Some td \<and>
    (\<forall>t. desk_tree td = Some t \<longrightarrow> findTilePaneById t (target_pane tgt) \<noteq> None)")
  case False
  with wf show ?thesis
    by (auto simp: dockWindowInDesktopTree_def dockWindowInDesktopTree_refused split: option.splits)
next
  case True
  then obtain w td where w: "get_window s wid = Some w" and td: "findDesktop s did = Some td"
    and tgt: "\<forall>t. desk_tree td = Some t \<longrightarrow> findTilePaneById t (target_pane tgt) \<noteq> None" by blast
  let ?w' = "w\<lparr>win_desktopId := did, win_mode := Tile, win_minimized := False\<rparr>"
  let ?ws = "rec_set wid ?w' (ses_windows s)"
  let ?g = "\<lambda>d. if desk_id d = did
      then dock_on_desktop wid tgt src u v (lift_for_dock (ses_windows s) did wid d)
      else lift_for_dock (ses_windows s) did wid d"
  have "wf_window (desktop_ids s) (wid, ?w')"
    using wf_session_window [OF wf w] al w td findDesktop_Some [OF td]
    by (auto simp: wf_window_def dock_allowed_def desktop_ids_def split: option.splits)
  then have ws: "rec_wf ?ws" "list_all (wf_window (desktop_ids s)) ?ws"
    using rec_wf_set [OF wf_sessionD(2) [OF wf]] windows_ok_set [OF wf_sessionD(3) [OF wf]] by auto
  have "wf_session (s\<lparr>ses_windows := ?ws, ses_desktops := map ?g (ses_desktops s)\<rparr>)"
  proof (rule wf_session_gen [OF wf ws])
    fix d
    assume d: "d \<in> set (ses_desktops s)" and ok: "desk_ok (set (shown_ids (ses_windows s) (desk_id d) Float))
        (set (shown_ids (ses_windows s) (desk_id d) Tile)) d"
    have "desk_ok (set (shown_ids (ses_windows s) did Float) - {wid})
        (insert wid (set (shown_ids (ses_windows s) did Tile)))
        (dock_on_desktop wid tgt src u v (lift_for_dock (ses_windows s) did wid d))" if did: "desk_id d = did"
      using al td desktop_unique [OF wf td d did] ok [unfolded did]
      by (intro desk_ok_dock [OF _ did] conjI tgt [rule_format]) (simp_all add: dock_allowed_def did)
    with ok desk_ok_lift_for_dock [OF ok, of did wid]
    show "desk_ok (set (shown_ids ?ws (desk_id d) Float)) (set (shown_ids ?ws (desk_id d) Tile)) (?g d) \<and>
        desk_id (?g d) = desk_id d"
      by (cases "desk_id d = did") (simp_all add: shown_ids_set [OF wf_sessionD(2) [OF wf]])
  qed
  then show ?thesis unfolding dockWindowInDesktopTree_eq [OF wf_sessionD(1) [OF wf] w td tgt]
    by (simp add: updateDesktop_def set_window_def comp_def if_distrib cong: if_cong)
qed

lemma wf_splitWindow:
  assumes "wf_session s"
    and "\<And>w. get_window s tgt = Some w \<Longrightarrow> dock_allowed s (win_desktopId w) wid None u v"
  shows "wf_session (splitWindow s wid tgt e u v)"
  using assms by (auto simp: splitWindow_def wf_dockWindowInDesktopTree split: option.split)

section \<open>Removing a desktop\<close>

definition rehome :: "string \<Rightarrow> os_window \<Rightarrow> os_window" where
  "rehome did w =
     w\<lparr>win_desktopId := did,
       win_restorePlacement := map_option (\<lambda>rp. rp\<lparr>rp_desktopId := did\<rparr>) (win_restorePlacement w)\<rparr>"

lemma rehome_simps [simp]:
  "win_desktopId (rehome did w) = did" "win_id (rehome did w) = win_id w"
  "rehome did (rehome did w) = rehome did w"
  by (simp_all add: rehome_def option.map_comp comp_def)

lemma rehome_id:
  assumes "wf_session s" and "get_window s wid = Some w" and "win_desktopId w = did"
  shows "rehome did w = w"
  using assms(3) wf_session_window(4) [OF assms(1,2)]
  by (cases "win_restorePlacement w") (auto simp: rehome_def)

lemma desktop_ids_map:
  "(\<And>d. desk_id (g d) = desk_id d) \<Longrightarrow>
     desktop_ids (s\<lparr>ses_windows := ws, ses_desktops := map g (ses_desktops s)\<rparr>) = desktop_ids s"
  by (simp add: desktop_ids_def image_image)

lemma moveWindowToDesktop_frame:
  assumes wf: "wf_session s" and t: "tgt \<in> desktop_ids s"
  shows "get_window (moveWindowToDesktop s wid tgt u) k =
      (if k = wid then map_option (rehome tgt) (get_window s k) else get_window s k)"
    and "desktop_ids (moveWindowToDesktop s wid tgt u) = desktop_ids s"
    and "ses_active (moveWindowToDesktop s wid tgt u) = ses_active s"
proof -
  have "get_window (moveWindowToDesktop s wid tgt u) k =
      (if k = wid then map_option (rehome tgt) (get_window s k) else get_window s k) \<and>
    desktop_ids (moveWindowToDesktop s wid tgt u) = desktop_ids s \<and>
    ses_active (moveWindowToDesktop s wid tgt u) = ses_active s"
  proof (cases "\<exists>w. get_window s wid = Some w \<and> win_desktopId w \<noteq> tgt")
    case True
    then obtain w where w: "get_window s wid = Some w" "win_desktopId w \<noteq> tgt" by blast
    have "findDesktop s tgt \<noteq> None" using t findDesktop_None_iff [of s tgt] by metis
    from moveWindowToDesktop_eq [OF w this, of u] w show ?thesis
      by (simp add: rec_get_set rehome_def desktop_ids_map)
  next
    case False
    then have "moveWindowToDesktop s wid tgt u = s"
      by (cases "get_window s wid") (auto simp: moveWindowToDesktop_def)
    with False rehome_id [OF wf, of wid] show ?thesis by (cases "get_window s wid") auto
  qed
  then show "get_window (moveWindowToDesktop s wid tgt u) k =
      (if k = wid then map_option (rehome tgt) (get_window s k) else get_window s k)"
    and "desktop_ids (moveWindowToDesktop s wid tgt u) = desktop_ids s"
    and "ses_active (moveWindowToDesktop s wid tgt u) = ses_active s" by auto
qed

lemma move_all_frame:
  assumes "wf_session s" and "tgt \<in> desktop_ids s"
    and "\<forall>j. i \<le> j \<and> j < i + length ws \<longrightarrow> uuids j \<noteq> ''''"
  shows "wf_session (move_all ws tgt uuids i s) \<and>
    desktop_ids (move_all ws tgt uuids i s) = desktop_ids s \<and>
    ses_active (move_all ws tgt uuids i s) = ses_active s \<and>
    (\<forall>k. get_window (move_all ws tgt uuids i s) k =
       (if k \<in> win_id ` set ws then map_option (rehome tgt) (get_window s k) else get_window s k))"
  using assms
proof (induction ws arbitrary: i s)
  case (Cons w ws)
  let ?s = "moveWindowToDesktop s (win_id w) tgt (uuids i)"
  note fr = moveWindowToDesktop_frame [OF Cons.prems(1,2)]
  have "uuids i \<noteq> ''''" using Cons.prems(3) by simp
  then have "wf_session ?s" by (rule wf_moveWindowToDesktop [OF Cons.prems(1)])
  from Cons.IH [OF this, of "Suc i"] Cons.prems(2,3) show ?case
    by (auto simp: fr option.map_comp comp_def)
qed simp

lemma wf_drop_desktop:
  assumes wf: "wf_session s" and a: "a \<in> desktop_ids s" "a \<noteq> did"
    and none: "\<And>k w. get_window s k = Some w \<Longrightarrow> win_desktopId w \<noteq> did"
  shows "wf_session (s\<lparr>ses_active := a, ses_desktops := filter (\<lambda>d. desk_id d \<noteq> did) (ses_desktops s)\<rparr>)"
proof -
  let ?s = "s\<lparr>ses_active := a, ses_desktops := filter (\<lambda>d. desk_id d \<noteq> did) (ses_desktops s)\<rparr>"
  have ids: "desktop_ids ?s = desktop_ids s - {did}" by (auto simp: desktop_ids_def)
  have "wf_window (desktop_ids ?s) (k, w)" if "(k, w) \<in> set (ses_windows s)" for k w
  proof -
    from that have "get_window s k = Some w" using wf_sessionD(2) [OF wf] by simp
    from none [OF this] that wf_sessionD(3) [OF wf] show ?thesis
      unfolding ids by (auto simp: list_all_iff wf_window_def)
  qed
  moreover have "distinct (map desk_id (ses_desktops ?s))"
    using wf_sessionD(1) [OF wf] by (simp add: distinct_map_filter)
  ultimately show ?thesis
    using wf a by (auto simp: wf_session_def ids list_all_iff)
qed

lemma removeDesktop_cases:
  assumes "wf_session s"
  obtains (refused) "removeDesktop s did sd uuids = s"
  | (removed) td where "td \<in> desktop_ids s" "td \<noteq> did" "did \<in> desktop_ids s"
      "removeDesktop s did sd uuids =
        (let s1 = move_all (filter (\<lambda>w. win_desktopId w = did) (map snd (ses_windows s))) td uuids 0 s
         in s1\<lparr>ses_active := (if ses_active s1 = did then td else ses_active s1),
               ses_desktops := filter (\<lambda>d. desk_id d \<noteq> did) (ses_desktops s1)\<rparr>)"
proof (cases "length (ses_desktops s) \<le> 1 \<or> find (\<lambda>d. desk_id d = did) (ses_desktops s) = None")
  case True
  then show thesis by (intro refused) (auto simp: removeDesktop_def)
next
  case False
  let ?tgt = "case sd of Some sd \<Rightarrow>
                  if sd \<noteq> '''' then find (\<lambda>d. desk_id d = sd \<and> desk_id d \<noteq> did) (ses_desktops s)
                  else find (\<lambda>d. desk_id d \<noteq> did) (ses_desktops s)
              | None \<Rightarrow> find (\<lambda>d. desk_id d \<noteq> did) (ses_desktops s)"
  show thesis
  proof (cases ?tgt)
    case None
    with False show thesis by (intro refused) (simp add: removeDesktop_def)
  next
    case (Some td)
    have td: "td \<in> set (ses_desktops s)" "desk_id td \<noteq> did"
      using Some by (auto split: option.splits if_splits dest: find_Some_in)
    from False have "did \<in> desktop_ids s" by (auto simp: desktop_ids_def find_None_iff')
    moreover have "desk_id td \<in> desktop_ids s" using td(1) by (simp add: desktop_ids_def)
    moreover have "\<not> length (ses_desktops s) \<le> 1"
      and "find (\<lambda>d. desk_id d = did) (ses_desktops s) \<noteq> None" using False by auto
    ultimately show thesis
      by (intro removed [OF _ td(2)]) (simp_all only: removeDesktop_def Some Let_def if_False option.case)
  qed
qed

lemma windows_to_move:
  assumes "wf_session s"
  shows "k \<in> win_id ` set (filter (\<lambda>w. win_desktopId w = did) (map snd (ses_windows s))) \<longleftrightarrow>
    (\<exists>w. get_window s k = Some w \<and> win_desktopId w = did)"
proof -
  have "\<And>k w. (k, w) \<in> set (ses_windows s) \<longleftrightarrow> get_window s k = Some w"
    using wf_sessionD(2) [OF assms] by (simp add: rec_get_iff)
  then show ?thesis using wf_session_window(1) [OF assms] by (force simp: image_iff)
qed

text \<open>The windows after a removal: none is lost, none is added, and exactly those of the removed
  desktop move to the surviving one.\<close>

definition move_windows_off ::
  "os_session \<Rightarrow> string \<Rightarrow> string \<Rightarrow> (nat \<Rightarrow> string) \<Rightarrow> os_session"
where
  "move_windows_off s did td uuids =
     move_all (filter (\<lambda>w. win_desktopId w = did) (map snd (ses_windows s))) td uuids 0 s"

definition uuids_ok :: "os_session \<Rightarrow> (nat \<Rightarrow> string) \<Rightarrow> bool" where
  "uuids_ok s uuids \<longleftrightarrow> list_all (\<lambda>i. uuids i \<noteq> '''') [0..<length (ses_windows s)]"

lemma move_windows_off:
  assumes wf: "wf_session s" and u: "uuids_ok s uuids" and td: "td \<in> desktop_ids s"
  shows "wf_session (move_windows_off s did td uuids)"
    and "desktop_ids (move_windows_off s did td uuids) = desktop_ids s"
    and "ses_active (move_windows_off s did td uuids) = ses_active s"
    and "get_window (move_windows_off s did td uuids) k =
      map_option (\<lambda>w. if win_desktopId w = did then rehome td w else w) (get_window s k)"
proof -
  let ?ws = "filter (\<lambda>w. win_desktopId w = did) (map snd (ses_windows s))"
  have len: "length ?ws \<le> length (ses_windows s)"
    using length_filter_le [of "\<lambda>w. win_desktopId w = did" "map snd (ses_windows s)"] by simp
  have "\<forall>j. 0 \<le> j \<and> j < 0 + length ?ws \<longrightarrow> uuids j \<noteq> ''''"
    using u order_less_le_trans [OF _ len] unfolding uuids_ok_def list_all_iff set_upt by simp
  note fr = move_all_frame [OF wf td this]
  show "wf_session (move_windows_off s did td uuids)"
    "desktop_ids (move_windows_off s did td uuids) = desktop_ids s"
    "ses_active (move_windows_off s did td uuids) = ses_active s"
    using fr by (simp_all add: move_windows_off_def)
  have "get_window (move_windows_off s did td uuids) k =
    (if \<exists>w. get_window s k = Some w \<and> win_desktopId w = did then map_option (rehome td) (get_window s k)
     else get_window s k)"
    unfolding move_windows_off_def windows_to_move [OF wf, symmetric] using fr by blast
  then show "get_window (move_windows_off s did td uuids) k =
      map_option (\<lambda>w. if win_desktopId w = did then rehome td w else w) (get_window s k)"
    by (cases "get_window s k") auto
qed

lemma wf_removeDesktop:
  assumes wf: "wf_session s" and u: "uuids_ok s uuids"
  shows "wf_session (removeDesktop s did sd uuids)"
proof (cases rule: removeDesktop_cases [OF wf, of did sd uuids, case_names refused removed])
  case refused
  with wf show ?thesis by simp
next
  case (removed td)
  let ?s1 = "move_windows_off s did td uuids"
  note fr = move_windows_off [OF wf u removed(1), of did]
  have "wf_session (?s1\<lparr>ses_active := (if ses_active ?s1 = did then td else ses_active ?s1),
      ses_desktops := filter (\<lambda>d. desk_id d \<noteq> did) (ses_desktops ?s1)\<rparr>)"
  proof (rule wf_drop_desktop)
    show "(if ses_active ?s1 = did then td else ses_active ?s1) \<in> desktop_ids ?s1"
      using fr(2,3) removed(1) wf_sessionD(5) [OF wf] by auto
    show "win_desktopId w \<noteq> did" if "get_window ?s1 k = Some w" for k w
    proof -
      from that obtain v where "w = (if win_desktopId v = did then rehome td v else v)"
        unfolding fr(4) by auto
      with removed(2) show ?thesis by simp
    qed
  qed (use fr(1,3) removed(2) in auto)
  then show ?thesis unfolding removed(4) Let_def move_windows_off_def .
qed

lemma removeDesktop_keeps_windows:
  assumes wf: "wf_session s" and u: "uuids_ok s uuids"
  shows "removeDesktop s did sd uuids = s \<or>
    did \<notin> desktop_ids (removeDesktop s did sd uuids) \<and>
    (\<exists>td \<in> desktop_ids s. td \<noteq> did \<and>
       (\<forall>k. get_window (removeDesktop s did sd uuids) k =
          map_option (\<lambda>w. if win_desktopId w = did then rehome td w else w) (get_window s k)))"
proof (cases rule: removeDesktop_cases [OF wf, of did sd uuids, case_names refused removed])
  case (removed td)
  note fr = move_windows_off [OF wf u removed(1), of did]
  have "get_window (removeDesktop s did sd uuids) k = get_window (move_windows_off s did td uuids) k" for k
    by (simp add: removed(4) move_windows_off_def Let_def)
  moreover have "did \<notin> desktop_ids (removeDesktop s did sd uuids)"
    by (auto simp: removed(4) Let_def desktop_ids_def)
  ultimately show ?thesis using fr(4) removed(1,2) by auto
qed simp

end
