(* ===== verification/Window_Store.thy ===== *)
theory Window_Store
  imports Desktop_Inv
begin

text \<open>
  The zustand store \<^verbatim>\<open>packages/ui/src/os/window-store.ts\<close>: its state (session, viewport
  and the module-level focus clock), one definition per action, and the store as a machine of
  events. Every action that reaches a UUID, the wall clock or the settings store takes the
  value it reads as an argument. The invariant of the machine is the placement invariant of
  its session; \<open>window_allowed\<close> says which events keep it.
\<close>

record window_store =
  st_session :: os_session
  st_viewport :: viewport
  st_focusCounter :: nat
  st_focusTimestamps :: "nat js_record"

definition initial_store :: window_store where
  "initial_store =
     \<lparr>st_session = createDefaultOsSession ''desktop-1'' ''Main'', st_viewport = \<lparr>vp_width = 1280, vp_height = 800\<rparr>,
      st_focusCounter = 0, st_focusTimestamps = []\<rparr>"

definition recordWindowFocus :: "window_store \<Rightarrow> string \<Rightarrow> window_store" where
  "recordWindowFocus st wid =
     st\<lparr>st_focusCounter := st_focusCounter st + 1,
        st_focusTimestamps := rec_set wid (st_focusCounter st + 1) (st_focusTimestamps st)\<rparr>"

definition getWindowFocusTimestamp :: "window_store \<Rightarrow> string \<Rightarrow> nat" where
  "getWindowFocusTimestamp st wid =
     (case rec_get (st_focusTimestamps st) wid of Some t \<Rightarrow> t | None \<Rightarrow> 0)"

abbreviation on_session :: "window_store \<Rightarrow> (os_session \<Rightarrow> os_session) \<Rightarrow> window_store" where
  "on_session st f \<equiv> st\<lparr>st_session := f (st_session st)\<rparr>"

section \<open>Actions\<close>

text \<open>\<open>openWindow\<close>: the mode falls back to the placement setting, and that to floating.\<close>

definition store_openWindow ::
  "window_store \<Rightarrow> os_window \<Rightarrow> window_mode option \<Rightarrow> window_mode option \<Rightarrow> string option \<Rightarrow> string
     \<Rightarrow> window_store"
where
  "store_openWindow st window mode placementSetting did uuid =
     (let defaultMode = (case placementSetting of Some m \<Rightarrow> m | None \<Rightarrow> Float);
          m = (case mode of Some m \<Rightarrow> m | None \<Rightarrow> defaultMode)
      in on_session st (\<lambda>s. openWindow s (window\<lparr>win_mode := m\<rparr>) did (Some (st_viewport st)) uuid))"

text \<open>\<open>closeWindow\<close> settles the launch attempt of a terminal window that was closed before its
  creation was dispatched; the second component is that request to the launch journal.\<close>

definition undispatched_attempt :: "os_window \<Rightarrow> js_value option" where
  "undispatched_attempt win =
     (if win_appId win = Terminals \<and> truthy (state_field (win_appState win) ''attemptId'')
         \<and> \<not> truthy (state_field (win_appState win) ''dispatched'')
         \<and> \<not> (truthy (state_field (win_appState win) ''target'') \<or> truthy (state_field (win_appState win) ''incarnation''))
      then Some (state_field (win_appState win) ''attemptId'') else None)"

definition store_closeWindow :: "window_store \<Rightarrow> string \<Rightarrow> window_store \<times> js_value option" where
  "store_closeWindow st wid =
     (on_session st (\<lambda>s. closeWindow s wid),
      Option.bind (get_window (st_session st) wid) undispatched_attempt)"

definition store_focusWindow :: "window_store \<Rightarrow> string \<Rightarrow> window_store" where
  "store_focusWindow st wid = on_session (recordWindowFocus st wid) (\<lambda>s. focusWindow s wid)"

definition store_revealWindow :: "window_store \<Rightarrow> string \<Rightarrow> string \<Rightarrow> window_store" where
  "store_revealWindow st wid uuid =
     (if get_window (st_session st) wid = None then st
      else on_session (recordWindowFocus st wid) (\<lambda>s. revealWindow s wid uuid))"

definition store_presentWindowAsFloat :: "window_store \<Rightarrow> string \<Rightarrow> string \<Rightarrow> window_store" where
  "store_presentWindowAsFloat st wid did =
     (if get_window (st_session st) wid = None then st
      else on_session (recordWindowFocus st wid)
             (\<lambda>s. presentWindowAsFloat s wid did (Some (st_viewport st))))"

definition store_resizeFloatBounds ::
  "window_store \<Rightarrow> string \<Rightarrow> real \<Rightarrow> real \<Rightarrow> resize_direction \<Rightarrow> window_store"
where
  "store_resizeFloatBounds st wid dx dy dir =
     (case get_window (st_session st) wid of
        None \<Rightarrow> st
      | Some win \<Rightarrow>
          if win_mode win \<noteq> Float then st
          else (case win_floatBounds win of
                  None \<Rightarrow> st
                | Some b \<Rightarrow>
                    on_session st (\<lambda>s. updateFloatBounds s wid
                      (resizeFloatBounds b dx dy dir (Some (st_viewport st)))
                      (Some (st_viewport st)))))"

text \<open>A patch \<open>{...old, ...patch}\<close> of an \<open>appState\<close> object.\<close>

definition spread_record :: "'v js_record \<Rightarrow> 'v js_record \<Rightarrow> 'v js_record" where
  "spread_record old patch = fold (\<lambda>(k, v) m. rec_set k v m) patch old"

definition store_updateAppState :: "window_store \<Rightarrow> string \<Rightarrow> js_value js_record \<Rightarrow> window_store" where
  "store_updateAppState st wid patch =
     (case get_window (st_session st) wid of
        None \<Rightarrow> st
      | Some win \<Rightarrow>
          on_session st (set_window wid
            (win\<lparr>win_appState :=
               Some (spread_record (case win_appState win of Some a \<Rightarrow> a | None \<Rightarrow> []) patch)\<rparr>)))"

text \<open>A partial context: \<open>None\<close> for a key the patch does not have, \<open>Some None\<close> for a key it sets to
  \<^verbatim>\<open>undefined\<close>.\<close>

record context_patch =
  cp_profileId :: "string option"
  cp_generation :: "real option option"
  cp_projectId :: "string option option"
  cp_worktreeId :: "string option option"
  cp_gitRootId :: "string option option"
  cp_operation :: "string option option"
  cp_target :: "fs_target_ref option option"

abbreviation patched :: "'a option \<Rightarrow> 'a \<Rightarrow> 'a" where
  "patched p old \<equiv> (case p of Some new \<Rightarrow> new | None \<Rightarrow> old)"

definition patch_context :: "window_context \<Rightarrow> context_patch \<Rightarrow> window_context" where
  "patch_context c p =
     \<lparr>ctx_profileId = patched (cp_profileId p) (ctx_profileId c),
      ctx_generation = patched (cp_generation p) (ctx_generation c),
      ctx_projectId = patched (cp_projectId p) (ctx_projectId c),
      ctx_worktreeId = patched (cp_worktreeId p) (ctx_worktreeId c),
      ctx_gitRootId = patched (cp_gitRootId p) (ctx_gitRootId c),
      ctx_operation = patched (cp_operation p) (ctx_operation c),
      ctx_target = patched (cp_target p) (ctx_target c)\<rparr>"

definition store_updateWindowContext :: "window_store \<Rightarrow> string \<Rightarrow> context_patch \<Rightarrow> window_store" where
  "store_updateWindowContext st wid patch =
     (case get_window (st_session st) wid of
        None \<Rightarrow> st
      | Some win \<Rightarrow>
          on_session st (set_window wid (win\<lparr>win_ctx := patch_context (win_ctx win) patch\<rparr>)))"

section \<open>Placing an existing terminal beside the hub\<close>

datatype terminal_action = FocusExisting | OpenBeside | MoveBeside

text \<open>\<open>{...existingWin, ...terminalWindow, desktopId, minimized: false, ...}\<close>: an optional field
  that \<open>terminalWindow\<close> lacks keeps the value of \<open>existingWin\<close>.\<close>

definition merge_window :: "os_window option \<Rightarrow> os_window \<Rightarrow> string \<Rightarrow> os_window" where
  "merge_window existing term did =
     term\<lparr>win_desktopId := did, win_minimized := False, win_maximized := False,
            win_restorePlacement := None,
            win_floatBounds := (case win_floatBounds term of
                 Some v \<Rightarrow> Some v | None \<Rightarrow> Option.bind existing win_floatBounds),
              win_appState := (case win_appState term of
                 Some v \<Rightarrow> Some v | None \<Rightarrow> Option.bind existing win_appState),
              win_runtimeIdentity := (case win_runtimeIdentity term of
                 Some v \<Rightarrow> Some v | None \<Rightarrow> Option.bind existing win_runtimeIdentity)\<rparr>"

definition root_id :: "'a tile_node \<Rightarrow> string" where
  "root_id t = (case t of Pane p \<Rightarrow> pane_id p | Split i _ _ _ _ \<Rightarrow> i)"

text \<open>The dock target beside the hub: a pane that shows another terminal, else the right edge of
  the hub's pane, else the root of the tree.\<close>

definition beside_target :: "os_window js_record \<Rightarrow> string tile_node \<Rightarrow> string \<Rightarrow> string \<Rightarrow> tile_dock_target" where
  "beside_target ws tree hubId wid =
     (case findTilePaneContaining tree (\<lambda>i. i = hubId) of
        Some hubPane \<Rightarrow>
          (case find (\<lambda>p. pane_id p \<noteq> pane_id hubPane \<and>
                        list_ex (\<lambda>i. case rec_get ws i of
                                       Some w \<Rightarrow> win_appId w = Terminals \<and> win_id w \<noteq> wid
                                     | None \<Rightarrow> False) (items p))
                  (collectTilePanes tree) of
             Some adjacent \<Rightarrow> PaneCenter (pane_id adjacent)
           | None \<Rightarrow> PaneEdge (pane_id hubPane) Right)
      | None \<Rightarrow> PaneCenter (root_id tree))"

definition place_float :: "os_session \<Rightarrow> os_window \<Rightarrow> os_session" where
  "place_float s w =
     (let s1 = set_window (win_id w) w s
      in s1\<lparr>ses_desktops :=
              map (\<lambda>d. if desk_id d = win_desktopId w
                       then d\<lparr>desk_floating := without (win_id w) (desk_floating d) @ [win_id w]\<rparr>
                       else d\<lparr>desk_floating := without (win_id w) (desk_floating d)\<rparr>)
                (ses_desktops s1)\<rparr>)"

definition beside_bounds :: "os_window \<Rightarrow> viewport \<Rightarrow> float_bounds" where
  "beside_bounds hub vp =
     (let b = (case win_floatBounds hub of Some b \<Rightarrow> b | None \<Rightarrow> DEFAULT_FLOAT_BOUNDS)
      in clampFloatBounds (b\<lparr>fb_x := fb_x b + 28, fb_y := fb_y b + 28\<rparr>) (Some vp))"

definition place_beside ::
  "os_session \<Rightarrow> viewport \<Rightarrow> string \<Rightarrow> os_window \<Rightarrow> os_window \<Rightarrow> string \<Rightarrow> string \<Rightarrow> os_session"
where
  "place_beside s vp hubId hub term newPaneId splitId =
     (let did = win_desktopId hub;
          existing = get_window s (win_id term);
          s1 = (case existing of
                  Some e \<Rightarrow> removeWindowFromAllDesktopPlacements s (win_id e)
                | None \<Rightarrow> s);
          win = merge_window existing term did;
          s2 = set_window (win_id win) win s1;
          tree = Option.bind (findDesktop s2 did) desk_tree;
          s3 = (if win_mode hub = Tile \<and> tree \<noteq> None
                then dockWindowInDesktopTree s2 did (win_id win)
                       (beside_target (ses_windows s2) (the tree) hubId (win_id win))
                       None newPaneId splitId
                else place_float s2
                       (win\<lparr>win_mode := Float, win_floatBounds := Some (beside_bounds hub vp)\<rparr>))
      in focusWindow s3 (win_id win))"

definition focus_existing :: "os_session \<Rightarrow> os_window \<Rightarrow> string \<Rightarrow> os_session" where
  "focus_existing s e uuid =
     (let s1 = (if win_desktopId e \<noteq> ses_active s then switchDesktop s (win_desktopId e) else s);
          s2 = (if win_minimized e then restoreWindow s1 (win_id e) uuid else s1)
      in focusWindow s2 (win_id e))"

definition placeExistingTerminal ::
  "window_store \<Rightarrow> string \<Rightarrow> os_window \<Rightarrow> terminal_action \<Rightarrow> string \<Rightarrow> string \<Rightarrow> window_store \<times> string"
where
  "placeExistingTerminal st hubId term action newPaneId splitId =
     (let s = st_session st in
      case get_window s hubId of
        None \<Rightarrow> (st, win_id term)
      | Some hub \<Rightarrow>
          if findDesktop s (win_desktopId hub) = None then (st, win_id term)
          else
            (case get_window s (win_id term) of
               Some e \<Rightarrow>
                 if action = FocusExisting
                 then (st\<lparr>st_session := focus_existing s e newPaneId\<rparr>, win_id e)
                 else (st\<lparr>st_session := place_beside s (st_viewport st) hubId hub term newPaneId splitId\<rparr>,
                       win_id term)
             | None \<Rightarrow>
                 (st\<lparr>st_session := place_beside s (st_viewport st) hubId hub term newPaneId splitId\<rparr>,
                  win_id term)))"

section \<open>Placing beside the hub keeps the invariant\<close>

lemma rec_set_twice [simp]: "rec_set k v (rec_set k v' m) = rec_set k v m"
  by (induction m) auto

definition hidden_on :: "string \<Rightarrow> os_desktop \<Rightarrow> bool" where
  "hidden_on wid d \<longleftrightarrow> wid \<notin> set (desk_floating d) \<and> \<not> in_tree (desk_tree d) wid"

lemma lift_hidden: "hidden_on wid d \<Longrightarrow> lift_for_dock ws did wid d = d" "hidden_on wid d \<Longrightarrow> lift_off ws wid d = d"
  by (auto simp: hidden_on_def lift_for_dock_def lift_off_def)

lemma hidden_on_desk_ok: "desk_ok F T d \<Longrightarrow> wid \<notin> F \<Longrightarrow> wid \<notin> T \<Longrightarrow> hidden_on wid d"
  by (simp add: desk_ok_def hidden_on_def in_tree_iff tree_ids_def)

lemma hidden_lift_off: "desk_ok F T d \<Longrightarrow> hidden_on wid (lift_off ws wid d)"
  by (rule hidden_on_desk_ok [OF desk_ok_lift_off]) auto

text \<open>Docking a window that no desktop shows does not depend on its minimized flag.\<close>

lemma dock_minimized_flag:
  assumes ids: "distinct (map desk_id (ses_desktops s))"
    and hid: "\<And>d. d \<in> set (ses_desktops s) \<Longrightarrow> hidden_on wid d"
    and td: "findDesktop s did = Some td" "desk_tree td = Some t"
    and tgt: "findTilePaneById t (target_pane tgt) \<noteq> None"
  shows "dockWindowInDesktopTree (set_window wid w s) did wid tgt src u v =
    dockWindowInDesktopTree (set_window wid (w\<lparr>win_minimized := b\<rparr>) s) did wid tgt src u v"
proof -
  have "dockWindowInDesktopTree (set_window wid x s) did wid tgt src u v =
      updateDesktop (set_window wid (x\<lparr>win_desktopId := did, win_mode := Tile, win_minimized := False\<rparr>) s)
        did (dock_on_desktop wid tgt src u v)" for x
  proof -
    have "map (lift_for_dock (ses_windows (set_window wid x s)) did wid) (ses_desktops s) = ses_desktops s"
      by (rule map_idI) (simp add: lift_hidden hid)
    moreover have "dockWindowInDesktopTree (set_window wid x s) did wid tgt src u v =
      updateDesktop (set_window wid (x\<lparr>win_desktopId := did, win_mode := Tile, win_minimized := False\<rparr>)
        ((set_window wid x s)\<lparr>ses_desktops := map (lift_for_dock (ses_windows (set_window wid x s)) did wid)
           (ses_desktops (set_window wid x s))\<rparr>)) did (dock_on_desktop wid tgt src u v)"
      by (rule dockWindowInDesktopTree_eq) (use ids td tgt in \<open>auto simp: set_window_def rec_get_set findDesktop_def\<close>)
    ultimately show ?thesis by (simp add: set_window_def)
  qed
  then show ?thesis by simp
qed

text \<open>The session with the window taken off all desktops and still minimized, which satisfies the
  invariant.\<close>

definition hide_window :: "os_session \<Rightarrow> string \<Rightarrow> os_window \<Rightarrow> os_session" where
  "hide_window s wid w =
     s\<lparr>ses_windows := rec_set wid w (ses_windows s),
       ses_desktops := map (lift_off (ses_windows s) wid) (ses_desktops s)\<rparr>"

lemma hide_window_eq:
  "set_window wid w (s\<lparr>ses_desktops := map (lift_off (ses_windows s) wid) (ses_desktops s)\<rparr>) =
     hide_window s wid w"
  by (cases s) (simp add: hide_window_def set_window_def)

lemma wf_hide_window:
  assumes wf: "wf_session s" and w: "win_id w = wid" "wid \<noteq> ''''" "win_desktopId w \<in> desktop_ids s"
    "win_minimized w" "win_restorePlacement w = None"
  shows "wf_session (hide_window s wid w)"
proof -
  let ?ws = "rec_set wid w (ses_windows s)"
  have "wf_session (s\<lparr>ses_windows := ?ws, ses_desktops := map (lift_off (ses_windows s) wid) (ses_desktops s)\<rparr>)"
  proof (rule wf_session_gen [OF wf])
    show "rec_wf ?ws" using wf_sessionD(2) [OF wf] by (rule rec_wf_set)
    show "list_all (wf_window (desktop_ids s)) ?ws"
      using wf_sessionD(3) [OF wf] by (rule windows_ok_set) (use w in \<open>simp add: wf_window_def\<close>)
    fix d
    assume d: "desk_ok (set (shown_ids (ses_windows s) (desk_id d) Float))
        (set (shown_ids (ses_windows s) (desk_id d) Tile)) d"
    from desk_ok_lift_off [OF d, of wid "ses_windows s"] w(4)
    show "desk_ok (set (shown_ids ?ws (desk_id d) Float)) (set (shown_ids ?ws (desk_id d) Tile))
        (lift_off (ses_windows s) wid d) \<and> desk_id (lift_off (ses_windows s) wid d) = desk_id d"
      by (simp add: shown_ids_set [OF wf_sessionD(2) [OF wf]])
  qed
  then show ?thesis by (simp add: hide_window_def)
qed

lemma hide_window_hidden:
  assumes "wf_session s" and "d \<in> set (ses_desktops (hide_window s wid w))"
  shows "hidden_on wid d"
  using assms(2) wf_sessionD(4) [OF assms(1), unfolded wf_desktop_def]
  by (auto simp: hide_window_def intro: hidden_lift_off)

text \<open>The first steps of \<open>placeExistingTerminal\<close>, for a known and for a new window.\<close>

lemma detach_existing:
  assumes wf: "wf_session s"
  shows "set_window wid w (case get_window s wid of
      Some e \<Rightarrow> removeWindowFromAllDesktopPlacements s (win_id e) | None \<Rightarrow> s) = hide_window s wid w"
proof (cases "get_window s wid")
  case None
  have "map (lift_off (ses_windows s) wid) (ses_desktops s) = ses_desktops s"
  proof (rule map_idI)
    fix d assume "d \<in> set (ses_desktops s)"
    with wf_sessionD(4) [OF wf] have "wf_desktop (ses_windows s) d" by auto
    moreover have "wid \<notin> set (shown_ids (ses_windows s) e m)" for e m
      using None by (simp add: set_shown_ids [OF wf_sessionD(2) [OF wf]])
    ultimately show "lift_off (ses_windows s) wid d = d"
      by (intro lift_hidden) (auto simp: wf_desktop_def intro: hidden_on_desk_ok)
  qed
  with None show ?thesis by (simp add: hide_window_def set_window_def)
next
  case (Some e)
  with wf_session_window(1) [OF wf Some] show ?thesis
    by (simp add: hide_window_eq removeWindowFromAllDesktopPlacements_eq [OF wf])
qed

definition session_node_ids :: "os_session \<Rightarrow> string set" where
  "session_node_ids s =
     (\<Union>d \<in> set (ses_desktops s). case desk_tree d of None \<Rightarrow> {} | Some t \<Rightarrow> set (node_ids t))"

definition fresh_in :: "os_session \<Rightarrow> string \<Rightarrow> string \<Rightarrow> bool" where
  "fresh_in s u v \<longleftrightarrow>
     u \<noteq> '''' \<and> v \<noteq> '''' \<and> u \<noteq> v \<and> u \<notin> session_node_ids s \<and> v \<notin> session_node_ids s"

lemma fresh_in_tree:
  "fresh_in s u v \<Longrightarrow> d \<in> set (ses_desktops s) \<Longrightarrow> desk_tree d = Some t \<Longrightarrow> fresh_ids t u v"
  by (force simp: fresh_in_def session_node_ids_def fresh_ids_def)

lemma node_ids_removeWindow:
  "removeWindowFromDesktopTree (Some t) wid = Some t' \<Longrightarrow> set (node_ids t') \<subseteq> set (node_ids t)"
  by (auto simp: removeWindowFromDesktopTree_def node_ids_removeItem split: option.splits if_splits
      dest: removeTilePane_node_ids)

lemma lift_off_tree:
  "desk_tree (lift_off ws wid d) = Some t' \<Longrightarrow>
     \<exists>t. desk_tree d = Some t \<and> set (node_ids t') \<subseteq> set (node_ids t)"
proof (cases "desk_tree d")
  case None
  assume "desk_tree (lift_off ws wid d) = Some t'"
  with None show ?thesis by (auto simp: lift_off_def removeWindowFromDesktopTree_def split: if_splits)
next
  case (Some t)
  assume "desk_tree (lift_off ws wid d) = Some t'"
  with Some have "t' = t \<or> removeWindowFromDesktopTree (Some t) wid = Some t'"
    by (auto simp: lift_off_def split: if_splits)
  with Some node_ids_removeWindow [of t wid t'] show ?thesis by auto
qed

lemma fresh_in_hide_window: "fresh_in s u v \<Longrightarrow> fresh_in (hide_window s wid w) u v"
proof -
  have "session_node_ids (hide_window s wid w) \<subseteq> session_node_ids s"
  proof
    fix x assume "x \<in> session_node_ids (hide_window s wid w)"
    then obtain d t' where d: "d \<in> set (ses_desktops s)"
      "desk_tree (lift_off (ses_windows s) wid d) = Some t'" "x \<in> set (node_ids t')"
      by (auto simp: session_node_ids_def hide_window_def split: option.splits)
    with lift_off_tree [OF d(2)] show "x \<in> session_node_ids s"
      by (force simp: session_node_ids_def)
  qed
  then show "fresh_in s u v \<Longrightarrow> fresh_in (hide_window s wid w) u v" by (auto simp: fresh_in_def)
qed

lemma tiled_in_tree:
  assumes wf: "wf_session s" and w: "get_window s h = Some w" "\<not> win_minimized w" "win_mode w = Tile"
  obtains d t where "findDesktop s (win_desktopId w) = Some d" "desk_tree d = Some t" "wf_tile t"
    "h \<in> set (tree_items t)"
proof -
  have "findDesktop s (win_desktopId w) \<noteq> None"
    using wf_session_window(3) [OF wf w(1)] findDesktop_None_iff [of s "win_desktopId w"] by metis
  then obtain d where d: "findDesktop s (win_desktopId w) = Some d" by blast
  from findDesktop_Some [OF d] wf_sessionD(4) [OF wf] have "wf_desktop (ses_windows s) d" by blast
  with findDesktop_Some [OF d] window_shown [OF wf w(1,2)] w(3)
  have ok: "set (tree_ids d) = set (shown_ids (ses_windows s) (win_desktopId w) Tile)"
    "h \<in> set (shown_ids (ses_windows s) (win_desktopId w) Tile)"
    "case desk_tree d of None \<Rightarrow> True | Some t \<Rightarrow> wf_tile t" by (auto simp: wf_desktop_def desk_ok_def)
  then obtain t where "desk_tree d = Some t" by (cases "desk_tree d") (auto simp: tree_ids_def)
  with that [OF d this] ok show thesis by (simp add: tree_ids_def)
qed

lemma beside_target_exists:
  assumes "h \<in> set (tree_items t)"
  shows "findTilePaneById t (target_pane (beside_target ws t h wid)) \<noteq> None"
proof -
  from assms obtain hp where hp: "findTilePaneContaining t (\<lambda>i. i = h) = Some hp"
    using findTilePaneContaining_None_iff [of t h] by blast
  then show ?thesis
    using findTilePaneContaining_Some [OF hp]
    by (auto simp: beside_target_def findTilePaneById_None_iff split: option.split dest: find_Some_in)
qed

lemma merge_window_simps [simp]:
  "win_id (merge_window e w did) = win_id w" "win_desktopId (merge_window e w did) = did"
  "win_minimized (merge_window e w did) = False" "win_restorePlacement (merge_window e w did) = None"
  "win_mode (merge_window e w did) = win_mode w"
  by (simp_all add: merge_window_def)

lemma get_window_dock:
  assumes "distinct (map desk_id (ses_desktops s))" and "get_window s wid = Some w"
    and "findDesktop s did = Some td" "desk_tree td = Some t"
    and "findTilePaneById t (target_pane tgt) \<noteq> None"
  shows "get_window (dockWindowInDesktopTree s did wid tgt src u v) wid =
    Some (w\<lparr>win_desktopId := did, win_mode := Tile, win_minimized := False\<rparr>)"
proof -
  have "\<forall>t. desk_tree td = Some t \<longrightarrow> findTilePaneById t (target_pane tgt) \<noteq> None" using assms(4,5) by simp
  from dockWindowInDesktopTree_eq [OF assms(1-3) this] show ?thesis
    by (simp add: updateDesktop_def set_window_def rec_get_set)
qed

lemma wf_dock_beside:
  assumes wf: "wf_session s" and hub: "get_window s hubId = Some hub" "\<not> win_minimized hub" "win_mode hub = Tile"
    and ids: "hubId \<noteq> wid" "wid \<noteq> ''''" "win_id w = wid" "win_desktopId w = win_desktopId hub"
    and w: "win_restorePlacement w = None" and fr: "fresh_in s u v"
  defines "s2 \<equiv> hide_window s wid w"
  defines "tree \<equiv> Option.bind (findDesktop s2 (win_desktopId hub)) desk_tree"
  defines "r \<equiv> dockWindowInDesktopTree s2 (win_desktopId hub) wid
      (beside_target (ses_windows s2) (the tree) hubId wid) None u v"
  shows "tree \<noteq> None \<and> wf_session r \<and> (\<exists>x. get_window r wid = Some x \<and> \<not> win_minimized x)"
proof -
  let ?sH = "hide_window s wid (w\<lparr>win_minimized := True\<rparr>)"
  let ?s0 = "s\<lparr>ses_desktops := map (lift_off (ses_windows s) wid) (ses_desktops s)\<rparr>"
  have wfH: "wf_session ?sH"
    using ids w wf_session_window(3) [OF wf hub(1)] by (intro wf_hide_window [OF wf]) auto
  have hubH: "get_window ?sH hubId = Some hub" using hub(1) ids(1) by (simp add: hide_window_def rec_get_set)
  obtain td t where td: "findDesktop ?sH (win_desktopId hub) = Some td" "desk_tree td = Some t"
    and t: "hubId \<in> set (tree_items t)" by (rule tiled_in_tree [OF wfH hubH hub(2,3)])
  have same: "findDesktop s2 = findDesktop ?sH" "findDesktop ?s0 = findDesktop ?sH"
    by (simp_all add: s2_def hide_window_def findDesktop_def fun_eq_iff)
  then have tree: "tree = Some t" using td by (simp add: tree_def)
  note tgt = beside_target_exists [OF t, of "ses_windows s2" wid]
  have d0: "distinct (map desk_id (ses_desktops ?s0))" "distinct (map desk_id (ses_desktops s2))"
    using wf_sessionD(1) [OF wfH] by (simp_all add: hide_window_def s2_def)
  have hid: "hidden_on wid d" if "d \<in> set (ses_desktops ?s0)" for d
    using that hide_window_hidden [OF wf, of d wid w] by (simp add: hide_window_def)
  have "r = dockWindowInDesktopTree ?sH (win_desktopId hub) wid
      (beside_target (ses_windows s2) t hubId wid) None u v"
    unfolding r_def s2_def tree option.sel hide_window_eq [symmetric]
    by (rule dock_minimized_flag [OF d0(1) hid _ _ tgt [unfolded s2_def hide_window_eq [symmetric]]])
       (use td same in auto)
  moreover have "fresh_ids t u v"
    using fresh_in_tree [OF fresh_in_hide_window [OF fr] _ td(2)] findDesktop_Some [OF td(1)] by blast
  then have "dock_allowed ?sH (win_desktopId hub) wid None u v"
    using td fr w
    by (simp add: dock_allowed_def dock_source_ok_def hide_window_def rec_get_set fresh_in_def)
  ultimately have "wf_session r" using wf_dockWindowInDesktopTree [OF wfH] by simp
  moreover have "get_window s2 wid = Some w" by (simp add: s2_def hide_window_def rec_get_set)
  from get_window_dock [OF d0(2) this td(1) [folded same(1)] td(2) tgt, of None u v]
  have "\<exists>x. get_window r wid = Some x \<and> \<not> win_minimized x" by (simp add: r_def tree)
  ultimately show ?thesis using tree by simp
qed

lemma place_float_hide:
  assumes wf: "wf_session s" and ids: "wid \<noteq> ''''" "win_id w = wid" "win_desktopId w \<in> desktop_ids s"
    and w: "win_restorePlacement w = None" "\<not> win_minimized w" "win_mode w = Float"
  shows "\<exists>x. place_float (hide_window s wid w0) w = x \<and> get_window x wid = Some w \<and> wf_session (focusWindow x wid)"
proof -
  let ?ws = "rec_set wid w (ses_windows s)" and ?l = "lift_off (ses_windows s) wid"
  let ?pl = "\<lambda>d. if desk_id d = win_desktopId w
      then (?l d)\<lparr>desk_floating := without wid (desk_floating (?l d)) @ [wid]\<rparr>
      else (?l d)\<lparr>desk_floating := without wid (desk_floating (?l d))\<rparr>"
  let ?x = "place_float (hide_window s wid w0) w"
  have x: "?x = s\<lparr>ses_windows := ?ws, ses_desktops := map ?pl (ses_desktops s)\<rparr>"
    using ids by (simp add: place_float_def hide_window_def set_window_def comp_def Let_def)
  have "wf_session (s\<lparr>ses_windows := ?ws, ses_desktops := map ?pl (ses_desktops s)\<rparr>)"
  proof (rule wf_session_gen [OF wf])
    show "rec_wf ?ws" using wf_sessionD(2) [OF wf] by (rule rec_wf_set)
    show "list_all (wf_window (desktop_ids s)) ?ws"
      using wf_sessionD(3) [OF wf] by (rule windows_ok_set) (use ids w in \<open>simp add: wf_window_def\<close>)
    fix d
    assume d: "desk_ok (set (shown_ids (ses_windows s) (desk_id d) Float))
        (set (shown_ids (ses_windows s) (desk_id d) Tile)) d"
    note off = desk_ok_lift_off [OF d, of wid "ses_windows s"]
    have "without wid (desk_floating (?l d)) = desk_floating (?l d)"
      using off by (auto simp: without_def desk_ok_def intro!: filter_neq_id)
    with off show "desk_ok (set (shown_ids ?ws (desk_id d) Float)) (set (shown_ids ?ws (desk_id d) Tile)) (?pl d)
        \<and> desk_id (?pl d) = desk_id d"
      using w by (auto simp: shown_ids_set [OF wf_sessionD(2) [OF wf]] desk_ok_def tree_ids_def split: option.splits)
  qed
  then have "wf_session ?x" unfolding x .
  moreover have "get_window ?x wid = Some w" unfolding x by (simp add: rec_get_set)
  ultimately show ?thesis using w(2) by (auto intro!: wf_focusWindow)
qed

lemma wf_place_beside:
  assumes wf: "wf_session s" and hub: "get_window s hubId = Some hub" "\<not> win_minimized hub"
    and ids: "hubId \<noteq> win_id term" "win_id term \<noteq> ''''" and fr: "fresh_in s u v"
  shows "wf_session (place_beside s vp hubId hub term u v)"
proof -
  let ?wid = "win_id term" and ?did = "win_desktopId hub"
  let ?win = "merge_window (get_window s ?wid) term ?did"
  let ?s2 = "hide_window s ?wid ?win"
  let ?tree = "Option.bind (findDesktop ?s2 ?did) desk_tree"
  have eq: "place_beside s vp hubId hub term u v =
    focusWindow (if win_mode hub = Tile \<and> ?tree \<noteq> None
        then dockWindowInDesktopTree ?s2 ?did ?wid (beside_target (ses_windows ?s2) (the ?tree) hubId ?wid) None u v
        else place_float ?s2 (?win\<lparr>win_mode := Float, win_floatBounds := Some (beside_bounds hub vp)\<rparr>)) ?wid"
    unfolding place_beside_def Let_def merge_window_simps detach_existing [OF wf] ..
  show ?thesis
  proof (cases "win_mode hub = Tile")
    case True
    from wf_dock_beside [OF wf hub True ids _ _ _ fr, of ?win] show ?thesis
      unfolding eq using True by (auto intro!: wf_focusWindow)
  next
    case False
    from place_float_hide [OF wf ids(2), of "?win\<lparr>win_mode := Float, win_floatBounds := Some (beside_bounds hub vp)\<rparr>"]
      wf_session_window(3) [OF wf hub(1)] False
    show ?thesis unfolding eq by auto
  qed
qed

lemma restoreWindow_not_minimized:
  assumes "get_window s wid = Some w"
  shows "\<not> win_minimized (the (get_window (if win_minimized w then restoreWindow s wid u else s) wid))"
  using assms get_window_restoreWindow [OF assms, of u] by auto

lemma wf_focus_existing:
  assumes wf: "wf_session s" and e: "get_window s wid = Some e" and u: "u \<noteq> ''''"
  shows "wf_session (focus_existing s e u)"
proof -
  define s1 where "s1 = (if win_desktopId e \<noteq> ses_active s then switchDesktop s (win_desktopId e) else s)"
  have s1: "wf_session s1" "get_window s1 wid = Some e"
    using wf e wf_switchDesktop [OF wf] by (auto simp: s1_def)
  have "wf_session (if win_minimized e then restoreWindow s1 wid u else s1)"
    using s1 wf_restoreWindow [OF s1(1) u] by simp
  then have "wf_session (focusWindow (if win_minimized e then restoreWindow s1 wid u else s1) wid)"
    by (rule wf_focusWindow) (use restoreWindow_not_minimized [OF s1(2), of u] in auto)
  then show ?thesis
    unfolding focus_existing_def Let_def wf_session_window(1) [OF wf e] s1_def [symmetric] .
qed

definition place_terminal_allowed ::
  "os_session \<Rightarrow> string \<Rightarrow> os_window \<Rightarrow> terminal_action \<Rightarrow> string \<Rightarrow> string \<Rightarrow> bool"
where
  "place_terminal_allowed s hubId term action u v \<longleftrightarrow>
     win_id term \<noteq> '''' \<and> fresh_in s u v \<and>
     (case get_window s hubId of
        None \<Rightarrow> True
      | Some hub \<Rightarrow>
          (action = FocusExisting \<and> get_window s (win_id term) \<noteq> None) \<or>
          (\<not> win_minimized hub \<and> hubId \<noteq> win_id term))"

lemma wf_placeExistingTerminal:
  assumes wf: "wf_session (st_session st)"
    and al: "place_terminal_allowed (st_session st) hubId term action u v"
  shows "wf_session (st_session (fst (placeExistingTerminal st hubId term action u v)))"
proof (cases "get_window (st_session st) hubId")
  case None
  with wf show ?thesis by (simp add: placeExistingTerminal_def)
next
  case (Some hub)
  with al have al': "u \<noteq> ''''" "win_id term \<noteq> ''''" "fresh_in (st_session st) u v"
    "(action = FocusExisting \<and> get_window (st_session st) (win_id term) \<noteq> None) \<or>
     (\<not> win_minimized hub \<and> hubId \<noteq> win_id term)"
    by (simp_all add: place_terminal_allowed_def fresh_in_def)
  with wf Some wf_place_beside [OF wf Some _ _ al'(2,3)] wf_focus_existing [OF wf _ al'(1)]
  show ?thesis by (auto simp: placeExistingTerminal_def Let_def split: option.split)
qed

section \<open>The store as a machine of events\<close>

datatype window_event =
    SetViewport viewport
  | SetSession os_session
  | OpenWindow os_window "window_mode option" "window_mode option" "string option" string
  | CloseWindow string
  | FocusWindow string
  | SwitchDesktop string
  | MoveWindowToDesktop string string string
  | SetWindowMode string window_mode string
  | ToggleWindowMode string string
  | ToggleMaximizeWindow string string
  | MinimizeWindow string
  | RestoreWindow string string
  | RevealWindow string string
  | PresentWindowAsFloat string string
  | UpdateFloatBounds string float_bounds
  | DockWindow string string tile_dock_target "string option" string string
  | UpdateTreeSizes string string "real \<times> real"
  | AddDesktop "string option" "window_context option" nat
  | RemoveDesktop string "string option" "nat \<Rightarrow> string"
  | RenameDesktop string string
  | SetDefaultCtx string "window_context option"
  | BringWindowToFront string
  | SendWindowToBack string
  | ResizeFloatBounds string real real resize_direction
  | SelectPaneTab string string
  | MoveTabWithinPane string int int
  | UpdateAppState string "js_value js_record"
  | UpdateWindowContext string context_patch
  | SplitWindow string string "dock_edge option" string string
  | PlaceExistingTerminal string os_window terminal_action string string

fun window_step :: "window_store \<Rightarrow> window_event \<Rightarrow> window_store" where
  "window_step st (SetViewport v) = st\<lparr>st_viewport := v\<rparr>"
| "window_step st (SetSession s) = st\<lparr>st_session := s\<rparr>"
| "window_step st (OpenWindow w m setting did u) = store_openWindow st w m setting did u"
| "window_step st (CloseWindow wid) = fst (store_closeWindow st wid)"
| "window_step st (FocusWindow wid) = store_focusWindow st wid"
| "window_step st (SwitchDesktop did) = on_session st (\<lambda>s. switchDesktop s did)"
| "window_step st (MoveWindowToDesktop wid did u) = on_session st (\<lambda>s. moveWindowToDesktop s wid did u)"
| "window_step st (SetWindowMode wid m u) =
     on_session st (\<lambda>s. setWindowMode s wid m (Some (st_viewport st)) u)"
| "window_step st (ToggleWindowMode wid u) =
     on_session st (\<lambda>s. toggleWindowMode s wid (Some (st_viewport st)) u)"
| "window_step st (ToggleMaximizeWindow wid u) = on_session st (\<lambda>s. toggleMaximizeWindow s wid u)"
| "window_step st (MinimizeWindow wid) = on_session st (\<lambda>s. minimizeWindow s wid)"
| "window_step st (RestoreWindow wid u) = on_session st (\<lambda>s. restoreWindow s wid u)"
| "window_step st (RevealWindow wid u) = store_revealWindow st wid u"
| "window_step st (PresentWindowAsFloat wid did) = store_presentWindowAsFloat st wid did"
| "window_step st (UpdateFloatBounds wid b) =
     on_session st (\<lambda>s. updateFloatBounds s wid b (Some (st_viewport st)))"
| "window_step st (DockWindow did wid tgt src u v) =
     on_session st (\<lambda>s. dockWindowInDesktopTree s did wid tgt src u v)"
| "window_step st (UpdateTreeSizes did nid szs) = on_session st (\<lambda>s. updateDesktopTreeSizes s did nid szs)"
| "window_step st (AddDesktop name ctx now) = on_session st (\<lambda>s. addDesktop s name ctx now)"
| "window_step st (RemoveDesktop did sd us) = on_session st (\<lambda>s. removeDesktop s did sd us)"
| "window_step st (RenameDesktop did name) = on_session st (\<lambda>s. renameDesktop s did name)"
| "window_step st (SetDefaultCtx did ctx) = on_session st (\<lambda>s. setDefaultCtx s did ctx)"
| "window_step st (BringWindowToFront wid) = on_session st (\<lambda>s. bringWindowToFront s wid)"
| "window_step st (SendWindowToBack wid) = on_session st (\<lambda>s. sendWindowToBack s wid)"
| "window_step st (ResizeFloatBounds wid dx dy dir) = store_resizeFloatBounds st wid dx dy dir"
| "window_step st (SelectPaneTab pid wid) = on_session st (\<lambda>s. selectPaneTab s pid wid)"
| "window_step st (MoveTabWithinPane pid i j) = on_session st (\<lambda>s. moveTabWithinPane s pid i j)"
| "window_step st (UpdateAppState wid patch) = store_updateAppState st wid patch"
| "window_step st (UpdateWindowContext wid patch) = store_updateWindowContext st wid patch"
| "window_step st (SplitWindow wid tgt e u v) = on_session st (\<lambda>s. splitWindow s wid tgt e u v)"
| "window_step st (PlaceExistingTerminal hub w action u v) =
     fst (placeExistingTerminal st hub w action u v)"

text \<open>What the callers of the store have to respect: UUIDs are not empty (and fresh where they
  name tree nodes), a new window has a new id, and the operations that show a window in place
  are not applied to a minimized one.\<close>

definition visible_or_absent :: "os_session \<Rightarrow> string \<Rightarrow> bool" where
  "visible_or_absent s wid = (case get_window s wid of None \<Rightarrow> True | Some w \<Rightarrow> \<not> win_minimized w)"

fun window_allowed :: "window_store \<Rightarrow> window_event \<Rightarrow> bool" where
  "window_allowed st (SetSession s) = wf_session s"
| "window_allowed st (OpenWindow w m setting did u) =
     (get_window (st_session st) (win_id w) = None \<and> win_id w \<noteq> '''' \<and>
      win_restorePlacement w = None \<and> u \<noteq> '''')"
| "window_allowed st (FocusWindow wid) = visible_or_absent (st_session st) wid"
| "window_allowed st (MoveWindowToDesktop wid did u) = (u \<noteq> '''')"
| "window_allowed st (SetWindowMode wid m u) = (visible_or_absent (st_session st) wid \<and> u \<noteq> '''')"
| "window_allowed st (ToggleWindowMode wid u) = (visible_or_absent (st_session st) wid \<and> u \<noteq> '''')"
| "window_allowed st (ToggleMaximizeWindow wid u) = (u \<noteq> '''')"
| "window_allowed st (RestoreWindow wid u) = (u \<noteq> '''')"
| "window_allowed st (RevealWindow wid u) = (u \<noteq> '''')"
| "window_allowed st (DockWindow did wid tgt src u v) = dock_allowed (st_session st) did wid src u v"
| "window_allowed st (UpdateTreeSizes did nid szs) = (fst szs > 0 \<and> snd szs > 0)"
| "window_allowed st (AddDesktop name ctx now) =
     (new_desktop_id (st_session st) now \<notin> desktop_ids (st_session st))"
| "window_allowed st (RemoveDesktop did sd us) = uuids_ok (st_session st) us"
| "window_allowed st (BringWindowToFront wid) = visible_or_absent (st_session st) wid"
| "window_allowed st (SendWindowToBack wid) = visible_or_absent (st_session st) wid"
| "window_allowed st (SplitWindow wid tgt e u v) =
     (case get_window (st_session st) tgt of
        None \<Rightarrow> True | Some w \<Rightarrow> dock_allowed (st_session st) (win_desktopId w) wid None u v)"
| "window_allowed st (PlaceExistingTerminal hub w action u v) =
     place_terminal_allowed (st_session st) hub w action u v"
| "window_allowed st _ = True"

abbreviation store_inv :: "window_store \<Rightarrow> bool" where
  "store_inv st \<equiv> wf_session (st_session st)"

lemma visible_or_absentD: "visible_or_absent s wid \<Longrightarrow> get_window s wid = Some w \<Longrightarrow> \<not> win_minimized w"
  by (simp add: visible_or_absent_def)

lemma wf_store_session_ops:
  "store_inv st \<Longrightarrow> store_inv (fst (store_closeWindow st wid))"
  "store_inv st \<Longrightarrow> visible_or_absent (st_session st) wid \<Longrightarrow> store_inv (store_focusWindow st wid)"
  "store_inv st \<Longrightarrow> u \<noteq> '''' \<Longrightarrow> store_inv (store_revealWindow st wid u)"
  "store_inv st \<Longrightarrow> store_inv (store_presentWindowAsFloat st wid did)"
  "store_inv st \<Longrightarrow> store_inv (store_resizeFloatBounds st wid dx dy dir)"
  by (auto simp: store_closeWindow_def store_focusWindow_def store_revealWindow_def
      store_presentWindowAsFloat_def store_resizeFloatBounds_def recordWindowFocus_def
      wf_closeWindow wf_revealWindow wf_presentWindowAsFloat wf_updateFloatBounds split: option.split
      intro!: wf_focusWindow dest: visible_or_absentD)

lemma wf_store_window_ops:
  "store_inv st \<Longrightarrow> store_inv (store_updateAppState st wid patch)"
  "store_inv st \<Longrightarrow> store_inv (store_updateWindowContext st wid cp)"
  by (auto simp: store_updateAppState_def store_updateWindowContext_def wf_session_window_frame split: option.split)

lemma wf_store_openWindow:
  "store_inv st \<Longrightarrow> window_allowed st (OpenWindow w m setting did u) \<Longrightarrow>
     store_inv (store_openWindow st w m setting did u)"
  by (auto simp: store_openWindow_def Let_def intro!: wf_openWindow)

lemmas wf_store_ops = wf_store_session_ops wf_store_window_ops wf_store_openWindow
  wf_switchDesktop wf_moveWindowToDesktop wf_toggleMaximizeWindow wf_minimizeWindow wf_restoreWindow
  wf_updateFloatBounds wf_dockWindowInDesktopTree wf_updateDesktopTreeSizes wf_addDesktop
  wf_removeDesktop wf_renameDesktop wf_setDefaultCtx wf_selectPaneTab wf_moveTabWithinPane
  wf_placeExistingTerminal

lemma window_step_inv:
  assumes "store_inv st" and "window_allowed st e"
  shows "store_inv (window_step st e)"
proof (cases e)
  case (SetWindowMode wid m u)
  with assms show ?thesis by (auto intro!: wf_setWindowMode dest: visible_or_absentD)
next
  case (ToggleWindowMode wid u)
  with assms show ?thesis by (auto intro!: wf_toggleWindowMode dest: visible_or_absentD)
next
  case (BringWindowToFront wid)
  with assms show ?thesis by (auto intro!: wf_bringWindowToFront dest: visible_or_absentD)
next
  case (SendWindowToBack wid)
  with assms show ?thesis by (auto intro!: wf_sendWindowToBack dest: visible_or_absentD)
next
  case (SplitWindow wid tgt e' u v)
  with assms show ?thesis by (auto intro!: wf_splitWindow split: option.splits)
qed (use assms in \<open>simp_all add: wf_store_ops\<close>)

interpretation win_store: event_machine window_step window_allowed store_inv
  by unfold_locales (rule window_step_inv)

lemma initial_store_inv: "store_inv initial_store"
  by (simp add: initial_store_def wf_createDefaultOsSession)

end
