(* ===== verification/Window_Laws.thy ===== *)
theory Window_Laws
  imports Window_Store
begin

text \<open>
  What the window operations do, beyond keeping the placement invariant: how often a window is
  shown, what closing, minimizing, restoring, focusing, revealing and moving leave behind, and
  the laws of the floating geometry.
\<close>

section \<open>Counting placements\<close>

definition placements :: "os_session \<Rightarrow> string \<Rightarrow> nat" where
  "placements s wid =
     sum_list (map (\<lambda>d. count_list (desk_floating d) wid + count_list (tree_ids d) wid) (ses_desktops s))"

text \<open>The focused state of a window: its desktop has it focused, and it is the topmost float or
  the active tab of its pane.\<close>

definition in_focus :: "os_session \<Rightarrow> string \<Rightarrow> bool" where
  "in_focus s wid =
     (case get_window s wid of
        None \<Rightarrow> False
      | Some w \<Rightarrow>
          (case findDesktop s (win_desktopId w) of
             None \<Rightarrow> False
           | Some d \<Rightarrow>
               desk_focused d = Some wid \<and>
               (if win_mode w = Float then js_last (desk_floating d) = Some wid
                else (case desk_tree d of
                        None \<Rightarrow> False
                      | Some t \<Rightarrow>
                          (case findTilePaneContaining t (\<lambda>i. i = wid) of
                             None \<Rightarrow> False | Some p \<Rightarrow> active p = Some wid)))))"

lemma count_list_distinct: "distinct xs \<Longrightarrow> count_list xs x = (if x \<in> set xs then 1 else 0)"
  by (induction xs) auto

lemma sum_list_one:
  "distinct (map f xs) \<Longrightarrow>
     sum_list (map (\<lambda>x. if f x = y then n else 0) xs) = (if y \<in> f ` set xs then n else (0::nat))"
  by (induction xs) auto

lemma desk_ok_count:
  assumes "desk_ok F T d"
  shows "count_list (desk_floating d) wid = (if wid \<in> F then 1 else 0)"
    and "count_list (tree_ids d) wid = (if wid \<in> T then 1 else 0)"
proof -
  have "distinct (desk_floating d)" "set (desk_floating d) = F" "set (tree_ids d) = T"
    using assms by (auto simp: desk_ok_def)
  moreover have "distinct (tree_ids d)"
    using assms by (auto simp: desk_ok_def tree_ids_def wf_tile_def split: option.splits)
  ultimately show "count_list (desk_floating d) wid = (if wid \<in> F then 1 else 0)"
    and "count_list (tree_ids d) wid = (if wid \<in> T then 1 else 0)"
    by (simp_all add: count_list_distinct)
qed

lemma placements_known:
  assumes wf: "wf_session s" and w: "get_window s wid = Some w"
  shows "placements s wid = (if win_minimized w then 0 else 1)"
proof -
  note mem = shown_ids_member [OF wf_sessionD(2) [OF wf] w]
  have "count_list (desk_floating d) wid + count_list (tree_ids d) wid =
      (if desk_id d = win_desktopId w then (if win_minimized w then 0 else 1) else 0)"
    if d: "d \<in> set (ses_desktops s)" for d
    using desk_ok_count [OF wf_sessionD(4) [OF wf d, unfolded wf_desktop_def], of wid]
    by (cases "win_mode w") (auto simp: mem)
  then have "placements s wid =
      sum_list (map (\<lambda>d. if desk_id d = win_desktopId w then (if win_minimized w then 0 else 1) else 0)
        (ses_desktops s))"
    unfolding placements_def by (intro arg_cong [where f = sum_list] map_cong) auto
  also have "\<dots> = (if win_minimized w then 0 else 1)"
    using wf_sessionD(1) [OF wf] wf_session_window(3) [OF wf w]
    by (simp add: sum_list_one desktop_ids_def)
  finally show ?thesis .
qed

lemma placements_unknown:
  assumes wf: "wf_session s" and w: "get_window s wid = None"
  shows "placements s wid = 0"
proof -
  have "wid \<notin> set (shown_ids (ses_windows s) e m)" for e m
    using w by (simp add: set_shown_ids [OF wf_sessionD(2) [OF wf]])
  then show ?thesis
    using desk_ok_count [OF wf_sessionD(4) [OF wf, unfolded wf_desktop_def], of _ wid]
    by (simp add: placements_def cong: map_cong)
qed

lemma placements_eq:
  assumes "wf_session s"
  shows "placements s wid =
    (case get_window s wid of None \<Rightarrow> 0 | Some w \<Rightarrow> if win_minimized w then 0 else 1)"
  using placements_known [OF assms, of wid] placements_unknown [OF assms, of wid]
  by (cases "get_window s wid") simp_all

section \<open>Looking at an updated session\<close>

lemma find_map_same: "(\<And>x. P (f x) = P x) \<Longrightarrow> find P (map f xs) = map_option f (find P xs)"
  by (induction xs) auto

lemma findDesktop_updateDesktop:
  assumes "\<And>d. desk_id (f d) = desk_id d"
  shows "findDesktop (updateDesktop s did f) e =
    map_option (\<lambda>d. if desk_id d = did then f d else d) (findDesktop s e)"
  using find_map_same [of "\<lambda>d. desk_id d = e" "\<lambda>d. if desk_id d = did then f d else d"] assms
  by (simp add: findDesktop_def updateDesktop_def)

lemma findDesktop_set_window [simp]: "findDesktop (set_window wid w s) did = findDesktop s did"
  by (simp add: findDesktop_def set_window_def)

lemma desktop_ids_updateDesktop:
  "(\<And>d. desk_id (f d) = desk_id d) \<Longrightarrow> desktop_ids (updateDesktop s did f) = desktop_ids s"
  unfolding desktop_ids_alt updateDesktop_def
  by (simp add: comp_def if_distrib [of desk_id] cong: if_cong del: set_map)

lemma desktop_ids_set_window [simp]: "desktop_ids (set_window wid w s) = desktop_ids s"
  by (simp add: desktop_ids_def set_window_def)

lemma desktop_ids_lift_off [simp]:
  "desktop_ids (s\<lparr>ses_desktops := map (lift_off ws wid) (ses_desktops s)\<rparr>) = desktop_ids s"
  by (simp add: desktop_ids_def image_image)

lemma get_window_updateDesktop [simp]: "get_window (updateDesktop s did f) wid = get_window s wid"
  by (simp add: updateDesktop_def)

lemma get_window_set_window [simp]:
  "get_window (set_window wid w s) k = (if k = wid then Some w else get_window s k)"
  by (simp add: set_window_def rec_get_set)

lemma ses_active_updates [simp]:
  "ses_active (updateDesktop s did f) = ses_active s" "ses_active (set_window wid w s) = ses_active s"
  by (simp_all add: updateDesktop_def set_window_def)

lemma get_window_focusWindow [simp]: "get_window (focusWindow s wid) k = get_window s k"
  by (simp add: focusWindow_def Let_def split: option.split)

lemma ses_active_focusWindow [simp]: "ses_active (focusWindow s wid) = ses_active s"
  by (simp add: focusWindow_def Let_def split: option.split)

section \<open>Focus\<close>

lemma js_last_append [simp]: "js_last (xs @ [x]) = Some x"
  by (simp add: js_last_def)

lemma activate_in_tree_active:
  assumes wf: "wf_tile t" and x: "wid \<in> set (tree_items t)"
  shows "\<exists>t' p. activate_in_tree (Some t) wid = Some t' \<and>
    findTilePaneContaining t' (\<lambda>i. i = wid) = Some p \<and> active p = Some wid"
proof -
  from x obtain p where p: "findTilePaneContaining t (\<lambda>i. i = wid) = Some p"
    using findTilePaneContaining_None_iff [of t wid] by blast
  note q = findTilePaneContaining_Some [OF p]
  show ?thesis
  proof (cases "active p = Some wid")
    case True
    with p show ?thesis by (simp add: activate_in_tree_def)
  next
    case False
    let ?t = "updateTilePane t (pane_id p) (\<lambda>q. q\<lparr>active := Some wid\<rparr>)"
    have "wf_tile ?t" using q by (intro wf_tile_setActive [OF wf, where p = p]) auto
    moreover have "p\<lparr>active := Some wid\<rparr> \<in> set (collectTilePanes ?t)"
      using q by (force simp: panes_updateTilePane)
    ultimately have "findTilePaneContaining ?t (\<lambda>i. i = wid) = Some (p\<lparr>active := Some wid\<rparr>)"
      using q by (simp add: findTilePaneContaining_iff)
    with p False show ?thesis by (simp add: activate_in_tree_def)
  qed
qed

lemma shown_on_desktop:
  assumes wf: "wf_session s" and w: "get_window s wid = Some w" "\<not> win_minimized w"
  obtains d where "findDesktop s (win_desktopId w) = Some d"
    "win_mode w = Float \<longrightarrow> wid \<in> set (desk_floating d)"
    "win_mode w = Tile \<longrightarrow> (\<exists>t. desk_tree d = Some t \<and> wf_tile t \<and> wid \<in> set (tree_items t))"
proof -
  have "findDesktop s (win_desktopId w) \<noteq> None"
    using wf_session_window(3) [OF wf w(1)] findDesktop_None_iff [of s "win_desktopId w"] by metis
  then obtain d where d: "findDesktop s (win_desktopId w) = Some d" by blast
  show thesis
  proof (rule that [OF d])
    show "win_mode w = Float \<longrightarrow> wid \<in> set (desk_floating d)"
      using window_shown [OF wf w] findDesktop_Some [OF d] wf_sessionD(4) [OF wf, of d]
      by (auto simp: wf_desktop_def desk_ok_def)
    show "win_mode w = Tile \<longrightarrow> (\<exists>t. desk_tree d = Some t \<and> wf_tile t \<and> wid \<in> set (tree_items t))"
      using tiled_in_tree [OF wf w] d by (metis option.inject)
  qed
qed

lemma focusWindow_in_focus:
  assumes wf: "wf_session s" and w: "get_window s wid = Some w" "\<not> win_minimized w"
  shows "in_focus (focusWindow s wid) wid"
proof -
  obtain d where d: "findDesktop s (win_desktopId w) = Some d"
    and fl: "win_mode w = Float \<longrightarrow> wid \<in> set (desk_floating d)"
    and ti: "win_mode w = Tile \<longrightarrow> (\<exists>t. desk_tree d = Some t \<and> wf_tile t \<and> wid \<in> set (tree_items t))"
    by (rule shown_on_desktop [OF wf w])
  note did = findDesktop_Some [OF d]
  show ?thesis
  proof (cases "win_mode w")
    case Float
    with w d did fl show ?thesis
      by (auto simp: focusWindow_def in_focus_def Let_def findDesktop_updateDesktop)
  next
    case Tile
    from ti Tile obtain t where t: "desk_tree d = Some t" "wf_tile t" "wid \<in> set (tree_items t)" by blast
    obtain p where p: "findTilePaneContaining t (\<lambda>i. i = wid) = Some p"
      using findTilePaneContaining_None_iff [of t wid] t(3) by blast
    from activate_in_tree_active [OF t(2,3)] w d did t p Tile show ?thesis
      by (auto simp: focusWindow_def in_focus_def Let_def findDesktop_updateDesktop)
  qed
qed

section \<open>Closing, minimizing, restoring, revealing\<close>

lemma get_window_closeWindow:
  "get_window (closeWindow s wid) k = (if k = wid then None else get_window s k)"
  by (auto simp: closeWindow_def Let_def updateDesktop_def delete_conv' split: option.split)

text \<open>A window after minimizing: it remembers where it was.\<close>

definition minimized_form :: "os_window \<Rightarrow> os_window" where
  "minimized_form w =
     w\<lparr>win_minimized := True,
       win_restorePlacement := Some \<lparr>rp_mode = win_mode w, rp_desktopId = win_desktopId w,
                                     rp_floatBounds = win_floatBounds w\<rparr>\<rparr>"

lemma get_window_minimizeWindow:
  assumes "get_window s wid = Some w" and "\<not> win_minimized w"
  shows "get_window (minimizeWindow s wid) k = (if k = wid then Some (minimized_form w) else get_window s k)"
  using assms by (simp add: minimizeWindow_def minimized_form_def Let_def)

lemma get_window_restore_minimized:
  assumes "get_window s wid = Some w" and "win_minimized w"
  shows "get_window (restoreWindow s wid u) k = (if k = wid then Some (restored_window w) else get_window s k)"
  unfolding restoreWindow_minimized [OF assms] by simp

lemma restored_minimized_form:
  "\<not> win_minimized w \<Longrightarrow> restored_window (minimized_form w) = w\<lparr>win_restorePlacement := None\<rparr>"
  by (cases w) (auto simp: restored_window_def minimized_form_def split: option.split)

lemma findDesktop_switchDesktop [simp]: "findDesktop (switchDesktop s did) e = findDesktop s e"
  by (simp add: switchDesktop_def findDesktop_def)

lemma ses_active_switchDesktop:
  "did \<in> desktop_ids s \<Longrightarrow> ses_active (switchDesktop s did) = did"
  using findDesktop_None_iff [of s did] by (auto simp: switchDesktop_def)

lemma revealWindow_shows:
  assumes wf: "wf_session s" and w: "get_window s wid = Some w" and u: "u \<noteq> ''''"
  shows "in_focus (revealWindow s wid u) wid \<and>
    (\<exists>w'. get_window (revealWindow s wid u) wid = Some w' \<and> \<not> win_minimized w' \<and>
       ses_active (revealWindow s wid u) = win_desktopId w')"
proof -
  define s1 where "s1 = (if win_minimized w then restoreWindow s wid u else s)"
  have wf1: "wf_session s1" using wf wf_restoreWindow [OF wf u] by (simp add: s1_def)
  obtain w1 where w1: "get_window s1 wid = Some w1" "\<not> win_minimized w1"
    using get_window_restoreWindow [OF w, of u] w by (cases "win_minimized w") (auto simp: s1_def)
  have eq: "revealWindow s wid u = focusWindow (switchDesktop s1 (win_desktopId w1)) wid"
    using w w1 unfolding revealWindow_def Let_def s1_def by auto
  from focusWindow_in_focus [OF wf_switchDesktop [OF wf1, of "win_desktopId w1"], of wid w1] w1
    ses_active_switchDesktop [OF wf_session_window(3) [OF wf1 w1(1)]]
  show ?thesis unfolding eq by simp
qed

section \<open>Geometry\<close>

lemma clamp_position:
  assumes "vp_width v > 0" and "vp_height v > 0"
  shows "0 \<le> fb_x (clampFloatBounds b (Some v))" "fb_x (clampFloatBounds b (Some v)) \<le> max 0 (vp_width v - 50)"
    "0 \<le> fb_y (clampFloatBounds b (Some v))" "fb_y (clampFloatBounds b (Some v)) \<le> max 0 (vp_height v - 50)"
  using assms by (simp_all add: clampFloatBounds_def Let_def)

lemma clamp_no_viewport:
  "clampFloatBounds b None =
     b\<lparr>fb_width := max MIN_FLOAT_WIDTH (fb_width b), fb_height := max MIN_FLOAT_HEIGHT (fb_height b)\<rparr>"
  by (simp add: clampFloatBounds_def Let_def)

text \<open>The cascade: the slot index is a remainder, so it is not negative, and each coordinate stays
  between its base and its limit.\<close>

lemma cascade_coordinate:
  fixes base lim :: real
  assumes "base \<le> lim"
  shows "base \<le> min (base + of_int (int n mod max 1 m) * CASCADE_STEP) lim"
    and "min (base + of_int (int n mod max 1 m) * CASCADE_STEP) lim \<le> lim"
proof -
  have "0 \<le> int n mod max 1 m" by (rule pos_mod_sign) simp
  then have "0 \<le> of_int (int n mod max 1 m) * CASCADE_STEP" by (simp add: CASCADE_STEP_def)
  with assms show "base \<le> min (base + of_int (int n mod max 1 m) * CASCADE_STEP) lim" by simp
qed simp

lemma max_one_min: "min (max (1::int) a) (max 1 b) = max 1 (min a b)"
  by linarith

definition next_width :: "viewport \<Rightarrow> real" where
  "next_width v = min 720 (max 50 (max 100 (vp_width v) - 20))"

definition next_height :: "viewport \<Rightarrow> real" where
  "next_height v = min 520 (max 40 (max 80 (vp_height v) - 20))"

definition next_base_x :: "viewport \<Rightarrow> real" where
  "next_base_x v = min 60 (max 0 (max 100 (vp_width v) - next_width v))"

definition next_base_y :: "viewport \<Rightarrow> real" where
  "next_base_y v = min 60 (max 0 (max 80 (vp_height v) - next_height v))"

lemma next_bounds_form:
  "\<exists>n m. calculateNextFloatBounds s did (Some v) =
     \<lparr>fb_x = min (next_base_x v + of_int (int n mod max 1 m) * CASCADE_STEP)
               (max (next_base_x v) (max 100 (vp_width v) - 100)),
      fb_y = min (next_base_y v + of_int (int n mod max 1 m) * CASCADE_STEP)
               (max (next_base_y v) (max 80 (vp_height v) - 40)),
      fb_width = next_width v, fb_height = next_height v\<rparr>"
proof -
  let ?n = "length (case find (\<lambda>d. desk_id d = did) (ses_desktops s) of
               None \<Rightarrow> []
             | Some d \<Rightarrow>
                 filter (\<lambda>i. case rec_get (ses_windows s) i of
                               None \<Rightarrow> False
                             | Some w \<Rightarrow> \<not> win_minimized w \<and> win_floatBounds w \<noteq> None)
                   (desk_floating d))"
  let ?m = "min \<lfloor>(max (next_base_x v) (max 100 (vp_width v) - 100) - next_base_x v) / CASCADE_STEP\<rfloor>
                \<lfloor>(max (next_base_y v) (max 80 (vp_height v) - 40) - next_base_y v) / CASCADE_STEP\<rfloor>"
  have eq: "calculateNextFloatBounds s did (Some v) =
    (if ?n = 0 then \<lparr>fb_x = next_base_x v, fb_y = next_base_y v, fb_width = next_width v,
                     fb_height = next_height v\<rparr>
     else \<lparr>fb_x = min (next_base_x v + of_int (int ?n mod max 1 ?m) * CASCADE_STEP)
               (max (next_base_x v) (max 100 (vp_width v) - 100)),
           fb_y = min (next_base_y v + of_int (int ?n mod max 1 ?m) * CASCADE_STEP)
               (max (next_base_y v) (max 80 (vp_height v) - 40)),
           fb_width = next_width v, fb_height = next_height v\<rparr>)"
    unfolding calculateNextFloatBounds_def Let_def max_one_min option.case DEFAULT_FLOAT_BOUNDS_def
      float_bounds.select_convs next_base_x_def next_base_y_def next_width_def next_height_def ..
  show ?thesis
  proof (cases "?n = 0")
    case True
    then show ?thesis unfolding eq by (intro exI [of _ 0] exI [of _ 1]) simp
  next
    case False
    then show ?thesis unfolding eq if_not_P [OF False] by blast
  qed
qed

lemma next_bounds_range:
  fixes s :: os_session and v :: viewport and did :: string
  defines "b \<equiv> calculateNextFloatBounds s did (Some v)"
  shows "next_base_x v \<le> fb_x b \<and> fb_x b \<le> max (next_base_x v) (max 100 (vp_width v) - 100)"
    and "next_base_y v \<le> fb_y b \<and> fb_y b \<le> max (next_base_y v) (max 80 (vp_height v) - 40)"
    and "fb_width b = next_width v \<and> fb_height b = next_height v"
proof -
  obtain n m where "b = \<lparr>fb_x = min (next_base_x v + of_int (int n mod max 1 m) * CASCADE_STEP)
               (max (next_base_x v) (max 100 (vp_width v) - 100)),
      fb_y = min (next_base_y v + of_int (int n mod max 1 m) * CASCADE_STEP)
               (max (next_base_y v) (max 80 (vp_height v) - 40)),
      fb_width = next_width v, fb_height = next_height v\<rparr>"
    using next_bounds_form [of s did v] b_def by blast
  then show "next_base_x v \<le> fb_x b \<and> fb_x b \<le> max (next_base_x v) (max 100 (vp_width v) - 100)"
    and "next_base_y v \<le> fb_y b \<and> fb_y b \<le> max (next_base_y v) (max 80 (vp_height v) - 40)"
    and "fb_width b = next_width v \<and> fb_height b = next_height v"
    by (simp_all only: float_bounds.select_convs cascade_coordinate max.cobounded1 simp_thms)
qed

lemma resize_axis_west:
  "resizeFloatBounds b dx dy dir None =
     (let x = (if dir_w dir then drag_near_edge MIN_FLOAT_WIDTH (fb_x b) (fb_width b) dx
               else (fb_x b, if dir_e dir then fb_width b + dx else fb_width b));
          y = (if dir_n dir then drag_near_edge MIN_FLOAT_HEIGHT (fb_y b) (fb_height b) dy
               else (fb_y b, if dir_s dir then fb_height b + dy else fb_height b))
      in \<lparr>fb_x = fst x, fb_y = fst y, fb_width = max MIN_FLOAT_WIDTH (snd x),
          fb_height = max MIN_FLOAT_HEIGHT (snd y)\<rparr>)"
  by (cases dir) (simp_all add: resizeFloatBounds_def clamp_no_viewport Let_def dir_e_def dir_s_def
      dir_w_def dir_n_def split: prod.split)

section \<open>Presenting a window\<close>

lemma presentWindowAsFloat_shows:
  assumes wf: "wf_session s" and w: "get_window s wid = Some w" and did: "did \<in> desktop_ids s"
  shows "\<exists>w'. get_window (presentWindowAsFloat s wid did vp) wid = Some w' \<and> win_mode w' = Float \<and>
      win_desktopId w' = did \<and> \<not> win_minimized w' \<and> \<not> win_maximized w' \<and>
      ses_active (presentWindowAsFloat s wid did vp) = did \<and>
      in_focus (presentWindowAsFloat s wid did vp) wid"
proof (cases "win_mode w = Float \<and> win_desktopId w = did \<and> \<not> win_minimized w \<and> \<not> win_maximized w")
  case True
  let ?s1 = "if ses_active s \<noteq> did then switchDesktop s did else s"
  have s1: "wf_session ?s1" "get_window ?s1 wid = Some w" "ses_active ?s1 = did"
    using wf w wf_switchDesktop [OF wf] ses_active_switchDesktop [OF did] by auto
  have "presentWindowAsFloat s wid did vp = focusWindow ?s1 wid"
    using True w did by (simp add: presentWindowAsFloat_def desktop_exists)
  with True s1 focusWindow_in_focus [OF s1(1,2)] show ?thesis
    by (metis get_window_focusWindow ses_active_focusWindow)
next
  case False
  let ?s3 = "\<lambda>b. updateDesktop
      (set_window wid (presented_window s w did b)
        (s\<lparr>ses_desktops := map (lift_off (ses_windows s) wid) (ses_desktops s)\<rparr>)) did
      (\<lambda>d. d\<lparr>desk_floating := without wid (desk_floating d) @ [wid], desk_focused := Some wid\<rparr>)"
  obtain b where eq: "presentWindowAsFloat s wid did vp = focusWindow (switchDesktop (?s3 b) did) wid"
    using False w did
    unfolding presentWindowAsFloat_def Let_def removeWindowFromAllDesktopPlacements_eq [OF wf]
    by (simp add: desktop_exists presented_window_def)
  have get: "get_window (switchDesktop (?s3 b) did) wid = Some (presented_window s w did b)" by simp
  have "did \<in> desktop_ids (?s3 b)"
    using did by (simp add: desktop_ids_updateDesktop)
  from ses_active_switchDesktop [OF this] get
    focusWindow_in_focus [OF wf_switchDesktop [OF wf_present [OF wf w did]] get]
  show ?thesis unfolding eq by (simp add: presented_window_def)
qed

section \<open>The focus clock\<close>

definition clock_ok :: "window_store \<Rightarrow> bool" where
  "clock_ok st \<longleftrightarrow> (\<forall>(k, t) \<in> set (st_focusTimestamps st). 0 < t \<and> t \<le> st_focusCounter st)"

lemma clock_ok_record: "clock_ok st \<Longrightarrow> clock_ok (recordWindowFocus st wid)"
  using set_rec_set_subset [of wid "st_focusCounter st + 1" "st_focusTimestamps st"]
  by (fastforce simp: clock_ok_def recordWindowFocus_def)

lemma clock_ok_frame:
  "st_focusTimestamps st' = st_focusTimestamps st \<Longrightarrow> st_focusCounter st' = st_focusCounter st \<Longrightarrow>
     clock_ok st' = clock_ok st"
  by (simp add: clock_ok_def)

lemma window_step_clock:
  assumes "clock_ok st"
  shows "clock_ok (window_step st e)"
proof -
  have "(st_focusTimestamps (window_step st e) = st_focusTimestamps st \<and>
         st_focusCounter (window_step st e) = st_focusCounter st) \<or>
        (\<exists>wid. st_focusTimestamps (window_step st e) = st_focusTimestamps (recordWindowFocus st wid) \<and>
         st_focusCounter (window_step st e) = st_focusCounter (recordWindowFocus st wid))"
    by (cases e)
       (auto simp: store_openWindow_def store_closeWindow_def store_focusWindow_def store_revealWindow_def
         store_presentWindowAsFloat_def store_resizeFloatBounds_def store_updateAppState_def
         store_updateWindowContext_def placeExistingTerminal_def Let_def split: option.split)
  with assms clock_ok_record clock_ok_frame show ?thesis by metis
qed

interpretation focus_clock: event_machine window_step "\<lambda>_ _. True" clock_ok
  by unfold_locales (rule window_step_clock)

lemma timestamp_bound: "clock_ok st \<Longrightarrow> getWindowFocusTimestamp st wid \<le> st_focusCounter st"
  by (auto simp: clock_ok_def getWindowFocusTimestamp_def split: option.split dest!: map_of_SomeD)

lemma getWindowFocusTimestamp_record:
  "getWindowFocusTimestamp (recordWindowFocus st wid) k =
     (if k = wid then st_focusCounter st + 1 else getWindowFocusTimestamp st k)"
  by (simp add: getWindowFocusTimestamp_def recordWindowFocus_def rec_get_set)

end
