(* ===== verification/Tile_Codec.thy ===== *)
theory Tile_Codec
  imports Js_Value Tile_Tree
begin

text \<open>
  The JSON side of tile trees in \<^verbatim>\<open>packages/ui/src/lib/tile-tree.ts\<close>: the structural validators
  \<^verbatim>\<open>isValidTileNode\<close> and \<^verbatim>\<open>isValidLayoutNode\<close> on values of type \<^verbatim>\<open>unknown\<close>, and
  the persisted terminal layout (\<^verbatim>\<open>parsePersistedTerminalLayout\<close>,
  \<^verbatim>\<open>serializeTerminalLayout\<close>). \<open>encode_tile\<close> is the object a typed tree is in memory and
  \<open>decode_tile\<close> reads such an object back. A stored text is represented by what
  \<^verbatim>\<open>JSON.parse\<close> makes of it: a value, or the exception it throws.
\<close>

datatype raw_text = Corrupt string | Json js_value

section \<open>Trees as objects\<close>

fun encode_direction :: "split_direction \<Rightarrow> js_value" where
  "encode_direction Horizontal = JString ''horizontal''"
| "encode_direction Vertical = JString ''vertical''"

definition encode_active :: "string option \<Rightarrow> js_value" where
  "encode_active a = (case a of None \<Rightarrow> JNull | Some x \<Rightarrow> JString x)"

fun encode_tile :: "string tile_node \<Rightarrow> js_value" where
  "encode_tile (Pane p) =
     JObject [(''type'', JString ''pane''), (''id'', JString (pane_id p)),
              (''items'', JArray (map JString (items p))), (''active'', encode_active (active p))]"
| "encode_tile (Split i d szs l r) =
     JObject [(''type'', JString ''split''), (''id'', JString i), (''direction'', encode_direction d),
              (''sizes'', JArray [JNumber (Finite (fst szs)), JNumber (Finite (snd szs))]),
              (''children'', JArray [encode_tile l, encode_tile r])]"

fun encode_layout :: "layout_node \<Rightarrow> js_value" where
  "encode_layout (LPane p) =
     JObject [(''type'', JString ''pane''), (''id'', JString (lp_id p)),
              (''sessionIds'', JArray (map JString (sessionIds p))),
              (''activeSessionId'', encode_active (activeSessionId p))]"
| "encode_layout (LSplit i d szs l r) =
     JObject [(''type'', JString ''split''), (''id'', JString i), (''direction'', encode_direction d),
              (''sizes'', JArray [JNumber (Finite (fst szs)), JNumber (Finite (snd szs))]),
              (''children'', JArray [encode_layout l, encode_layout r])]"

section \<open>Validators\<close>

text \<open>\<open>typeof v === "string" && v\<close>\<close>

definition is_nonempty_string :: "js_value \<Rightarrow> bool" where
  "is_nonempty_string v \<longleftrightarrow> is_string v \<and> truthy v"

text \<open>The two nested loops over the items of a pane.\<close>

fun no_equal_pair :: "js_value list \<Rightarrow> bool" where
  "no_equal_pair [] = True"
| "no_equal_pair (x # xs) = (list_all (\<lambda>y. \<not> strict_eq x y) xs \<and> no_equal_pair xs)"

definition is_direction :: "js_value \<Rightarrow> bool" where
  "is_direction v \<longleftrightarrow> strict_eq v (JString ''horizontal'') \<or> strict_eq v (JString ''vertical'')"

definition valid_pane_items :: "(js_value \<Rightarrow> bool) \<Rightarrow> js_value \<Rightarrow> js_value \<Rightarrow> bool" where
  "valid_pane_items isItemValid its act =
     (case its of
        JArray xs \<Rightarrow>
          list_all isItemValid xs \<and> no_equal_pair xs \<and>
          (if xs \<noteq> [] then act \<noteq> JNull \<and> list_ex (\<lambda>x. strict_eq x act) xs else act = JNull)
      | _ \<Rightarrow> False)"

text \<open>The elements of an array of exactly two.\<close>

fun js_pair :: "js_value \<Rightarrow> (js_value \<times> js_value) option" where
  "js_pair (JArray [a, b]) = Some (a, b)"
| "js_pair _ = None"

lemma js_pair_Some: "js_pair v = Some (a, b) \<longleftrightarrow> v = JArray [a, b]"
  by (cases v rule: js_pair.cases) auto

lemma js_pair_get_size [termination_simp]:
  assumes "js_pair (js_get v k) = Some (a, b)"
  shows "size a < size v" "size b < size v"
  using assms size_js_get_less [of v k "[a, b]"] by (auto simp: js_pair_Some)

lemma js_pair_get_size' [termination_simp]:
  assumes "Some (a, b) = js_pair (js_get v k)"
  shows "size a < size v" "size b < size v"
  using js_pair_get_size [OF assms [symmetric]] by simp_all

fun isValidTileNode :: "(js_value \<Rightarrow> bool) \<Rightarrow> js_value \<Rightarrow> bool" where
  "isValidTileNode isItemValid node =
     (if \<not> is_object node then False
      else if strict_eq (js_get node ''type'') (JString ''pane'')
      then is_nonempty_string (js_get node ''id'') \<and>
           valid_pane_items isItemValid (js_get node ''items'') (js_get node ''active'')
      else if strict_eq (js_get node ''type'') (JString ''split'')
      then is_nonempty_string (js_get node ''id'') \<and> is_direction (js_get node ''direction'') \<and>
           (case js_pair (js_get node ''sizes'') of
              None \<Rightarrow> False | Some (a, b) \<Rightarrow> is_positive_number a \<and> is_positive_number b) \<and>
           (case js_pair (js_get node ''children'') of
              None \<Rightarrow> False
            | Some (l, r) \<Rightarrow> isValidTileNode isItemValid l \<and> isValidTileNode isItemValid r)
      else False)"

definition valid_layout_pane :: "js_value \<Rightarrow> js_value \<Rightarrow> bool" where
  "valid_layout_pane ids act =
     (case ids of
        JArray xs \<Rightarrow>
          list_all is_string xs \<and> (act = JNull \<or> is_string act) \<and>
          (act \<noteq> JNull \<and> xs \<noteq> [] \<longrightarrow> list_ex (\<lambda>x. strict_eq x act) xs)
      | _ \<Rightarrow> False)"

fun isValidLayoutNode :: "js_value \<Rightarrow> bool" where
  "isValidLayoutNode n =
     (if \<not> is_object n then False
      else if \<not> is_nonempty_string (js_get n ''id'') then False
      else if strict_eq (js_get n ''type'') (JString ''pane'')
      then valid_layout_pane (js_get n ''sessionIds'') (js_get n ''activeSessionId'')
      else if strict_eq (js_get n ''type'') (JString ''split'')
      then is_direction (js_get n ''direction'') \<and>
           (case js_pair (js_get n ''sizes'') of
              None \<Rightarrow> False | Some (a, b) \<Rightarrow> is_positive_number a \<and> is_positive_number b) \<and>
           (case js_pair (js_get n ''children'') of
              None \<Rightarrow> False | Some (l, r) \<Rightarrow> isValidLayoutNode l \<and> isValidLayoutNode r)
      else False)"

declare isValidTileNode.simps [simp del] isValidLayoutNode.simps [simp del]

section \<open>Reading typed trees\<close>

fun decode_string :: "js_value \<Rightarrow> string option" where
  "decode_string (JString s) = Some s"
| "decode_string _ = None"

fun decode_strings :: "js_value \<Rightarrow> string list option" where
  "decode_strings (JArray xs) = those (map decode_string xs)"
| "decode_strings _ = None"

definition decode_nullable :: "js_value \<Rightarrow> string option option" where
  "decode_nullable v = (if v = JNull then Some None else map_option Some (decode_string v))"

definition decode_direction :: "js_value \<Rightarrow> split_direction option" where
  "decode_direction v =
     (if v = JString ''horizontal'' then Some Horizontal
      else if v = JString ''vertical'' then Some Vertical else None)"

fun decode_real :: "js_value \<Rightarrow> real option" where
  "decode_real (JNumber (Finite x)) = Some x"
| "decode_real _ = None"

definition decode_sizes :: "js_value \<Rightarrow> (real \<times> real) option" where
  "decode_sizes v =
     (case js_pair v of
        None \<Rightarrow> None
      | Some (a, b) \<Rightarrow>
          (case (decode_real a, decode_real b) of (Some x, Some y) \<Rightarrow> Some (x, y) | _ \<Rightarrow> None))"

fun decode_tile :: "js_value \<Rightarrow> string tile_node option" where
  "decode_tile v =
     (if js_get v ''type'' = JString ''pane''
      then (case (decode_string (js_get v ''id''), decode_strings (js_get v ''items''),
                  decode_nullable (js_get v ''active'')) of
              (Some i, Some its, Some a) \<Rightarrow> Some (Pane \<lparr>pane_id = i, items = its, active = a\<rparr>)
            | _ \<Rightarrow> None)
      else if js_get v ''type'' = JString ''split''
      then (case (decode_string (js_get v ''id''), decode_direction (js_get v ''direction''),
                  decode_sizes (js_get v ''sizes''), js_pair (js_get v ''children'')) of
              (Some i, Some d, Some szs, Some (l, r)) \<Rightarrow>
                (case (decode_tile l, decode_tile r) of
                   (Some t1, Some t2) \<Rightarrow> Some (Split i d szs t1 t2) | _ \<Rightarrow> None)
            | _ \<Rightarrow> None)
      else None)"

fun decode_layout :: "js_value \<Rightarrow> layout_node option" where
  "decode_layout v =
     (if js_get v ''type'' = JString ''pane''
      then (case (decode_string (js_get v ''id''), decode_strings (js_get v ''sessionIds''),
                  decode_nullable (js_get v ''activeSessionId'')) of
              (Some i, Some its, Some a) \<Rightarrow>
                Some (LPane \<lparr>lp_id = i, sessionIds = its, activeSessionId = a\<rparr>)
            | _ \<Rightarrow> None)
      else if js_get v ''type'' = JString ''split''
      then (case (decode_string (js_get v ''id''), decode_direction (js_get v ''direction''),
                  decode_sizes (js_get v ''sizes''), js_pair (js_get v ''children'')) of
              (Some i, Some d, Some szs, Some (l, r)) \<Rightarrow>
                (case (decode_layout l, decode_layout r) of
                   (Some t1, Some t2) \<Rightarrow> Some (LSplit i d szs t1 t2) | _ \<Rightarrow> None)
            | _ \<Rightarrow> None)
      else None)"

declare decode_tile.simps [simp del] decode_layout.simps [simp del]

section \<open>The persisted terminal layout\<close>

text \<open>The payload of the persisted layout carries its version; both known versions are read.\<close>

definition parsePersistedTerminalLayout :: "raw_text option \<Rightarrow> string tile_node option" where
  "parsePersistedTerminalLayout raw =
     (case raw of
        None \<Rightarrow> None
      | Some (Corrupt _) \<Rightarrow> None
      | Some (Json parsed) \<Rightarrow>
          if \<not> is_object parsed then None
          else if js_get parsed ''version'' \<noteq> JNumber (Finite 1) \<and>
                  js_get parsed ''version'' \<noteq> JNumber (Finite 2) then None
          else if \<not> isValidLayoutNode (js_get parsed ''root'') then None
          else (case decode_layout (js_get parsed ''root'') of
                  None \<Rightarrow> None
                | Some n \<Rightarrow>
                    let tileRoot = layoutNodeToTileNode n
                    in if isValidTileNode is_string (encode_tile tileRoot) then Some tileRoot
                       else None))"

definition serializeTerminalLayout :: "string tile_node \<Rightarrow> nat \<Rightarrow> raw_text" where
  "serializeTerminalLayout tree version =
     Json (JObject [(''version'', JNumber (Finite (of_nat version))),
                    (''root'', encode_layout (tileNodeToLayoutNode tree))])"

section \<open>The validators on typed trees\<close>

fun tile_valid :: "(string \<Rightarrow> bool) \<Rightarrow> string tile_node \<Rightarrow> bool" where
  "tile_valid ok (Pane p) =
     (pane_id p \<noteq> '''' \<and> list_all ok (items p) \<and> distinct (items p) \<and>
      (case active p of None \<Rightarrow> items p = [] | Some a \<Rightarrow> a \<in> set (items p)))"
| "tile_valid ok (Split i d szs l r) =
     (i \<noteq> '''' \<and> fst szs > 0 \<and> snd szs > 0 \<and> tile_valid ok l \<and> tile_valid ok r)"

fun layout_valid :: "layout_node \<Rightarrow> bool" where
  "layout_valid (LPane p) =
     (lp_id p \<noteq> '''' \<and>
      (case activeSessionId p of
         None \<Rightarrow> True | Some a \<Rightarrow> sessionIds p = [] \<or> a \<in> set (sessionIds p)))"
| "layout_valid (LSplit i d szs l r) =
     (i \<noteq> '''' \<and> fst szs > 0 \<and> snd szs > 0 \<and> layout_valid l \<and> layout_valid r)"

lemma decode_strings_map [simp]: "those (map (decode_string \<circ> JString) xs) = Some xs"
  by (induction xs) auto

lemma decode_strings_Some: "decode_strings v = Some xs \<longleftrightarrow> v = JArray (map JString xs)"
proof
  show "v = JArray (map JString xs)" if "decode_strings v = Some xs"
  proof (cases v)
    case (JArray ys)
    with that have "those (map decode_string ys) = Some xs" by simp
    then have "ys = map JString xs"
    proof (induction ys arbitrary: xs)
      case (Cons y ys)
      then show ?case by (cases y) (auto split: option.splits)
    qed simp
    with JArray show ?thesis by simp
  qed (use that in auto)
qed simp

lemma decode_string_Some [simp]: "decode_string v = Some s \<longleftrightarrow> v = JString s"
  by (cases v) auto

lemma decode_strings_None: "those (map decode_string xs) = None \<longleftrightarrow> \<not> list_all is_string xs"
proof (induction xs)
  case (Cons x xs)
  then show ?case by (cases x) auto
qed simp

lemma no_equal_pair_strings [simp]: "no_equal_pair (map JString xs) = distinct xs"
  by (induction xs) (auto simp: list_all_iff)

lemma is_nonempty_string_iff: "is_nonempty_string v \<longleftrightarrow> (\<exists>s. v = JString s \<and> s \<noteq> '''')"
  by (cases v) (auto simp: is_nonempty_string_def)

lemma encode_active_eq [simp]:
  "encode_active a = JNull \<longleftrightarrow> a = None" "encode_active a = JString s \<longleftrightarrow> a = Some s"
  by (auto simp: encode_active_def split: option.splits)

lemma decode_nullable_encode [simp]: "decode_nullable (encode_active a) = Some a"
  by (auto simp: decode_nullable_def encode_active_def split: option.split)

lemma decode_direction_encode [simp]: "decode_direction (encode_direction d) = Some d"
  by (cases d) (auto simp: decode_direction_def)

lemma decode_sizes_encode [simp]:
  "decode_sizes (JArray [JNumber (Finite a), JNumber (Finite b)]) = Some (a, b)"
  by (simp add: decode_sizes_def)

lemma decode_encode_tile [simp]: "decode_tile (encode_tile t) = Some t"
  by (induction t) (auto simp: decode_tile.simps [of "JObject _"])

lemma decode_encode_layout [simp]: "decode_layout (encode_layout n) = Some n"
  by (induction n) (auto simp: decode_layout.simps [of "JObject _"])

lemma is_direction_iff: "is_direction v \<longleftrightarrow> decode_direction v \<noteq> None"
  by (auto simp: is_direction_def decode_direction_def)

lemma positive_pair_iff:
  "(case js_pair v of None \<Rightarrow> False | Some (a, b) \<Rightarrow> is_positive_number a \<and> is_positive_number b) \<longleftrightarrow>
     (case decode_sizes v of None \<Rightarrow> False | Some (x, y) \<Rightarrow> x > 0 \<and> y > 0)"
proof -
  have "is_positive_number a \<longleftrightarrow> (case decode_real a of None \<Rightarrow> False | Some x \<Rightarrow> x > 0)" for a
    by (cases a rule: decode_real.cases) auto
  then show ?thesis by (auto simp: decode_sizes_def split: option.splits)
qed

lemma valid_pane_items_iff:
  assumes "\<And>v. ok v \<Longrightarrow> is_string v"
  shows "valid_pane_items ok its act \<longleftrightarrow>
    (case (decode_strings its, decode_nullable act) of
       (Some xs, Some a) \<Rightarrow>
         list_all (\<lambda>s. ok (JString s)) xs \<and> distinct xs \<and>
         (case a of None \<Rightarrow> xs = [] | Some x \<Rightarrow> x \<in> set xs)
     | _ \<Rightarrow> False)"
proof (cases its)
  case (JArray ys)
  show ?thesis
  proof (cases "decode_strings its")
    case None
    then have "\<not> list_all is_string ys" using JArray by (simp add: decode_strings_None)
    then have "\<not> list_all ok ys" using assms by (auto simp: list_all_iff)
    with None JArray show ?thesis by (simp add: valid_pane_items_def)
  next
    case (Some xs)
    then have its: "its = JArray (map JString xs)" by (simp add: decode_strings_Some)
    show ?thesis
      by (cases act)
         (auto simp: valid_pane_items_def its decode_nullable_def list_all_iff list_ex_iff)
  qed
qed (simp_all add: valid_pane_items_def)

lemma isValidTileNode_decode:
  assumes "\<And>v. ok v \<Longrightarrow> is_string v"
  shows "isValidTileNode ok v \<longleftrightarrow>
    (case decode_tile v of None \<Rightarrow> False | Some t \<Rightarrow> tile_valid (\<lambda>s. ok (JString s)) t)"
proof (induction v rule: measure_induct_rule [of size])
  case (less v)
  have ob: "js_get v k = JString s \<Longrightarrow> is_object v" for k s by (cases v) auto
  consider (pane) "js_get v ''type'' = JString ''pane''" | (split) "js_get v ''type'' = JString ''split''"
    | (other) "js_get v ''type'' \<noteq> JString ''pane''" "js_get v ''type'' \<noteq> JString ''split''" by blast
  then show ?case
  proof cases
    case pane
    with ob show ?thesis
      by (auto simp: isValidTileNode.simps [of ok v] decode_tile.simps [of v] is_nonempty_string_iff
          valid_pane_items_iff [OF assms] split: option.splits)
  next
    case split
    show ?thesis
    proof (cases "js_pair (js_get v ''children'')")
      case None
      with split show ?thesis
        by (auto simp: isValidTileNode.simps [of ok v] decode_tile.simps [of v] split: option.splits)
    next
      case (Some lr)
      obtain l r where lr: "lr = (l, r)" by (cases lr)
      note IH = js_pair_get_size [OF Some [unfolded lr], THEN less.IH]
      have main: "isValidTileNode ok v \<longleftrightarrow> is_nonempty_string (js_get v ''id'') \<and>
          decode_direction (js_get v ''direction'') \<noteq> None \<and>
          (case decode_sizes (js_get v ''sizes'') of None \<Rightarrow> False | Some (x, y) \<Rightarrow> x > 0 \<and> y > 0) \<and>
          isValidTileNode ok l \<and> isValidTileNode ok r"
        using split ob Some lr
        by (simp add: isValidTileNode.simps [of ok v] is_direction_iff positive_pair_iff)
      show ?thesis
      proof (cases "\<exists>i d szs. decode_string (js_get v ''id'') = Some i \<and>
          decode_direction (js_get v ''direction'') = Some d \<and> decode_sizes (js_get v ''sizes'') = Some szs")
        case True
        then obtain i d szs where ids: "decode_string (js_get v ''id'') = Some i"
          "decode_direction (js_get v ''direction'') = Some d" "decode_sizes (js_get v ''sizes'') = Some szs" by blast
        from IH ids Some lr split main show ?thesis
          by (auto simp: decode_tile.simps [of v] is_nonempty_string_iff split: option.splits)
      next
        case False
        with main split show ?thesis
          by (auto simp: decode_tile.simps [of v] is_nonempty_string_iff split: option.splits prod.splits)
      qed
    qed
  next
    case other
    then show ?thesis by (simp add: isValidTileNode.simps [of ok v] decode_tile.simps [of v])
  qed
qed

lemma valid_layout_pane_iff:
  "valid_layout_pane its act \<longleftrightarrow>
    (case (decode_strings its, decode_nullable act) of
       (Some xs, Some a) \<Rightarrow> (case a of None \<Rightarrow> True | Some x \<Rightarrow> xs = [] \<or> x \<in> set xs)
     | _ \<Rightarrow> False)"
proof (cases its)
  case (JArray ys)
  show ?thesis
  proof (cases "decode_strings its")
    case None
    then have "\<not> list_all is_string ys" using JArray by (simp add: decode_strings_None)
    with None JArray show ?thesis by (simp add: valid_layout_pane_def)
  next
    case (Some xs)
    then have its: "its = JArray (map JString xs)" by (simp add: decode_strings_Some)
    show ?thesis
      by (cases act) (auto simp: valid_layout_pane_def its decode_nullable_def list_all_iff list_ex_iff)
  qed
qed (simp_all add: valid_layout_pane_def)

lemma isValidLayoutNode_decode:
  "isValidLayoutNode v \<longleftrightarrow> (case decode_layout v of None \<Rightarrow> False | Some n \<Rightarrow> layout_valid n)"
proof (induction v rule: measure_induct_rule [of size])
  case (less v)
  have ob: "js_get v k = JString s \<Longrightarrow> is_object v" for k s by (cases v) auto
  consider (pane) "js_get v ''type'' = JString ''pane''" | (split) "js_get v ''type'' = JString ''split''"
    | (other) "js_get v ''type'' \<noteq> JString ''pane''" "js_get v ''type'' \<noteq> JString ''split''" by blast
  then show ?case
  proof cases
    case pane
    with ob show ?thesis
      by (auto simp: isValidLayoutNode.simps [of v] decode_layout.simps [of v] is_nonempty_string_iff
          valid_layout_pane_iff split: option.splits)
  next
    case split
    show ?thesis
    proof (cases "js_pair (js_get v ''children'')")
      case None
      with split show ?thesis
        by (auto simp: isValidLayoutNode.simps [of v] decode_layout.simps [of v] split: option.splits)
    next
      case (Some lr)
      obtain l r where lr: "lr = (l, r)" by (cases lr)
      note IH = js_pair_get_size [OF Some [unfolded lr], THEN less.IH]
      have main: "isValidLayoutNode v \<longleftrightarrow> is_nonempty_string (js_get v ''id'') \<and>
          decode_direction (js_get v ''direction'') \<noteq> None \<and>
          (case decode_sizes (js_get v ''sizes'') of None \<Rightarrow> False | Some (x, y) \<Rightarrow> x > 0 \<and> y > 0) \<and>
          isValidLayoutNode l \<and> isValidLayoutNode r"
        using split ob Some lr
        by (simp add: isValidLayoutNode.simps [of v] is_direction_iff positive_pair_iff)
      from IH main Some lr split show ?thesis
        by (cases "decode_string (js_get v ''id'')"; cases "decode_direction (js_get v ''direction'')";
            cases "decode_sizes (js_get v ''sizes'')")
           (auto simp: decode_layout.simps [of v] is_nonempty_string_iff split: option.splits)
    qed
  next
    case other
    then show ?thesis by (simp add: isValidLayoutNode.simps [of v] decode_layout.simps [of v])
  qed
qed

lemma tile_valid_layout: "tile_valid ok t \<Longrightarrow> layout_valid (tileNodeToLayoutNode t)"
  by (induction t) (auto split: option.splits)

lemma isValidTileNode_encode:
  "isValidTileNode is_string (encode_tile t) \<longleftrightarrow> tile_valid (\<lambda>_. True) t"
  by (simp add: isValidTileNode_decode)

text \<open>A well-formed tree in the sense of the tree operations is accepted by the validator.\<close>

lemma wf_tile_valid: "wf_tile t \<Longrightarrow> list_all ok (tree_items t) \<Longrightarrow> tile_valid ok t"
proof (induction t)
  case (Pane p)
  then show ?case by (auto simp: wf_tile_def wf_pane_def tree_items_def split: option.splits)
next
  case (Split i d szs l r)
  then show ?case by (auto simp: wf_tile_def tree_items_def)
qed

lemma parse_serialize:
  assumes "ver = 1 \<or> ver = 2"
  shows "parsePersistedTerminalLayout (Some (serializeTerminalLayout t ver)) =
    (if tile_valid (\<lambda>_. True) t then Some t else None)"
  using assms tile_valid_layout [of "\<lambda>_. True" t]
  by (auto simp: parsePersistedTerminalLayout_def serializeTerminalLayout_def isValidLayoutNode_decode
      isValidTileNode_encode layout_codec_roundtrip)

lemma parse_sound:
  "parsePersistedTerminalLayout raw = Some t \<Longrightarrow> tile_valid (\<lambda>_. True) t"
  by (auto simp: parsePersistedTerminalLayout_def isValidTileNode_encode Let_def
      split: option.splits raw_text.splits if_splits)

end
