(* ===== verification/App_Registry.thy ===== *)
theory App_Registry
  imports Window_Model
begin

text \<open>
  The application registry \<^verbatim>\<open>packages/ui/src/os/app-registry.ts\<close>: the manifest of every
  application, the test for known application ids, and the lookup of the window an application
  reuses when it is opened again, which depends on how the application is instanced.
\<close>

datatype instancing =
    SingleInstance | MultiInstance | ProfileInstance | ProjectInstance | WorktreeInstance | TupleInstance

datatype minimum_ctx = CtxNone | CtxProfile | CtxProject

record app_manifest =
  app_id :: os_app_id
  app_displayName :: string
  app_instancing :: instancing
  app_minimumCtx :: minimum_ctx
  app_defaultPlacement :: window_mode
  app_minWidth :: real
  app_minHeight :: real
  app_intents :: "string list"

fun app_id_name :: "os_app_id \<Rightarrow> string" where
  "app_id_name Terminals = ''terminals''"
| "app_id_name Editor = ''editor''"
| "app_id_name Browser = ''browser''"
| "app_id_name Files = ''files''"
| "app_id_name Search = ''search''"
| "app_id_name Changes = ''changes''"
| "app_id_name Git = ''git''"
| "app_id_name Conflict_resolver = ''conflict-resolver''"
| "app_id_name Session_changes = ''session-changes''"
| "app_id_name Workflow_plans = ''workflow-plans''"
| "app_id_name Ports_tunnels = ''ports-tunnels''"
| "app_id_name Project_info = ''project-info''"
| "app_id_name Agent_store = ''agent-store''"
| "app_id_name Settings = ''settings''"
| "app_id_name System_monitor = ''system-monitor''"
| "app_id_name Agent_hub = ''agent-hub''"
| "app_id_name Recipes = ''recipes''"

fun APP_MANIFESTS :: "os_app_id \<Rightarrow> app_manifest" where
  "APP_MANIFESTS Terminals =
     \<lparr>app_id = Terminals, app_displayName = ''Terminals'', app_instancing = MultiInstance,
      app_minimumCtx = CtxProfile, app_defaultPlacement = Float, app_minWidth = 320, app_minHeight = 240,
      app_intents = [''terminal:open'', ''terminal:focus'']\<rparr>"
| "APP_MANIFESTS Editor =
     \<lparr>app_id = Editor, app_displayName = ''Editor'', app_instancing = MultiInstance,
      app_minimumCtx = CtxProject, app_defaultPlacement = Float, app_minWidth = 360, app_minHeight = 280,
      app_intents = [''file:edit'', ''file:open'']\<rparr>"
| "APP_MANIFESTS Browser =
     \<lparr>app_id = Browser, app_displayName = ''Browser Preview'', app_instancing = MultiInstance,
      app_minimumCtx = CtxProfile, app_defaultPlacement = Float, app_minWidth = 400, app_minHeight = 300,
      app_intents = [''browser:preview'', ''browser:open'']\<rparr>"
| "APP_MANIFESTS Files =
     \<lparr>app_id = Files, app_displayName = ''Files'', app_instancing = WorktreeInstance,
      app_minimumCtx = CtxProfile, app_defaultPlacement = Float, app_minWidth = 240, app_minHeight = 200,
      app_intents = [''file:reveal'']\<rparr>"
| "APP_MANIFESTS Search =
     \<lparr>app_id = Search, app_displayName = ''Search'', app_instancing = WorktreeInstance,
      app_minimumCtx = CtxProject, app_defaultPlacement = Float, app_minWidth = 280, app_minHeight = 240,
      app_intents = [''search:query'']\<rparr>"
| "APP_MANIFESTS Changes =
     \<lparr>app_id = Changes, app_displayName = ''Changes'', app_instancing = WorktreeInstance,
      app_minimumCtx = CtxProject, app_defaultPlacement = Float, app_minWidth = 300, app_minHeight = 240,
      app_intents = [''changes:diff'', ''changes:commit'', ''changes:stage'']\<rparr>"
| "APP_MANIFESTS Git =
     \<lparr>app_id = Git, app_displayName = ''Git'', app_instancing = WorktreeInstance,
      app_minimumCtx = CtxProject, app_defaultPlacement = Float, app_minWidth = 380, app_minHeight = 280,
      app_intents = [''git:status'', ''git:diff'', ''git:history'', ''git:branch'']\<rparr>"
| "APP_MANIFESTS Conflict_resolver =
     \<lparr>app_id = Conflict_resolver, app_displayName = ''Conflict Resolver'', app_instancing = ProjectInstance,
      app_minimumCtx = CtxProject, app_defaultPlacement = Float, app_minWidth = 500, app_minHeight = 400,
      app_intents = [''conflict:resolve'', ''conflict:reveal'']\<rparr>"
| "APP_MANIFESTS Session_changes =
     \<lparr>app_id = Session_changes, app_displayName = ''Session Changes'', app_instancing = TupleInstance,
      app_minimumCtx = CtxProfile, app_defaultPlacement = Float, app_minWidth = 500, app_minHeight = 400,
      app_intents = [''session-changes:open'']\<rparr>"
| "APP_MANIFESTS Workflow_plans =
     \<lparr>app_id = Workflow_plans, app_displayName = ''Workflow & Plans'', app_instancing = ProjectInstance,
      app_minimumCtx = CtxProject, app_defaultPlacement = Float, app_minWidth = 340, app_minHeight = 280,
      app_intents = [''workflow:open-item'', ''workflow:open-plan'']\<rparr>"
| "APP_MANIFESTS Ports_tunnels =
     \<lparr>app_id = Ports_tunnels, app_displayName = ''Ports & Tunnels'', app_instancing = ProfileInstance,
      app_minimumCtx = CtxProfile, app_defaultPlacement = Float, app_minWidth = 420, app_minHeight = 320,
      app_intents = [''ports:open'', ''ports:open-tunnel'']\<rparr>"
| "APP_MANIFESTS Project_info =
     \<lparr>app_id = Project_info, app_displayName = ''Project Info'', app_instancing = ProjectInstance,
      app_minimumCtx = CtxProject, app_defaultPlacement = Float, app_minWidth = 400, app_minHeight = 320,
      app_intents = [''project:info'', ''project:config'']\<rparr>"
| "APP_MANIFESTS Agent_store =
     \<lparr>app_id = Agent_store, app_displayName = ''Agent Store'', app_instancing = ProfileInstance,
      app_minimumCtx = CtxProfile, app_defaultPlacement = Float, app_minWidth = 480, app_minHeight = 360,
      app_intents = [''agent-store:open'']\<rparr>"
| "APP_MANIFESTS Settings =
     \<lparr>app_id = Settings, app_displayName = ''Settings'', app_instancing = SingleInstance,
      app_minimumCtx = CtxNone, app_defaultPlacement = Float, app_minWidth = 480, app_minHeight = 360,
      app_intents = [''settings:open'', ''settings:devices'']\<rparr>"
| "APP_MANIFESTS System_monitor =
     \<lparr>app_id = System_monitor, app_displayName = ''System Monitor'', app_instancing = SingleInstance,
      app_minimumCtx = CtxNone, app_defaultPlacement = Float, app_minWidth = 480, app_minHeight = 360,
      app_intents = [''system:monitor'', ''monitor:alert'']\<rparr>"
| "APP_MANIFESTS Agent_hub =
     \<lparr>app_id = Agent_hub, app_displayName = ''Agent Hub'', app_instancing = SingleInstance,
      app_minimumCtx = CtxNone, app_defaultPlacement = Float, app_minWidth = 500, app_minHeight = 380,
      app_intents = [''agent-hub:open'', ''agent:focus'']\<rparr>"
| "APP_MANIFESTS Recipes =
     \<lparr>app_id = Recipes, app_displayName = ''Recipes'', app_instancing = SingleInstance,
      app_minimumCtx = CtxNone, app_defaultPlacement = Float, app_minWidth = 520, app_minHeight = 400,
      app_intents = [''recipes:open'', ''recipes:launch'']\<rparr>"

text \<open>The keys of the registry in the order of the source.\<close>

definition registry_keys :: "os_app_id list" where
  "registry_keys =
     [Terminals, Editor, Browser, Files, Search, Changes, Git, 
      Conflict_resolver, Session_changes, Workflow_plans, Ports_tunnels, Project_info, 
      Agent_store, Settings, System_monitor, Agent_hub, Recipes]"

definition listAppManifests :: "app_manifest list" where
  "listAppManifests = map APP_MANIFESTS registry_keys"

definition isAppId :: "string \<Rightarrow> bool" where
  "isAppId s \<longleftrightarrow> s \<in> set (map app_id_name registry_keys)"

text \<open>The application a known id names.\<close>

definition app_of_name :: "string \<Rightarrow> os_app_id option" where
  "app_of_name s = find (\<lambda>a. app_id_name a = s) registry_keys"

section \<open>The window an application reuses\<close>

definition js_opt_string :: "string option \<Rightarrow> js_value" where
  "js_opt_string v = (case v of None \<Rightarrow> JUndefined | Some s \<Rightarrow> JString s)"

definition js_opt_real :: "real option \<Rightarrow> js_value" where
  "js_opt_real v = (case v of None \<Rightarrow> JUndefined | Some x \<Rightarrow> JNumber (Finite x))"

text \<open>\<open>a ?? b\<close>\<close>

definition nullish :: "js_value \<Rightarrow> js_value \<Rightarrow> js_value" where
  "nullish a b = (if a = JUndefined \<or> a = JNull then b else a)"

definition same_project :: "window_context \<Rightarrow> window_context \<Rightarrow> bool" where
  "same_project a b \<longleftrightarrow> ctx_profileId a = ctx_profileId b \<and> ctx_projectId a = ctx_projectId b"

definition same_worktree :: "window_context \<Rightarrow> window_context \<Rightarrow> bool" where
  "same_worktree a b \<longleftrightarrow> same_project a b \<and> ctx_worktreeId a = ctx_worktreeId b"

definition conflict_root :: "js_value js_record option \<Rightarrow> window_context \<Rightarrow> js_value" where
  "conflict_root st ctx = nullish (state_field st ''root'') (js_opt_string (ctx_gitRootId ctx))"

definition conflict_operation :: "js_value js_record option \<Rightarrow> window_context \<Rightarrow> js_value" where
  "conflict_operation st ctx = nullish (state_field st ''operation'') (js_opt_string (ctx_operation ctx))"

definition review_generation :: "js_value js_record option \<Rightarrow> window_context \<Rightarrow> js_value" where
  "review_generation st ctx = nullish (js_opt_real (ctx_generation ctx)) (state_field st ''generation'')"

definition same_review :: "os_window \<Rightarrow> window_context \<Rightarrow> js_value js_record option \<Rightarrow> bool" where
  "same_review w ctx st \<longleftrightarrow>
     (let generation = review_generation st ctx;
          wgen = review_generation (win_appState w) (win_ctx w)
      in ctx_profileId (win_ctx w) = ctx_profileId ctx \<and>
         (generation = JUndefined \<or> wgen = JUndefined \<or> strict_eq wgen generation) \<and>
         strict_eq (state_field (win_appState w) ''terminalId'') (state_field st ''terminalId'') \<and>
         strict_eq (state_field (win_appState w) ''terminalIncarnation'')
           (state_field st ''terminalIncarnation'') \<and>
         strict_eq (state_field (win_appState w) ''ompSessionId'') (state_field st ''ompSessionId'') \<and>
         strict_eq (nullish (state_field (win_appState w) ''rootId'') (JString ''.''))
           (nullish (state_field st ''rootId'') (JString ''.'')))"

definition findExistingWindowForApp ::
  "os_window js_record \<Rightarrow> os_app_id \<Rightarrow> window_context \<Rightarrow> js_value js_record option \<Rightarrow> os_window option"
where
  "findExistingWindowForApp windows appId ctx st =
     (let windowList = map snd windows in
      case app_instancing (APP_MANIFESTS appId) of
        SingleInstance \<Rightarrow> find (\<lambda>w. win_appId w = appId) windowList
      | ProfileInstance \<Rightarrow>
          find (\<lambda>w. win_appId w = appId \<and> ctx_profileId (win_ctx w) = ctx_profileId ctx) windowList
      | ProjectInstance \<Rightarrow>
          if appId = Conflict_resolver
          then find (\<lambda>w. win_appId w = Conflict_resolver \<and> same_worktree (win_ctx w) ctx \<and>
                       strict_eq (conflict_root (win_appState w) (win_ctx w)) (conflict_root st ctx) \<and>
                       strict_eq (conflict_operation (win_appState w) (win_ctx w))
                         (conflict_operation st ctx)) windowList
          else find (\<lambda>w. win_appId w = appId \<and> same_project (win_ctx w) ctx) windowList
      | WorktreeInstance \<Rightarrow>
          find (\<lambda>w. win_appId w = appId \<and> same_worktree (win_ctx w) ctx) windowList
      | TupleInstance \<Rightarrow> find (\<lambda>w. win_appId w = appId \<and> same_review w ctx st) windowList
      | MultiInstance \<Rightarrow> None)"

section \<open>Properties\<close>

lemma registry_keys_complete: "a \<in> set registry_keys"
  by (cases a) (simp_all add: registry_keys_def)

lemma app_id_name_inject [simp]: "app_id_name a = app_id_name b \<longleftrightarrow> a = b"
  by (cases a; cases b; simp)

lemma app_of_name_name [simp]: "app_of_name (app_id_name a) = Some a"
  unfolding app_of_name_def
  by (rule find_unique) (auto simp: registry_keys_complete)

lemma app_of_name_Some: "app_of_name s = Some a \<longleftrightarrow> s = app_id_name a"
proof
  show "s = app_id_name a" if "app_of_name s = Some a"
    using that by (auto simp: app_of_name_def dest: find_Some_in)
qed simp

lemma isAppId_iff: "isAppId s \<longleftrightarrow> (\<exists>a. app_of_name s = Some a)"
  using registry_keys_complete by (auto simp: isAppId_def app_of_name_Some)

lemma manifest_app_id [simp]: "app_id (APP_MANIFESTS a) = a"
  by (cases a) simp_all

text \<open>A reused window is an open window of the same application, and of the same profile unless the
  application is a singleton.\<close>

lemma findExisting_sound:
  assumes "findExistingWindowForApp windows a ctx st = Some w"
  shows "w \<in> set (map snd windows) \<and> win_appId w = a \<and> app_instancing (APP_MANIFESTS a) \<noteq> MultiInstance \<and>
    (app_instancing (APP_MANIFESTS a) = SingleInstance \<or> ctx_profileId (win_ctx w) = ctx_profileId ctx)"
  using assms
  by (cases "app_instancing (APP_MANIFESTS a)")
     (auto simp: findExistingWindowForApp_def Let_def same_worktree_def same_project_def same_review_def
       split: if_splits dest!: find_Some_in)

end
