(* ===== verification/Session_Codec.thy ===== *)
theory Session_Codec
  imports Tile_Codec App_Registry Session_Inv
begin

text \<open>
  Storing and checking sessions, \<^verbatim>\<open>packages/ui/src/os/persistence.ts\<close> lines 38-629: the projection
  \<^verbatim>\<open>sanitizeSessionForPersistence\<close> that decides what of a session is ever written, and the
  validator \<^verbatim>\<open>validateOsSession\<close> that decides whether a parsed document is a session.
  \<open>encode_session\<close> is the object a typed session is in memory (optional fields that are absent are
  not properties); \<open>decode_session\<close> is the cast \<^verbatim>\<open>candidate as OsSessionV1\<close>, reading the fields
  the code reads after it. The early returns of the validator are lists of conditions with the
  error each returns.
\<close>

section \<open>Application state\<close>

text \<open>\<open>if (typeof raw.k === "string") projected.k = raw.k\<close>\<close>

definition keep_string :: "js_value js_record \<Rightarrow> string \<Rightarrow> js_value js_record" where
  "keep_string st k = (if is_string (state_field (Some st) k) then [(k, state_field (Some st) k)] else [])"

definition keep_strings :: "js_value js_record \<Rightarrow> string list \<Rightarrow> js_value js_record" where
  "keep_strings st ks = concat (map (keep_string st) ks)"

text \<open>A loop that collects the accepted items of an array and stops at a limit.\<close>

fun collect_upto :: "('a \<Rightarrow> 'b option) \<Rightarrow> nat \<Rightarrow> 'b list \<Rightarrow> 'a list \<Rightarrow> 'b list" where
  "collect_upto f n acc [] = acc"
| "collect_upto f n acc (x # xs) =
     (case f x of
        None \<Rightarrow> collect_upto f n acc xs
      | Some y \<Rightarrow> if length acc + 1 \<ge> n then acc @ [y] else collect_upto f n (acc @ [y]) xs)"

definition open_workspace :: "js_value \<Rightarrow> js_value option" where
  "open_workspace item =
     (if is_object item \<and> is_nonempty_string (js_get item ''profileId'') \<and>
         is_nonempty_string (js_get item ''project'')
      then Some (JObject [(''profileId'', js_get item ''profileId''), (''project'', js_get item ''project'')])
      else None)"

fun short_string :: "js_value \<Rightarrow> bool" where
  "short_string (JString s) = (0 < length s \<and> length s \<le> 1024)"
| "short_string _ = False"

definition disclosed_workspace :: "js_value \<Rightarrow> js_value option" where
  "disclosed_workspace item = (if short_string item then Some item else None)"

definition keep_collected ::
  "js_value js_record \<Rightarrow> string \<Rightarrow> (js_value \<Rightarrow> js_value option) \<Rightarrow> js_value js_record"
where
  "keep_collected st k f =
     (case state_field (Some st) k of
        JArray xs \<Rightarrow>
          (let ys = collect_upto f 64 [] xs in if ys \<noteq> [] then [(k, JArray ys)] else [])
      | _ \<Rightarrow> [])"

definition files_state :: "js_value js_record \<Rightarrow> js_value js_record" where
  "files_state st =
     keep_string st ''selectedPath'' @
     (let m = state_field (Some st) ''mode''
      in if m = JString ''workspace'' \<or> m = JString ''projects'' then [(''mode'', m)] else []) @
     keep_string st ''projectFilter'' @
     (case state_field (Some st) ''expandedPaths'' of
        JArray xs \<Rightarrow> if list_all is_string xs then [(''expandedPaths'', JArray (take 100 xs))] else []
      | _ \<Rightarrow> []) @
     (let t = state_field (Some st) ''scrollTop''
      in if is_finite_number t then [(''scrollTop'', t)] else [])"

definition agent_hub_state :: "js_value js_record \<Rightarrow> js_value js_record" where
  "agent_hub_state st =
     keep_collected st ''openWorkspaces'' open_workspace @
     (let h = state_field (Some st) ''sidebarHidden''
      in if is_bool h then [(''sidebarHidden'', h)] else []) @
     keep_collected st ''disclosedWorkspaces'' disclosed_workspace @
     (let w = state_field (Some st) ''selectedWorkspace''
      in if short_string w then [(''selectedWorkspace'', w)] else [])"

text \<open>The projection each application branch builds; the branches that return \<^verbatim>\<open>undefined\<close>
  build nothing.\<close>

fun projected_state :: "os_app_id \<Rightarrow> js_value js_record \<Rightarrow> js_value js_record" where
  "projected_state Terminals st = keep_strings st [''sessionId'', ''cwd'']"
| "projected_state Editor st = keep_strings st [''filePath'']"
| "projected_state Browser st = keep_strings st [''url'']"
| "projected_state Files st = files_state st"
| "projected_state Search st = keep_strings st [''query'']"
| "projected_state Changes st = keep_strings st [''selectedFile'']"
| "projected_state Git st = keep_strings st [''selectedCommit'', ''selectedBranch'']"
| "projected_state Workflow_plans st = keep_strings st [''selectedItemId'']"
| "projected_state Settings st = keep_strings st [''activeTab'']"
| "projected_state Agent_store st = keep_strings st [''activeTab'']"
| "projected_state Project_info st = keep_strings st [''activeTab'']"
| "projected_state System_monitor st =
     keep_strings st [''inspectedProfileId'', ''selectedIncidentId'', ''activeTab'']"
| "projected_state Agent_hub st = agent_hub_state st"
| "projected_state Recipes st = keep_strings st [''selectedRecipeId'', ''activeTab'']"
| "projected_state Session_changes st = []"
| "projected_state Conflict_resolver st = []"
| "projected_state Ports_tunnels st = []"

definition sanitizeAppState :: "os_app_id \<Rightarrow> js_value js_record option \<Rightarrow> js_value js_record option" where
  "sanitizeAppState a rawState =
     (case rawState of
        None \<Rightarrow> None
      | Some st \<Rightarrow> (let projected = projected_state a st in if projected = [] then None else Some projected))"

section \<open>The projection of a session\<close>

text \<open>\<open>Number(x) || 720\<close> replaces a zero.\<close>

definition sanitize_bounds :: "float_bounds \<Rightarrow> float_bounds" where
  "sanitize_bounds b =
     b\<lparr>fb_width := (if fb_width b = 0 then 720 else fb_width b),
       fb_height := (if fb_height b = 0 then 520 else fb_height b)\<rparr>"

definition sanitize_context :: "window_context \<Rightarrow> window_context" where
  "sanitize_context c =
     \<lparr>ctx_profileId = ctx_profileId c, ctx_generation = None, ctx_projectId = ctx_projectId c,
      ctx_worktreeId = ctx_worktreeId c, ctx_gitRootId = None, ctx_operation = None, ctx_target = None\<rparr>"

definition sanitize_window :: "os_window \<Rightarrow> os_window" where
  "sanitize_window w =
     w\<lparr>win_title := (if win_title w = '''' then ''Window'' else win_title w),
       win_ctx := sanitize_context (win_ctx w),
       win_floatBounds := map_option sanitize_bounds (win_floatBounds w),
       win_restorePlacement :=
         map_option (\<lambda>rp. rp\<lparr>rp_floatBounds := map_option sanitize_bounds (rp_floatBounds rp)\<rparr>)
           (win_restorePlacement w),
       win_appState := sanitizeAppState (win_appId w) (win_appState w),
       win_runtimeIdentity := None\<rparr>"

text \<open>\<open>s ? String(s) : undefined\<close>\<close>

definition nonempty_opt :: "string option \<Rightarrow> string option" where
  "nonempty_opt s = (if s = Some '''' then None else s)"

definition sanitize_default_ctx :: "window_context \<Rightarrow> window_context" where
  "sanitize_default_ctx c =
     \<lparr>ctx_profileId = ctx_profileId c, ctx_generation = None,
      ctx_projectId = nonempty_opt (ctx_projectId c), ctx_worktreeId = nonempty_opt (ctx_worktreeId c),
      ctx_gitRootId = None, ctx_operation = None, ctx_target = None\<rparr>"

definition sanitize_desktop :: "os_desktop \<Rightarrow> os_desktop" where
  "sanitize_desktop d =
     d\<lparr>desk_name := (if desk_name d = '''' then ''Desktop'' else desk_name d),
       desk_defaultCtx := map_option sanitize_default_ctx (desk_defaultCtx d),
       desk_focused := nonempty_opt (desk_focused d)\<rparr>"

definition sanitizeSessionForPersistence :: "os_session \<Rightarrow> os_session" where
  "sanitizeSessionForPersistence s =
     \<lparr>ses_schema = 1, ses_active = ses_active s,
      ses_desktops = map sanitize_desktop (ses_desktops s),
      ses_windows = map (\<lambda>(i, w). (i, sanitize_window w)) (ses_windows s)\<rparr>"

section \<open>Sessions as objects\<close>

definition js_real :: "real \<Rightarrow> js_value" where
  "js_real x = JNumber (Finite x)"

definition encode_bounds :: "float_bounds \<Rightarrow> js_value" where
  "encode_bounds b =
     JObject [(''x'', js_real (fb_x b)), (''y'', js_real (fb_y b)), (''width'', js_real (fb_width b)),
              (''height'', js_real (fb_height b))]"

fun encode_mode :: "window_mode \<Rightarrow> js_value" where
  "encode_mode Tile = JString ''tile''"
| "encode_mode Float = JString ''float''"

definition encode_restore :: "restore_placement \<Rightarrow> js_value" where
  "encode_restore rp =
     JObject ([(''mode'', encode_mode (rp_mode rp)), (''desktopId'', JString (rp_desktopId rp))] @
       opt_field ''floatBounds'' (map_option encode_bounds (rp_floatBounds rp)))"

fun encode_target :: "fs_target_ref \<Rightarrow> js_value" where
  "encode_target (WorkspaceTarget p epoch) =
     JObject ([(''kind'', JString ''workspace''), (''profileId'', JString p)] @
       opt_field ''workspaceEpoch'' (map_option js_real epoch))"
| "encode_target (ProjectTarget p proj path) =
     JObject ([(''kind'', JString ''project''), (''profileId'', JString p), (''project'', JString proj)] @
       opt_field ''worktreePath'' (map_option JString path))"

definition encode_context :: "window_context \<Rightarrow> js_value" where
  "encode_context c =
     JObject ([(''profileId'', JString (ctx_profileId c))] @
       opt_field ''generation'' (map_option js_real (ctx_generation c)) @
       opt_field ''projectId'' (map_option JString (ctx_projectId c)) @
       opt_field ''worktreeId'' (map_option JString (ctx_worktreeId c)) @
       opt_field ''gitRootId'' (map_option JString (ctx_gitRootId c)) @
       opt_field ''operation'' (map_option JString (ctx_operation c)) @
       opt_field ''target'' (map_option encode_target (ctx_target c)))"

fun encode_identity :: "runtime_identity \<Rightarrow> js_value" where
  "encode_identity (TerminalIdentity t) =
     JObject [(''kind'', JString ''terminal''),
       (''target'', JObject [(''profileId'', JString (tt_profileId t)), (''generation'', js_real (tt_generation t)),
          (''serverEpoch'', JString (tt_serverEpoch t)), (''terminalId'', JString (tt_terminalId t)),
          (''incarnation'', JString (tt_incarnation t))])]"
| "encode_identity (ReviewIdentity r) =
     JObject [(''kind'', JString ''review''),
       (''target'', JObject [(''profileId'', JString (rt_profileId r)), (''generation'', js_real (rt_generation r)),
          (''terminalId'', JString (rt_terminalId r)), (''terminalIncarnation'', JString (rt_terminalIncarnation r)),
          (''ompSessionId'', JString (rt_ompSessionId r)), (''serverEpoch'', JString (rt_serverEpoch r)),
          (''rootId'', JString (rt_rootId r)), (''baselineId'', JString (rt_baselineId r))])]"

definition encode_window :: "os_window \<Rightarrow> js_value" where
  "encode_window w =
     JObject ([(''id'', JString (win_id w)), (''appId'', JString (app_id_name (win_appId w))),
         (''title'', JString (win_title w)), (''ctx'', encode_context (win_ctx w)),
         (''mode'', encode_mode (win_mode w)), (''desktopId'', JString (win_desktopId w)),
         (''maximized'', JBool (win_maximized w)), (''minimized'', JBool (win_minimized w))] @
       opt_field ''floatBounds'' (map_option encode_bounds (win_floatBounds w)) @
       opt_field ''restorePlacement'' (map_option encode_restore (win_restorePlacement w)) @
       opt_field ''appState'' (map_option JObject (win_appState w)) @
       opt_field ''runtimeIdentity'' (map_option encode_identity (win_runtimeIdentity w)))"

definition encode_desktop :: "os_desktop \<Rightarrow> js_value" where
  "encode_desktop d =
     JObject ([(''id'', JString (desk_id d)), (''name'', JString (desk_name d))] @
       opt_field ''defaultCtx'' (map_option encode_context (desk_defaultCtx d)) @
       [(''tree'', case desk_tree d of None \<Rightarrow> JNull | Some t \<Rightarrow> encode_tile t),
        (''floatingWindowIds'', JArray (map JString (desk_floating d))),
        (''focusedWindowId'', encode_active (desk_focused d))])"

definition encode_session :: "os_session \<Rightarrow> js_value" where
  "encode_session s =
     JObject [(''schema'', js_real (of_nat (ses_schema s))), (''activeDesktopId'', JString (ses_active s)),
              (''desktops'', JArray (map encode_desktop (ses_desktops s))),
              (''windows'', JObject (map (\<lambda>(i, w). (i, encode_window w)) (ses_windows s)))]"

section \<open>Reading a document as a session\<close>

text \<open>\<open>Object.entries(v)\<close>, with the own properties of an object or the elements of an array, and the
  lookup \<open>v[k]\<close> in the same object.\<close>

fun js_entries :: "js_value \<Rightarrow> js_value js_record" where
  "js_entries (JObject fs) = AList.clearjunk fs"
| "js_entries (JArray xs) = zip (map nat_dec [0..<length xs]) xs"
| "js_entries _ = []"

definition entry :: "js_value js_record \<Rightarrow> string \<Rightarrow> js_value" where
  "entry ws k = (case map_of ws k of None \<Rightarrow> JUndefined | Some v \<Rightarrow> v)"

fun string_of :: "js_value \<Rightarrow> string" where
  "string_of (JString s) = s"
| "string_of _ = ''''"

fun elements :: "js_value \<Rightarrow> js_value list" where
  "elements (JArray xs) = xs"
| "elements _ = []"

fun is_array :: "js_value \<Rightarrow> bool" where
  "is_array (JArray _) = True"
| "is_array _ = False"

text \<open>An optional string field after its type was checked.\<close>

fun opt_string_of :: "js_value \<Rightarrow> string option" where
  "opt_string_of (JString s) = Some s"
| "opt_string_of _ = None"

fun real_of :: "js_value \<Rightarrow> real" where
  "real_of (JNumber (Finite x)) = x"
| "real_of _ = 0"

definition decode_mode :: "js_value \<Rightarrow> window_mode" where
  "decode_mode v = (if v = JString ''float'' then Float else Tile)"

definition decode_bounds :: "js_value \<Rightarrow> float_bounds" where
  "decode_bounds v =
     \<lparr>fb_x = real_of (js_get v ''x''), fb_y = real_of (js_get v ''y''),
      fb_width = real_of (js_get v ''width''), fb_height = real_of (js_get v ''height'')\<rparr>"

definition opt_object :: "(js_value \<Rightarrow> 'a) \<Rightarrow> js_value \<Rightarrow> 'a option" where
  "opt_object f v = (if is_object v then Some (f v) else None)"

definition decode_restore :: "js_value \<Rightarrow> restore_placement" where
  "decode_restore v =
     \<lparr>rp_mode = decode_mode (js_get v ''mode''), rp_desktopId = string_of (js_get v ''desktopId''),
      rp_floatBounds = opt_object decode_bounds (js_get v ''floatBounds'')\<rparr>"

definition decode_context :: "js_value \<Rightarrow> window_context" where
  "decode_context v =
     \<lparr>ctx_profileId = string_of (js_get v ''profileId''), ctx_generation = None,
      ctx_projectId = opt_string_of (js_get v ''projectId''),
      ctx_worktreeId = opt_string_of (js_get v ''worktreeId''),
      ctx_gitRootId = None, ctx_operation = None, ctx_target = None\<rparr>"

definition decode_app :: "js_value \<Rightarrow> os_app_id" where
  "decode_app v = (case app_of_name (string_of v) of Some a \<Rightarrow> a | None \<Rightarrow> Terminals)"

definition decode_window :: "js_value \<Rightarrow> os_window" where
  "decode_window v =
     \<lparr>win_id = string_of (js_get v ''id''), win_appId = decode_app (js_get v ''appId''),
      win_title = string_of (js_get v ''title''), win_ctx = decode_context (js_get v ''ctx''),
      win_mode = decode_mode (js_get v ''mode''), win_desktopId = string_of (js_get v ''desktopId''),
      win_maximized = truthy (js_get v ''maximized''), win_minimized = truthy (js_get v ''minimized''),
      win_floatBounds = opt_object decode_bounds (js_get v ''floatBounds''),
      win_restorePlacement = opt_object decode_restore (js_get v ''restorePlacement''),
      win_appState = (case js_get v ''appState'' of
                        JObject fs \<Rightarrow> Some fs | JArray _ \<Rightarrow> Some [] | _ \<Rightarrow> None),
      win_runtimeIdentity = None\<rparr>"

definition decode_desktop :: "js_value \<Rightarrow> os_desktop" where
  "decode_desktop v =
     \<lparr>desk_id = string_of (js_get v ''id''), desk_name = string_of (js_get v ''name''),
      desk_defaultCtx = opt_object decode_context (js_get v ''defaultCtx''),
      desk_tree = (if js_get v ''tree'' = JNull then None else decode_tile (js_get v ''tree'')),
      desk_floating = map string_of (elements (js_get v ''floatingWindowIds'')),
      desk_focused = opt_string_of (js_get v ''focusedWindowId'')\<rparr>"

definition decode_session :: "js_value \<Rightarrow> os_session" where
  "decode_session v =
     \<lparr>ses_schema = 1, ses_active = string_of (js_get v ''activeDesktopId''),
      ses_desktops = map decode_desktop (elements (js_get v ''desktops'')),
      ses_windows = map (\<lambda>(i, w). (i, decode_window w)) (js_entries (js_get v ''windows''))\<rparr>"

section \<open>The validator\<close>

datatype desktop_fault =
    DuplicateDesktop | BadDefaultCtx | BadDefaultProfile | BadDefaultProject | BadDefaultWorktree
  | BadFloatingList | BadTree | FocusUnknown | FocusElsewhere | FocusMinimized | FocusNotPlaced
  | ActiveNotFound

datatype window_fault =
    WindowNotObject | WindowIdMismatch | UnknownApp | BadTitle | BadCtxProfile | BadCtxProject
  | BadCtxWorktree | BadMode | UnknownDesktopOf | BadFlags | BadFloatBounds | BadRestore
  | BadRestoreMode | BadRestoreDesktop | BadRestoreBounds

datatype placement_fault =
    FloatingUnknown | FloatingDuplicate | FloatingElsewhere | FloatingMode | FloatingMinimized
  | TiledElsewhere | TiledMode | TiledMinimized | MinimizedPlaced | TiledFloating | TiledCount nat
  | FloatTiled | FloatCount nat

datatype session_error =
    NotAnObject | UnsupportedSchema | BadActiveDesktop | BadDesktops | BadWindows
  | DesktopNotObject | DesktopNoIdOrName
  | AtDesktop string desktop_fault
  | AtWindow string window_fault
  | EmptyPane string string
  | BadActiveItem string
  | Placement string placement_fault

text \<open>A sequence of early returns: the first condition that holds gives the error.\<close>

fun first_failure :: "(bool \<times> 'e) list \<Rightarrow> 'e option" where
  "first_failure [] = None"
| "first_failure ((c, e) # cs) = (if c then Some e else first_failure cs)"

text \<open>A loop whose body may return an error.\<close>

fun first_error :: "('a \<Rightarrow> 'e option) \<Rightarrow> 'a list \<Rightarrow> 'e option" where
  "first_error f [] = None"
| "first_error f (x # xs) = (case f x of Some e \<Rightarrow> Some e | None \<Rightarrow> first_error f xs)"

definition then_check :: "'e option \<Rightarrow> 'e option \<Rightarrow> 'e option" where
  "then_check a b = (case a of Some e \<Rightarrow> Some e | None \<Rightarrow> b)"

definition optional_string :: "js_value \<Rightarrow> bool" where
  "optional_string v \<longleftrightarrow> v = JUndefined \<or> is_string v"

definition check_desktop :: "string list \<Rightarrow> js_value \<Rightarrow> session_error option" where
  "check_desktop seen d =
     (let did = string_of (js_get d ''id''); dctx = js_get d ''defaultCtx'' in
      first_failure
        [(\<not> is_object d, DesktopNotObject),
         (\<not> is_string (js_get d ''id'') \<or> \<not> is_string (js_get d ''name''), DesktopNoIdOrName),
         (did \<in> set seen, AtDesktop did DuplicateDesktop),
         (dctx \<noteq> JUndefined \<and> \<not> is_object dctx, AtDesktop did BadDefaultCtx),
         (dctx \<noteq> JUndefined \<and> \<not> is_nonempty_string (js_get dctx ''profileId''), AtDesktop did BadDefaultProfile),
         (dctx \<noteq> JUndefined \<and> \<not> optional_string (js_get dctx ''projectId''), AtDesktop did BadDefaultProject),
         (dctx \<noteq> JUndefined \<and> \<not> optional_string (js_get dctx ''worktreeId''), AtDesktop did BadDefaultWorktree)])"

fun check_desktops :: "string list \<Rightarrow> js_value list \<Rightarrow> session_error option" where
  "check_desktops seen [] = None"
| "check_desktops seen (d # ds) =
     then_check (check_desktop seen d) (check_desktops (string_of (js_get d ''id'') # seen) ds)"

definition isValidFloatBounds :: "js_value \<Rightarrow> bool" where
  "isValidFloatBounds b \<longleftrightarrow>
     is_object b \<and> is_finite_number (js_get b ''x'') \<and> is_finite_number (js_get b ''y'') \<and>
     is_positive_number (js_get b ''width'') \<and> is_positive_number (js_get b ''height'')"

definition is_mode :: "js_value \<Rightarrow> bool" where
  "is_mode v \<longleftrightarrow> v = JString ''tile'' \<or> v = JString ''float''"

definition known_desktop :: "string list \<Rightarrow> js_value \<Rightarrow> bool" where
  "known_desktop dids v \<longleftrightarrow> is_string v \<and> string_of v \<in> set dids"

definition optional_bounds :: "js_value \<Rightarrow> bool" where
  "optional_bounds v \<longleftrightarrow> v = JUndefined \<or> isValidFloatBounds v"

definition check_restore :: "string list \<Rightarrow> string \<Rightarrow> js_value \<Rightarrow> session_error option" where
  "check_restore dids winId rp =
     (if rp = JUndefined then None
      else first_failure
        [(\<not> is_object rp, AtWindow winId BadRestore),
         (\<not> is_mode (js_get rp ''mode''), AtWindow winId BadRestoreMode),
         (\<not> known_desktop dids (js_get rp ''desktopId''), AtWindow winId BadRestoreDesktop),
         (\<not> optional_bounds (js_get rp ''floatBounds''), AtWindow winId BadRestoreBounds)])"

definition check_window :: "string list \<Rightarrow> string \<times> js_value \<Rightarrow> session_error option" where
  "check_window dids kw =
     (let winId = fst kw; w = snd kw; ctx = js_get w ''ctx'' in
      then_check
        (first_failure
          [(\<not> is_object w, AtWindow winId WindowNotObject),
           (js_get w ''id'' \<noteq> JString winId, AtWindow winId WindowIdMismatch),
           (\<not> is_string (js_get w ''appId'') \<or> \<not> isAppId (string_of (js_get w ''appId'')), AtWindow winId UnknownApp),
           (\<not> is_string (js_get w ''title''), AtWindow winId BadTitle),
           (\<not> is_object ctx \<or> \<not> is_nonempty_string (js_get ctx ''profileId''), AtWindow winId BadCtxProfile),
           (\<not> optional_string (js_get ctx ''projectId''), AtWindow winId BadCtxProject),
           (\<not> optional_string (js_get ctx ''worktreeId''), AtWindow winId BadCtxWorktree),
           (\<not> is_mode (js_get w ''mode''), AtWindow winId BadMode),
           (\<not> known_desktop dids (js_get w ''desktopId''), AtWindow winId UnknownDesktopOf),
           (\<not> is_bool (js_get w ''maximized'') \<or> \<not> is_bool (js_get w ''minimized''), AtWindow winId BadFlags),
           (\<not> optional_bounds (js_get w ''floatBounds''), AtWindow winId BadFloatBounds)])
        (check_restore dids winId (js_get w ''restorePlacement'')))"

text \<open>The placement maps \<open>placedInFloat\<close> and \<open>placedInTree\<close> from window ids to lists of desktop ids
  are lists of pairs in the order of insertion.\<close>

type_synonym placed = "(string \<times> string) list"

definition placed_on :: "placed \<Rightarrow> string \<Rightarrow> string list" where
  "placed_on p wid = map snd (filter (\<lambda>q. fst q = wid) p)"

fun check_floats ::
  "js_value js_record \<Rightarrow> string \<Rightarrow> string list \<Rightarrow> js_value list \<Rightarrow> session_error option"
where
  "check_floats ws did seen [] = None"
| "check_floats ws did seen (f # fs) =
     (let fw = string_of f; win = entry ws fw in
      then_check
        (first_failure
          [(\<not> is_string f \<or> \<not> truthy win, Placement fw FloatingUnknown),
           (fw \<in> set seen, Placement fw FloatingDuplicate),
           (js_get win ''desktopId'' \<noteq> JString did, Placement fw FloatingElsewhere),
           (js_get win ''mode'' \<noteq> JString ''float'', Placement fw FloatingMode),
           (truthy (js_get win ''minimized''), Placement fw FloatingMinimized)])
        (check_floats ws did (fw # seen) fs))"

definition check_tiled :: "js_value js_record \<Rightarrow> string \<Rightarrow> string \<Rightarrow> session_error option" where
  "check_tiled ws did i =
     (let win = entry ws i in
      first_failure
        [(js_get win ''desktopId'' \<noteq> JString did, Placement i TiledElsewhere),
         (js_get win ''mode'' \<noteq> JString ''tile'', Placement i TiledMode),
         (truthy (js_get win ''minimized''), Placement i TiledMinimized)])"

definition check_pane :: "js_value js_record \<Rightarrow> string \<Rightarrow> string tile_pane \<Rightarrow> session_error option" where
  "check_pane ws did p =
     then_check
       (first_failure
         [(items p = [], EmptyPane (pane_id p) did),
          (case active p of None \<Rightarrow> True | Some a \<Rightarrow> a = '''' \<or> a \<notin> set (items p), BadActiveItem (pane_id p))])
       (first_error (check_tiled ws did) (items p))"

definition check_tree :: "js_value js_record \<Rightarrow> string \<Rightarrow> js_value \<Rightarrow> session_error option" where
  "check_tree ws did tree =
     (if tree = JNull then None
      else if \<not> isValidTileNode (\<lambda>i. is_string i \<and> truthy (entry ws (string_of i))) tree
      then Some (AtDesktop did BadTree)
      else (case decode_tile tree of
              None \<Rightarrow> Some (AtDesktop did BadTree)
            | Some t \<Rightarrow> first_error (check_pane ws did) (collectTilePanes t)))"

definition tree_placements :: "string \<Rightarrow> js_value \<Rightarrow> placed" where
  "tree_placements did tree =
     (if tree = JNull then []
      else (case decode_tile tree of None \<Rightarrow> [] | Some t \<Rightarrow> map (\<lambda>i. (i, did)) (tree_items t)))"

definition float_placements :: "string \<Rightarrow> js_value \<Rightarrow> placed" where
  "float_placements did fl = map (\<lambda>f. (string_of f, did)) (elements fl)"

definition check_focus ::
  "js_value js_record \<Rightarrow> string \<Rightarrow> js_value \<Rightarrow> placed \<Rightarrow> placed \<Rightarrow> session_error option"
where
  "check_focus ws did foc placedInFloat placedInTree =
     (if foc = JNull \<or> foc = JUndefined then None
      else let win = entry ws (string_of foc) in
        first_failure
          [(\<not> is_string foc \<or> \<not> truthy win, AtDesktop did FocusUnknown),
           (js_get win ''desktopId'' \<noteq> JString did, AtDesktop did FocusElsewhere),
           (truthy (js_get win ''minimized''), AtDesktop did FocusMinimized),
           (did \<notin> set (placed_on placedInFloat (string_of foc)) \<and>
            did \<notin> set (placed_on placedInTree (string_of foc)), AtDesktop did FocusNotPlaced)])"

text \<open>The loop over the desktops; it returns the error or the placement maps.\<close>

fun check_placements ::
  "js_value js_record \<Rightarrow> js_value list \<Rightarrow> placed \<Rightarrow> placed \<Rightarrow> session_error + placed \<times> placed"
where
  "check_placements ws [] pf pt = Inr (pf, pt)"
| "check_placements ws (d # ds) pf pt =
     (let did = string_of (js_get d ''id''); fl = js_get d ''floatingWindowIds'';
          tree = js_get d ''tree''; pf' = pf @ float_placements did fl; pt' = pt @ tree_placements did tree in
      case then_check (first_failure [(\<not> is_array fl, AtDesktop did BadFloatingList)])
             (then_check (check_floats ws did [] (elements fl))
               (then_check (check_tree ws did tree)
                 (check_focus ws did (js_get d ''focusedWindowId'') pf' pt'))) of
        Some e \<Rightarrow> Inl e
      | None \<Rightarrow> check_placements ws ds pf' pt')"

definition check_count :: "placed \<Rightarrow> placed \<Rightarrow> string \<times> js_value \<Rightarrow> session_error option" where
  "check_count pf pt kw =
     (let winId = fst kw; w = snd kw; treeN = length (placed_on pt winId); floatN = length (placed_on pf winId) in
      if truthy (js_get w ''minimized'')
      then first_failure [(treeN + floatN > 0, Placement winId MinimizedPlaced)]
      else if js_get w ''mode'' = JString ''tile''
      then first_failure [(floatN > 0, Placement winId TiledFloating), (treeN \<noteq> 1, Placement winId (TiledCount treeN))]
      else if js_get w ''mode'' = JString ''float''
      then first_failure [(treeN > 0, Placement winId FloatTiled), (floatN \<noteq> 1, Placement winId (FloatCount floatN))]
      else None)"

definition validateOsSession :: "js_value \<Rightarrow> session_error option" where
  "validateOsSession v =
     (let desktops = elements (js_get v ''desktops''); ws = js_entries (js_get v ''windows'');
          dids = map (\<lambda>d. string_of (js_get d ''id'')) desktops;
          act = js_get v ''activeDesktopId'' in
      then_check
        (first_failure
          [(\<not> is_object v, NotAnObject),
           (js_get v ''schema'' \<noteq> JNumber (Finite 1), UnsupportedSchema),
           (\<not> is_string act, BadActiveDesktop),
           (desktops = [], BadDesktops),
           (\<not> is_object (js_get v ''windows''), BadWindows)])
      (then_check (check_desktops [] desktops)
      (then_check (first_failure [(string_of act \<notin> set dids, AtDesktop (string_of act) ActiveNotFound)])
      (then_check (first_error (check_window dids) ws)
        (case check_placements ws desktops [] [] of
           Inl e \<Rightarrow> Some e
         | Inr (pf, pt) \<Rightarrow> first_error (check_count pf pt) ws)))))"

end
