(* ===== verification/Session_Check.thy ===== *)
theory Session_Check
  imports Session_Codec
begin

text \<open>
  What \<^verbatim>\<open>validateOsSession\<close> accepts. The checks on untyped documents are related, loop by
  loop, to predicates on the decoded session; the result is that an accepted document decodes to a
  session in which every window is placed exactly once, and that every well-formed session is
  accepted once it is written.
\<close>

section \<open>Early returns and loops\<close>

lemma then_check_None [simp]: "then_check a b = None \<longleftrightarrow> a = None \<and> b = None"
  by (auto simp: then_check_def split: option.splits)

lemma first_error_None: "first_error f xs = None \<longleftrightarrow> (\<forall>x \<in> set xs. f x = None)"
  by (induction xs) (auto split: option.splits)

abbreviation js_did :: "js_value \<Rightarrow> string" where
  "js_did d \<equiv> string_of (js_get d ''id'')"

lemma check_desktop_seen: "check_desktop seen d = None \<longleftrightarrow> check_desktop [] d = None \<and> js_did d \<notin> set seen"
  by (auto simp: check_desktop_def Let_def)

lemma check_desktops_None:
  "check_desktops seen ds = None \<longleftrightarrow>
     (\<forall>d \<in> set ds. check_desktop [] d = None) \<and> distinct (map js_did ds) \<and> js_did ` set ds \<inter> set seen = {}"
proof (induction ds arbitrary: seen)
  case (Cons d ds)
  show ?case by (auto simp: Cons.IH check_desktop_seen [of seen d])
qed simp

section \<open>Placements\<close>

definition float_ok :: "js_value js_record \<Rightarrow> string \<Rightarrow> string \<Rightarrow> bool" where
  "float_ok ws did i \<longleftrightarrow>
     truthy (entry ws i) \<and> js_get (entry ws i) ''desktopId'' = JString did \<and>
     js_get (entry ws i) ''mode'' = JString ''float'' \<and> \<not> truthy (js_get (entry ws i) ''minimized'')"

definition tiled_ok :: "js_value js_record \<Rightarrow> string \<Rightarrow> string \<Rightarrow> bool" where
  "tiled_ok ws did i \<longleftrightarrow>
     truthy (entry ws i) \<and> js_get (entry ws i) ''desktopId'' = JString did \<and>
     js_get (entry ws i) ''mode'' = JString ''tile'' \<and> \<not> truthy (js_get (entry ws i) ''minimized'')"

lemma check_floats_None:
  "check_floats ws did seen fs = None \<longleftrightarrow>
     list_all is_string fs \<and> list_all (\<lambda>f. float_ok ws did (string_of f)) fs \<and>
     distinct (map string_of fs) \<and> set (map string_of fs) \<inter> set seen = {}"
proof (induction fs arbitrary: seen)
  case (Cons f fs)
  show ?case by (auto simp: Cons.IH Let_def float_ok_def)
qed simp

definition pane_ok :: "string tile_pane \<Rightarrow> bool" where
  "pane_ok p \<longleftrightarrow> items p \<noteq> [] \<and> (case active p of None \<Rightarrow> False | Some a \<Rightarrow> a \<noteq> '''' \<and> a \<in> set (items p))"

text \<open>What the validator demands of a tree.\<close>

definition tree_ok :: "js_value js_record \<Rightarrow> string \<Rightarrow> string tile_node \<Rightarrow> bool" where
  "tree_ok ws did t \<longleftrightarrow>
     tile_valid (\<lambda>_. True) t \<and> list_all pane_ok (collectTilePanes t) \<and> list_all (tiled_ok ws did) (tree_items t)"

lemma tile_valid_items: "tile_valid ok t \<longleftrightarrow> tile_valid (\<lambda>_. True) t \<and> list_all ok (tree_items t)"
  by (induction t) (auto simp: tree_items_def list_all_iff)

lemma check_tree_None:
  assumes "tree \<noteq> JNull"
  shows "check_tree ws did tree = None \<longleftrightarrow> (\<exists>t. decode_tile tree = Some t \<and> tree_ok ws did t)"
proof -
  let ?ok = "\<lambda>i. is_string i \<and> truthy (entry ws (string_of i))"
  have v: "isValidTileNode ?ok tree \<longleftrightarrow>
      (case decode_tile tree of None \<Rightarrow> False | Some t \<Rightarrow> tile_valid (\<lambda>s. truthy (entry ws s)) t)"
    by (subst isValidTileNode_decode) (auto split: option.split)
  have "(\<forall>p \<in> set (collectTilePanes t). check_pane ws did p = None) \<and> list_all (\<lambda>s. truthy (entry ws s)) (tree_items t)
      \<longleftrightarrow> list_all pane_ok (collectTilePanes t) \<and> list_all (tiled_ok ws did) (tree_items t)" for t
    by (auto simp: check_pane_def check_tiled_def Let_def first_error_None pane_ok_def tiled_ok_def list_all_iff
        tree_items_def split: option.splits)
  with assms v show ?thesis
    by (auto simp: check_tree_def first_error_None tree_ok_def tile_valid_items [of "\<lambda>s. truthy (entry ws s)"]
        split: option.splits)
qed

abbreviation js_floats :: "js_value \<Rightarrow> string list" where
  "js_floats d \<equiv> map string_of (elements (js_get d ''floatingWindowIds''))"

abbreviation js_tiled :: "js_value \<Rightarrow> string list" where
  "js_tiled d \<equiv> tree_ids (decode_desktop d)"

definition focus_ok :: "js_value js_record \<Rightarrow> js_value \<Rightarrow> bool" where
  "focus_ok ws d \<longleftrightarrow>
     (let foc = js_get d ''focusedWindowId''; win = entry ws (string_of foc) in
      foc = JNull \<or> foc = JUndefined \<or>
      is_string foc \<and> truthy win \<and> js_get win ''desktopId'' = JString (js_did d) \<and>
      \<not> truthy (js_get win ''minimized'') \<and>
      (string_of foc \<in> set (js_floats d) \<or> string_of foc \<in> set (js_tiled d)))"

definition desktop_ok :: "js_value js_record \<Rightarrow> js_value \<Rightarrow> bool" where
  "desktop_ok ws d \<longleftrightarrow>
     is_array (js_get d ''floatingWindowIds'') \<and>
     check_floats ws (js_did d) [] (elements (js_get d ''floatingWindowIds'')) = None \<and>
     check_tree ws (js_did d) (js_get d ''tree'') = None \<and> focus_ok ws d"

lemma tree_placements_eq: "tree_placements (js_did d) (js_get d ''tree'') = map (\<lambda>i. (i, js_did d)) (js_tiled d)"
  by (auto simp: tree_placements_def tree_ids_def decode_desktop_def split: option.split)

lemma float_placements_eq:
  "float_placements (js_did d) (js_get d ''floatingWindowIds'') = map (\<lambda>i. (i, js_did d)) (js_floats d)"
  by (simp add: float_placements_def)

lemma placed_on_new:
  assumes "did \<notin> snd ` set p"
  shows "did \<in> set (placed_on (p @ map (\<lambda>i. (i, did)) xs) k) \<longleftrightarrow> k \<in> set xs"
  using assms by (force simp: placed_on_def)

lemma check_focus_new:
  assumes "js_did d \<notin> snd ` set pf" and "js_did d \<notin> snd ` set pt"
  shows "check_focus ws (js_did d) (js_get d ''focusedWindowId'')
      (pf @ map (\<lambda>i. (i, js_did d)) (js_floats d)) (pt @ map (\<lambda>i. (i, js_did d)) (js_tiled d)) = None \<longleftrightarrow>
    focus_ok ws d"
  unfolding check_focus_def focus_ok_def Let_def placed_on_new [OF assms(1)] placed_on_new [OF assms(2)]
  by auto

lemma disjoint_insert_subset: "A \<subseteq> insert x B \<Longrightarrow> x \<notin> C \<Longrightarrow> B \<inter> C = {} \<Longrightarrow> A \<inter> C = {}"
  by blast

lemma check_placements_Inr:
  assumes "distinct (map js_did ds)" and "(snd ` set pf \<union> snd ` set pt) \<inter> js_did ` set ds = {}"
  shows "check_placements ws ds pf pt = Inr r \<longleftrightarrow>
    (\<forall>d \<in> set ds. desktop_ok ws d) \<and>
    r = (pf @ concat (map (\<lambda>d. map (\<lambda>i. (i, js_did d)) (js_floats d)) ds),
         pt @ concat (map (\<lambda>d. map (\<lambda>i. (i, js_did d)) (js_tiled d)) ds))"
  using assms
proof (induction ds arbitrary: pf pt)
  case (Cons d ds)
  let ?pf = "pf @ map (\<lambda>i. (i, js_did d)) (js_floats d)" and ?pt = "pt @ map (\<lambda>i. (i, js_did d)) (js_tiled d)"
  have new: "js_did d \<notin> snd ` set pf" "js_did d \<notin> snd ` set pt" using Cons.prems by auto
  have "(snd ` set ?pf \<union> snd ` set ?pt) \<inter> js_did ` set ds = {}"
  proof (rule disjoint_insert_subset)
    show "snd ` set ?pf \<union> snd ` set ?pt \<subseteq> insert (js_did d) (snd ` set pf \<union> snd ` set pt)" by auto
    show "js_did d \<notin> js_did ` set ds" using Cons.prems(1) by simp
    show "(snd ` set pf \<union> snd ` set pt) \<inter> js_did ` set ds = {}" using Cons.prems(2) by auto
  qed
  note IH = Cons.IH [OF _ this]
  let ?chk = "then_check (first_failure [(\<not> is_array (js_get d ''floatingWindowIds''), AtDesktop (js_did d) BadFloatingList)])
      (then_check (check_floats ws (js_did d) [] (elements (js_get d ''floatingWindowIds'')))
        (then_check (check_tree ws (js_did d) (js_get d ''tree''))
          (check_focus ws (js_did d) (js_get d ''focusedWindowId'') ?pf ?pt)))"
  have ok: "?chk = None \<longleftrightarrow> desktop_ok ws d"
    unfolding then_check_None check_focus_new [OF new] desktop_ok_def by simp
  have eq: "check_placements ws (d # ds) pf pt =
      (case ?chk of Some e \<Rightarrow> Inl e | None \<Rightarrow> check_placements ws ds ?pf ?pt)"
    unfolding check_placements.simps Let_def tree_placements_eq float_placements_eq ..
  show ?case
  proof (cases "desktop_ok ws d")
    case True
    then show ?thesis unfolding eq ok [THEN iffD2, OF True] option.case using IH Cons.prems(1) by simp
  next
    case False
    then obtain e where "?chk = Some e" using ok by blast
    with False show ?thesis unfolding eq by simp
  qed
qed auto

lemma placed_on_count: "length (placed_on p k) = count_list (map fst p) k"
  by (induction p) (auto simp: placed_on_def)

lemma map_fst_concat:
  "map fst (concat (map (\<lambda>d. map (\<lambda>i. (i, g d)) (h d)) ds)) = concat (map h ds)"
  by (induction ds) (auto simp: comp_def)

section \<open>The validator as a predicate\<close>

definition count_ok :: "string list \<Rightarrow> string list \<Rightarrow> string \<times> js_value \<Rightarrow> bool" where
  "count_ok floats tiled kw \<longleftrightarrow>
     (let f = count_list floats (fst kw); t = count_list tiled (fst kw); w = snd kw in
      if truthy (js_get w ''minimized'') then f = 0 \<and> t = 0
      else if js_get w ''mode'' = JString ''tile'' then f = 0 \<and> t = 1
      else if js_get w ''mode'' = JString ''float'' then f = 1 \<and> t = 0 else True)"

lemma validateOsSession_None:
  fixes v :: js_value
  defines "ds \<equiv> elements (js_get v ''desktops'')" and "ws \<equiv> js_entries (js_get v ''windows'')"
  shows "validateOsSession v = None \<longleftrightarrow>
    is_object v \<and> js_get v ''schema'' = JNumber (Finite 1) \<and> is_string (js_get v ''activeDesktopId'') \<and>
    ds \<noteq> [] \<and> is_object (js_get v ''windows'') \<and>
    (\<forall>d \<in> set ds. check_desktop [] d = None) \<and> distinct (map js_did ds) \<and>
    string_of (js_get v ''activeDesktopId'') \<in> js_did ` set ds \<and>
    (\<forall>kw \<in> set ws. check_window (map js_did ds) kw = None) \<and>
    (\<forall>d \<in> set ds. desktop_ok ws d) \<and>
    (\<forall>kw \<in> set ws. count_ok (concat (map js_floats ds)) (concat (map js_tiled ds)) kw)"
proof -
  let ?pf = "concat (map (\<lambda>d. map (\<lambda>i. (i, js_did d)) (js_floats d)) ds)"
  let ?pt = "concat (map (\<lambda>d. map (\<lambda>i. (i, js_did d)) (js_tiled d)) ds)"
  have cnt: "check_count ?pf ?pt kw = None \<longleftrightarrow>
      count_ok (concat (map js_floats ds)) (concat (map js_tiled ds)) kw" for kw
    unfolding check_count_def count_ok_def Let_def placed_on_count map_fst_concat by auto
  have pl: "(case check_placements ws ds [] [] of Inl e \<Rightarrow> Some e
        | Inr (pf, pt) \<Rightarrow> first_error (check_count pf pt) ws) = None \<longleftrightarrow>
      (\<forall>d \<in> set ds. desktop_ok ws d) \<and>
      (\<forall>kw \<in> set ws. count_ok (concat (map js_floats ds)) (concat (map js_tiled ds)) kw)"
    if dist: "distinct (map js_did ds)"
  proof (cases "check_placements ws ds [] []")
    case (Inl e)
    with check_placements_Inr [OF dist, of "[]" "[]" ws "(?pf, ?pt)"] show ?thesis by auto
  next
    case (Inr r)
    with check_placements_Inr [OF dist, of "[]" "[]" ws r] have r: "r = (?pf, ?pt)"
      and ok: "\<forall>d \<in> set ds. desktop_ok ws d" by auto
    show ?thesis unfolding Inr r sum.case prod.case first_error_None cnt using ok by blast
  qed
  show ?thesis
    unfolding validateOsSession_def Let_def ds_def [symmetric] ws_def [symmetric] then_check_None
      first_error_None check_desktops_None
    using pl by auto
qed

section \<open>Valid sessions\<close>

definition bounds_positive :: "float_bounds option \<Rightarrow> bool" where
  "bounds_positive ob = (case ob of None \<Rightarrow> True | Some b \<Rightarrow> fb_width b > 0 \<and> fb_height b > 0)"

definition valid_window :: "string set \<Rightarrow> string \<times> os_window \<Rightarrow> bool" where
  "valid_window dids kw \<longleftrightarrow>
     (let w = snd kw in
      fst kw = win_id w \<and> ctx_profileId (win_ctx w) \<noteq> '''' \<and> win_desktopId w \<in> dids \<and>
      bounds_positive (win_floatBounds w) \<and>
      (case win_restorePlacement w of
         None \<Rightarrow> True | Some rp \<Rightarrow> rp_desktopId rp \<in> dids \<and> bounds_positive (rp_floatBounds rp)))"

definition shown_as :: "os_window js_record \<Rightarrow> string \<Rightarrow> window_mode \<Rightarrow> string \<Rightarrow> bool" where
  "shown_as ws did m i =
     (case rec_get ws i of
        None \<Rightarrow> False | Some w \<Rightarrow> win_desktopId w = did \<and> win_mode w = m \<and> \<not> win_minimized w)"

definition valid_desktop :: "os_window js_record \<Rightarrow> os_desktop \<Rightarrow> bool" where
  "valid_desktop ws d \<longleftrightarrow>
     (case desk_defaultCtx d of None \<Rightarrow> True | Some c \<Rightarrow> ctx_profileId c \<noteq> '''') \<and>
     distinct (desk_floating d) \<and> list_all (shown_as ws (desk_id d) Float) (desk_floating d) \<and>
     (case desk_tree d of
        None \<Rightarrow> True
      | Some t \<Rightarrow> tile_valid (\<lambda>_. True) t \<and> list_all pane_ok (collectTilePanes t)) \<and>
     list_all (shown_as ws (desk_id d) Tile) (tree_ids d) \<and>
     (case desk_focused d of None \<Rightarrow> True | Some f \<Rightarrow> f \<in> set (desk_floating d) \<or> f \<in> set (tree_ids d))"

definition counts_ok :: "os_session \<Rightarrow> string \<times> os_window \<Rightarrow> bool" where
  "counts_ok s kw \<longleftrightarrow>
     (let f = count_list (concat (map desk_floating (ses_desktops s))) (fst kw);
          t = count_list (concat (map tree_ids (ses_desktops s))) (fst kw); w = snd kw in
      if win_minimized w then f = 0 \<and> t = 0
      else if win_mode w = Tile then f = 0 \<and> t = 1 else f = 1 \<and> t = 0)"

text \<open>What the validator guarantees of a session: everything of the placement invariant but the
  uniqueness of tree node ids, non-empty window ids, and that a remembered placement is on the
  window's own desktop.\<close>

definition valid_session :: "os_session \<Rightarrow> bool" where
  "valid_session s \<longleftrightarrow>
     ses_schema s = 1 \<and> ses_desktops s \<noteq> [] \<and> distinct (map desk_id (ses_desktops s)) \<and>
     ses_active s \<in> desktop_ids s \<and> rec_wf (ses_windows s) \<and>
     list_all (valid_window (desktop_ids s)) (ses_windows s) \<and>
     list_all (valid_desktop (ses_windows s)) (ses_desktops s) \<and>
     list_all (counts_ok s) (ses_windows s)"

section \<open>Soundness\<close>

lemma is_stringD: "is_string v \<Longrightarrow> v = JString (string_of v)"
  by (cases v) auto

lemma real_of_positive: "is_positive_number v \<Longrightarrow> 0 < real_of v"
  by (cases v rule: real_of.cases) auto

lemma optional_bounds_positive: "optional_bounds v \<Longrightarrow> bounds_positive (opt_object decode_bounds v)"
  by (auto simp: optional_bounds_def isValidFloatBounds_def bounds_positive_def opt_object_def
      decode_bounds_def real_of_positive)

lemma is_nonempty_stringD: "is_nonempty_string v \<Longrightarrow> string_of v \<noteq> ''''"
  by (auto simp: is_nonempty_string_iff)

lemma check_restore_valid:
  assumes "check_restore dids k rp = None"
  shows "case opt_object decode_restore rp of None \<Rightarrow> True
    | Some r \<Rightarrow> rp_desktopId r \<in> set dids \<and> bounds_positive (rp_floatBounds r)"
  using assms
  by (auto simp: check_restore_def opt_object_def [of decode_restore] decode_restore_def known_desktop_def
      optional_bounds_positive split: if_splits)

lemma check_window_facts:
  assumes "check_window dids (k, w) = None"
  shows "is_object w" "valid_window (set dids) (k, decode_window w)"
    and "js_get w ''desktopId'' = JString (win_desktopId (decode_window w))"
    and "is_mode (js_get w ''mode'')"
proof -
  have c: "is_object w" "js_get w ''id'' = JString k" "is_nonempty_string (js_get (js_get w ''ctx'') ''profileId'')"
    "known_desktop dids (js_get w ''desktopId'')" "optional_bounds (js_get w ''floatBounds'')"
    "check_restore dids k (js_get w ''restorePlacement'') = None" "is_mode (js_get w ''mode'')"
    using assms by (auto simp: check_window_def Let_def split: if_splits)
  show "is_object w" "is_mode (js_get w ''mode'')" by (rule c)+
  show "js_get w ''desktopId'' = JString (win_desktopId (decode_window w))"
    using c(4) by (auto simp: known_desktop_def decode_window_def dest: is_stringD)
  show "valid_window (set dids) (k, decode_window w)"
    using c is_nonempty_stringD [OF c(3)] optional_bounds_positive [OF c(5)] check_restore_valid [OF c(6)]
    by (auto simp: valid_window_def Let_def decode_window_def decode_context_def known_desktop_def
        split: option.splits)
qed

lemma decode_mode_iff:
  assumes "is_mode v"
  shows "v = JString ''float'' \<longleftrightarrow> decode_mode v = Float" "v = JString ''tile'' \<longleftrightarrow> decode_mode v = Tile"
  using assms by (auto simp: is_mode_def decode_mode_def)

lemma win_fields_decode:
  "win_mode (decode_window w) = decode_mode (js_get w ''mode'')"
  "win_minimized (decode_window w) = truthy (js_get w ''minimized'')"
  by (simp_all add: decode_window_def)

lemma is_object_truthy: "is_object v \<Longrightarrow> truthy v"
  by (cases v) auto

abbreviation decode_windows :: "js_value js_record \<Rightarrow> os_window js_record" where
  "decode_windows ws \<equiv> map (\<lambda>(i, w). (i, decode_window w)) ws"

lemma rec_get_decode: "rec_get (decode_windows ws) k = map_option decode_window (map_of ws k)"
  by (induction ws) auto

text \<open>The two readings of a placed window, in the document and in the decoded session, agree.\<close>

lemma shown_as_decode:
  assumes ok: "\<forall>kw \<in> set ws. check_window dids kw = None"
  shows "float_ok ws did i \<longleftrightarrow> shown_as (decode_windows ws) did Float i"
    and "tiled_ok ws did i \<longleftrightarrow> shown_as (decode_windows ws) did Tile i"
proof -
  have "float_ok ws did i \<longleftrightarrow> shown_as (decode_windows ws) did Float i"
    "tiled_ok ws did i \<longleftrightarrow> shown_as (decode_windows ws) did Tile i" if "map_of ws i = Some w" for w
  proof -
    have "check_window dids (i, w) = None" using ok map_of_SomeD [OF that] by blast
    note f = check_window_facts [OF this]
    show "float_ok ws did i \<longleftrightarrow> shown_as (decode_windows ws) did Float i"
      "tiled_ok ws did i \<longleftrightarrow> shown_as (decode_windows ws) did Tile i"
      using that f(3) is_object_truthy [OF f(1)] decode_mode_iff [OF f(4)]
      by (auto simp: float_ok_def tiled_ok_def shown_as_def entry_def rec_get_decode win_fields_decode)
  qed
  moreover have "float_ok ws did i \<longleftrightarrow> shown_as (decode_windows ws) did Float i"
    "tiled_ok ws did i \<longleftrightarrow> shown_as (decode_windows ws) did Tile i" if "map_of ws i = None"
    using that by (simp_all add: float_ok_def tiled_ok_def shown_as_def entry_def rec_get_decode)
  ultimately show "float_ok ws did i \<longleftrightarrow> shown_as (decode_windows ws) did Float i"
    and "tiled_ok ws did i \<longleftrightarrow> shown_as (decode_windows ws) did Tile i" by (cases "map_of ws i"; blast)+
qed

lemma desk_fields_decode [simp]:
  "desk_id (decode_desktop d) = js_did d" "desk_floating (decode_desktop d) = js_floats d"
  "desk_focused (decode_desktop d) = opt_string_of (js_get d ''focusedWindowId'')"
  "desk_tree (decode_desktop d) = (if js_get d ''tree'' = JNull then None else decode_tile (js_get d ''tree''))"
  by (simp_all add: decode_desktop_def)

lemma desktop_ok_valid:
  assumes win: "\<forall>kw \<in> set ws. check_window dids kw = None"
    and hd: "check_desktop [] d = None" and ok: "desktop_ok ws d"
  shows "valid_desktop (decode_windows ws) (decode_desktop d)"
proof -
  note sh = shown_as_decode [OF win]
  have ctx: "case desk_defaultCtx (decode_desktop d) of None \<Rightarrow> True | Some c \<Rightarrow> ctx_profileId c \<noteq> ''''"
    using hd is_nonempty_stringD
    by (auto simp: check_desktop_def Let_def decode_desktop_def opt_object_def decode_context_def split: if_splits)
  have fl: "distinct (js_floats d)" "list_all (shown_as (decode_windows ws) (js_did d) Float) (js_floats d)"
    using ok sh(1) by (auto simp: desktop_ok_def check_floats_None list_all_iff)
  have tr: "(case desk_tree (decode_desktop d) of None \<Rightarrow> True
      | Some t \<Rightarrow> tile_valid (\<lambda>_. True) t \<and> list_all pane_ok (collectTilePanes t)) \<and>
     list_all (shown_as (decode_windows ws) (js_did d) Tile) (js_tiled d)"
    using ok check_tree_None [of "js_get d ''tree''" ws "js_did d"] sh(2)
    by (auto simp: desktop_ok_def tree_ids_def tree_ok_def list_all_iff split: option.split)
  have fo: "case desk_focused (decode_desktop d) of None \<Rightarrow> True
      | Some f \<Rightarrow> f \<in> set (js_floats d) \<or> f \<in> set (js_tiled d)"
    using ok by (cases "js_get d ''focusedWindowId''") (auto simp: desktop_ok_def focus_ok_def Let_def)
  show ?thesis
    unfolding valid_desktop_def desk_fields_decode(1-3)
    using ctx fl tr fo [unfolded desk_fields_decode(3)] by blast
qed

lemma rec_wf_entries: "rec_wf (js_entries v)"
proof (cases v)
  case (JObject fs)
  then show ?thesis by (simp add: distinct_clearjunk)
next
  case (JArray xs)
  then show ?thesis by (simp add: distinct_map inj_on_def)
qed simp_all

lemma count_ok_decode:
  assumes "check_window dids kw = None"
  shows "count_ok fl ti kw \<longleftrightarrow>
    (if win_minimized (decode_window (snd kw)) then count_list fl (fst kw) = 0 \<and> count_list ti (fst kw) = 0
     else if win_mode (decode_window (snd kw)) = Tile
     then count_list fl (fst kw) = 0 \<and> count_list ti (fst kw) = 1
     else count_list fl (fst kw) = 1 \<and> count_list ti (fst kw) = 0)"
proof -
  obtain k w where kw: "kw = (k, w)" by (cases kw)
  note m = check_window_facts(4) [OF assms [unfolded kw]]
  show ?thesis
    using m by (auto simp: kw count_ok_def Let_def win_fields_decode decode_mode_def is_mode_def)
qed

lemma validate_sound:
  assumes "validateOsSession v = None"
  shows "valid_session (decode_session v)"
proof -
  let ?ds = "elements (js_get v ''desktops'')" and ?ws = "js_entries (js_get v ''windows'')"
  let ?s = "decode_session v"
  note c = validateOsSession_None [THEN iffD1, OF assms]
  have win: "\<forall>kw \<in> set ?ws. check_window (map js_did ?ds) kw = None" using c by blast
  have ids: "map desk_id (ses_desktops ?s) = map js_did ?ds" "desktop_ids ?s = set (map js_did ?ds)"
    by (simp_all add: decode_session_def desktop_ids_def image_image)
  have wins: "ses_windows ?s = decode_windows ?ws" by (simp add: decode_session_def)
  have "valid_window (set (map js_did ?ds)) (k, decode_window w)" if "(k, w) \<in> set ?ws" for k w
    using win that check_window_facts(2) by blast
  then have "list_all (valid_window (desktop_ids ?s)) (ses_windows ?s)"
    unfolding ids wins by (auto simp: list_all_iff)
  moreover have "list_all (valid_desktop (ses_windows ?s)) (ses_desktops ?s)"
    unfolding wins using c desktop_ok_valid [OF win] by (auto simp: list_all_iff decode_session_def)
  moreover have "list_all (counts_ok ?s) (ses_windows ?s)"
  proof -
    have "map desk_floating (ses_desktops ?s) = map js_floats ?ds" "map tree_ids (ses_desktops ?s) = map js_tiled ?ds"
      by (simp_all add: decode_session_def)
    then have "counts_ok ?s (fst kw, decode_window (snd kw))" if "kw \<in> set ?ws" for kw
      unfolding counts_ok_def Let_def fst_conv snd_conv
      using c that count_ok_decode [of "map js_did ?ds" kw] win by fastforce
    then show ?thesis by (auto simp: wins list_all_iff)
  qed
  moreover have "rec_wf (ses_windows ?s)"
    using rec_wf_entries [of "js_get v ''windows''"] by (simp add: wins comp_def split_def)
  moreover have "distinct (map desk_id (ses_desktops ?s))" unfolding ids(1) using c by blast
  moreover have "ses_active ?s \<in> desktop_ids ?s" "ses_schema ?s = 1" "ses_desktops ?s \<noteq> []"
    unfolding ids(2) using c by (auto simp: decode_session_def)
  ultimately show ?thesis unfolding valid_session_def by blast
qed

section \<open>Completeness\<close>

text \<open>What a session must have besides valid placements to be written and read back: the encoder
  writes typed values, so only the ranges matter.\<close>

lemma js_get_encode_window:
  "js_get (encode_window w) ''id'' = JString (win_id w)"
  "js_get (encode_window w) ''appId'' = JString (app_id_name (win_appId w))"
  "js_get (encode_window w) ''title'' = JString (win_title w)"
  "js_get (encode_window w) ''ctx'' = encode_context (win_ctx w)"
  "js_get (encode_window w) ''mode'' = encode_mode (win_mode w)"
  "js_get (encode_window w) ''desktopId'' = JString (win_desktopId w)"
  "js_get (encode_window w) ''maximized'' = JBool (win_maximized w)"
  "js_get (encode_window w) ''minimized'' = JBool (win_minimized w)"
  "js_get (encode_window w) ''floatBounds'' =
     (case win_floatBounds w of None \<Rightarrow> JUndefined | Some b \<Rightarrow> encode_bounds b)"
  "js_get (encode_window w) ''restorePlacement'' =
     (case win_restorePlacement w of None \<Rightarrow> JUndefined | Some r \<Rightarrow> encode_restore r)"
  "js_get (encode_window w) ''appState'' =
     (case win_appState w of None \<Rightarrow> JUndefined | Some fs \<Rightarrow> JObject fs)"
  by (auto simp: encode_window_def map_of_append split: option.splits)

lemma js_get_encode_context:
  "js_get (encode_context c) ''profileId'' = JString (ctx_profileId c)"
  "js_get (encode_context c) ''projectId'' =
     (case ctx_projectId c of None \<Rightarrow> JUndefined | Some s \<Rightarrow> JString s)"
  "js_get (encode_context c) ''worktreeId'' =
     (case ctx_worktreeId c of None \<Rightarrow> JUndefined | Some s \<Rightarrow> JString s)"
  by (auto simp: encode_context_def split: option.splits)

lemma js_get_encode_desktop:
  "js_get (encode_desktop d) ''id'' = JString (desk_id d)"
  "js_get (encode_desktop d) ''name'' = JString (desk_name d)"
  "js_get (encode_desktop d) ''defaultCtx'' =
     (case desk_defaultCtx d of None \<Rightarrow> JUndefined | Some c \<Rightarrow> encode_context c)"
  "js_get (encode_desktop d) ''tree'' = (case desk_tree d of None \<Rightarrow> JNull | Some t \<Rightarrow> encode_tile t)"
  "js_get (encode_desktop d) ''floatingWindowIds'' = JArray (map JString (desk_floating d))"
  "js_get (encode_desktop d) ''focusedWindowId'' = encode_active (desk_focused d)"
  by (auto simp: encode_desktop_def split: option.splits)

lemma encode_tile_not_null [simp]: "encode_tile t \<noteq> JNull" "is_object (encode_tile t)"
  by (cases t; simp)+

lemma encode_objects [simp]:
  "is_object (encode_window w)" "is_object (encode_context c)" "is_object (encode_desktop d)"
  "is_object (encode_bounds b)" "is_object (encode_restore r)"
  by (simp_all add: encode_window_def encode_context_def encode_desktop_def encode_bounds_def encode_restore_def)

lemma encode_bounds_valid [simp]:
  "isValidFloatBounds (encode_bounds b) \<longleftrightarrow> fb_width b > 0 \<and> fb_height b > 0"
  by (simp add: isValidFloatBounds_def encode_bounds_def js_real_def)

lemma encode_restore_fields:
  "js_get (encode_restore r) ''mode'' = encode_mode (rp_mode r)"
  "js_get (encode_restore r) ''desktopId'' = JString (rp_desktopId r)"
  "js_get (encode_restore r) ''floatBounds'' =
     (case rp_floatBounds r of None \<Rightarrow> JUndefined | Some b \<Rightarrow> encode_bounds b)"
  by (auto simp: encode_restore_def split: option.splits)

lemma is_mode_encode [simp]: "is_mode (encode_mode m)"
  by (cases m) (simp_all add: is_mode_def)

abbreviation encode_windows :: "os_window js_record \<Rightarrow> js_value js_record" where
  "encode_windows ws \<equiv> map (\<lambda>(i, w). (i, encode_window w)) ws"

lemma entry_encode:
  "entry (encode_windows ws) i = (case rec_get ws i of None \<Rightarrow> JUndefined | Some w \<Rightarrow> encode_window w)"
  by (induction ws) (auto simp: entry_def)

lemma encode_mode_eq [simp]:
  "encode_mode m = JString ''float'' \<longleftrightarrow> m = Float" "encode_mode m = JString ''tile'' \<longleftrightarrow> m = Tile"
  by (cases m; simp)+

lemma shown_as_encode:
  "float_ok (encode_windows ws) did i \<longleftrightarrow> shown_as ws did Float i"
  "tiled_ok (encode_windows ws) did i \<longleftrightarrow> shown_as ws did Tile i"
  by (auto simp: float_ok_def tiled_ok_def shown_as_def entry_encode js_get_encode_window is_object_truthy
      split: option.splits)

lemma check_window_encode:
  assumes "valid_window (set dids) (k, w)"
  shows "check_window dids (k, encode_window w) = None"
  using assms
  by (auto simp: valid_window_def Let_def check_window_def check_restore_def js_get_encode_window js_get_encode_context
      encode_restore_fields isAppId_iff is_nonempty_string_def optional_string_def known_desktop_def optional_bounds_def
      bounds_positive_def split: option.splits)

lemma check_desktop_encode:
  assumes "valid_desktop ws d"
  shows "check_desktop [] (encode_desktop d) = None"
  using assms
  by (auto simp: valid_desktop_def check_desktop_def Let_def js_get_encode_desktop js_get_encode_context
      is_nonempty_string_def optional_string_def split: option.splits)

lemma string_of_strings [simp]: "map (string_of \<circ> JString) xs = xs"
  by (induction xs) auto

lemma decode_encode_desktop_fields:
  "js_floats (encode_desktop d) = desk_floating d" "js_tiled (encode_desktop d) = tree_ids d"
  "js_did (encode_desktop d) = desk_id d"
  by (auto simp: js_get_encode_desktop tree_ids_def split: option.splits)

lemma shown_as_not_minimized:
  "shown_as ws did m i \<Longrightarrow> truthy (entry (encode_windows ws) i) \<and>
     js_get (entry (encode_windows ws) i) ''desktopId'' = JString did \<and>
     \<not> truthy (js_get (entry (encode_windows ws) i) ''minimized'')"
  by (auto simp: shown_as_def entry_encode js_get_encode_window is_object_truthy split: option.splits)

lemma focus_ok_encode:
  assumes "valid_desktop ws d"
  shows "focus_ok (encode_windows ws) (encode_desktop d)"
proof (cases "desk_focused d")
  case None
  then show ?thesis by (simp add: focus_ok_def js_get_encode_desktop Let_def)
next
  case (Some f)
  with assms have f: "f \<in> set (desk_floating d) \<or> f \<in> set (tree_ids d)" by (simp add: valid_desktop_def)
  then obtain m where "shown_as ws (desk_id d) m f" using assms by (auto simp: valid_desktop_def list_all_iff)
  from shown_as_not_minimized [OF this] f Some show ?thesis
    unfolding focus_ok_def Let_def decode_encode_desktop_fields
    by (simp add: js_get_encode_desktop encode_active_def)
qed

lemma desktop_ok_encode:
  assumes "valid_desktop ws d"
  shows "desktop_ok (encode_windows ws) (encode_desktop d)"
proof -
  have "check_tree (encode_windows ws) (desk_id d) (js_get (encode_desktop d) ''tree'') = None"
  proof (cases "desk_tree d")
    case None
    then show ?thesis by (simp add: js_get_encode_desktop check_tree_def)
  next
    case (Some t)
    have "tree_ok (encode_windows ws) (desk_id d) t"
      using assms Some by (simp add: tree_ok_def valid_desktop_def tree_ids_def shown_as_encode [abs_def])
    with check_tree_None [of "encode_tile t"] Some show ?thesis by (simp add: js_get_encode_desktop)
  qed
  moreover have "check_floats (encode_windows ws) (desk_id d) [] (map JString (desk_floating d)) = None"
    using assms by (simp add: check_floats_None shown_as_encode valid_desktop_def list_all_iff)
  ultimately show ?thesis
    using focus_ok_encode [OF assms] by (simp add: desktop_ok_def js_get_encode_desktop)
qed

lemma clearjunk_distinct: "distinct (map fst m) \<Longrightarrow> AList.clearjunk m = m"
proof (induction m)
  case (Cons p m)
  then have "AList.delete (fst p) m = m" by (simp add: delete_id)
  with Cons show ?case by simp
qed simp

lemma count_ok_encode:
  assumes "counts_ok s (k, w)"
  shows "count_ok (concat (map desk_floating (ses_desktops s))) (concat (map tree_ids (ses_desktops s)))
    (k, encode_window w)"
  using assms unfolding counts_ok_def count_ok_def Let_def fst_conv snd_conv js_get_encode_window truthy.simps
  by (cases "win_mode w") simp_all

lemma validate_encode:
  assumes v: "valid_session s"
  shows "validateOsSession (encode_session s) = None"
proof -
  have g: "js_get (encode_session s) ''schema'' = JNumber (Finite 1)"
    "js_get (encode_session s) ''activeDesktopId'' = JString (ses_active s)"
    "js_get (encode_session s) ''desktops'' = JArray (map encode_desktop (ses_desktops s))"
    "js_get (encode_session s) ''windows'' = JObject (encode_windows (ses_windows s))"
    "is_object (encode_session s)"
    using v by (simp_all add: encode_session_def valid_session_def js_real_def)
  have en: "js_entries (js_get (encode_session s) ''windows'') = encode_windows (ses_windows s)"
    using v by (simp add: g clearjunk_distinct valid_session_def comp_def split_def)
  have el: "elements (js_get (encode_session s) ''desktops'') = map encode_desktop (ses_desktops s)" by (simp add: g)
  have ids: "map js_did (map encode_desktop (ses_desktops s)) = map desk_id (ses_desktops s)"
    by (simp add: comp_def js_get_encode_desktop)
  have cc: "concat (map js_floats (map encode_desktop (ses_desktops s))) = concat (map desk_floating (ses_desktops s))"
    "concat (map js_tiled (map encode_desktop (ses_desktops s))) = concat (map tree_ids (ses_desktops s))"
    unfolding map_map comp_def decode_encode_desktop_fields by simp_all
  have "check_window (map desk_id (ses_desktops s)) kw = None" if "kw \<in> set (encode_windows (ses_windows s))" for kw
    using that v check_window_encode [of "map desk_id (ses_desktops s)"]
    by (auto simp: valid_session_def list_all_iff desktop_ids_def)
  moreover have "desktop_ok (encode_windows (ses_windows s)) d" "check_desktop [] d = None"
    if "d \<in> set (map encode_desktop (ses_desktops s))" for d
    using that v desktop_ok_encode check_desktop_encode by (auto simp: valid_session_def list_all_iff)
  moreover have "count_ok (concat (map desk_floating (ses_desktops s))) (concat (map tree_ids (ses_desktops s))) kw"
    if "kw \<in> set (encode_windows (ses_windows s))" for kw
    using that v count_ok_encode [of s] by (auto simp: valid_session_def list_all_iff)
  moreover have "ses_active s \<in> js_did ` set (map encode_desktop (ses_desktops s))"
    using v by (simp add: valid_session_def desktop_ids_def image_image js_get_encode_desktop)
  ultimately show ?thesis
    unfolding validateOsSession_None el en ids cc using v g by (simp add: valid_session_def)
qed

end
