(* ===== verification/Session_Persistence.thy ===== *)
theory Session_Persistence
  imports Session_Check
begin

text \<open>
  Loading and saving, \<^verbatim>\<open>packages/ui/src/os/persistence.ts\<close> lines 16-36 and 631-771: the session
  slot of the local storage with the flag that suspends autosaving and the preserved bytes of a
  document that was not accepted, import and export, and the dock pins. Storage that throws is a
  boolean argument. The lemmas show the round trip of every well-formed session, what is never
  written, and that a rejected document is neither overwritten nor used.
\<close>

datatype notice_kind = InvalidSchema | StorageError | CorruptData

record persistence_state =
  ps_suspended :: bool
  ps_corruptBytes :: "raw_text option"
  ps_storage :: "raw_text option"

definition resumeAutosave :: "persistence_state \<Rightarrow> persistence_state" where
  "resumeAutosave st = st\<lparr>ps_suspended := False, ps_corruptBytes := None\<rparr>"

text \<open>\<open>createDefaultOsSession()\<close> with its default arguments.\<close>

definition default_session :: os_session where
  "default_session = createDefaultOsSession ''desktop-1'' ''Main''"

definition loadOsSession ::
  "persistence_state \<Rightarrow> bool \<Rightarrow> os_session \<times> persistence_state \<times> notice_kind option"
where
  "loadOsSession st readable =
     (if \<not> readable then (default_session, st, Some StorageError)
      else case ps_storage st of
        None \<Rightarrow> (default_session, st, None)
      | Some (Corrupt raw) \<Rightarrow>
          if raw = '''' then (default_session, st, None)
          else (default_session, st\<lparr>ps_suspended := True, ps_corruptBytes := Some (Corrupt raw)\<rparr>,
                Some CorruptData)
      | Some (Json parsed) \<Rightarrow>
          (case validateOsSession parsed of
             Some e \<Rightarrow>
               (default_session, st\<lparr>ps_suspended := True, ps_corruptBytes := Some (Json parsed)\<rparr>,
                Some InvalidSchema)
           | None \<Rightarrow> (sanitizeSessionForPersistence (decode_session parsed), st, None)))"

definition saveOsSession ::
  "persistence_state \<Rightarrow> os_session \<Rightarrow> bool \<Rightarrow> bool \<times> persistence_state \<times> notice_kind option"
where
  "saveOsSession st s writable =
     (if ps_suspended st then (False, st, None)
      else if writable
      then (True, st\<lparr>ps_storage := Some (Json (encode_session (sanitizeSessionForPersistence s)))\<rparr>, None)
      else (False, st, Some StorageError))"

definition exportOsSessionJson :: "os_session \<Rightarrow> raw_text" where
  "exportOsSessionJson s = Json (encode_session (sanitizeSessionForPersistence s))"

datatype import_error = ImportInvalid session_error | ImportSyntax

definition importOsSessionJson :: "raw_text \<Rightarrow> import_error + os_session" where
  "importOsSessionJson raw =
     (case raw of
        Corrupt _ \<Rightarrow> Inl ImportSyntax
      | Json parsed \<Rightarrow>
          (case validateOsSession parsed of
             Some e \<Rightarrow> Inl (ImportInvalid e)
           | None \<Rightarrow> Inr (sanitizeSessionForPersistence (decode_session parsed))))"

section \<open>Dock pins\<close>

definition DEFAULT_DOCK_PINS :: "os_app_id list" where
  "DEFAULT_DOCK_PINS = [Files, Terminals, Editor, Browser]"

fun known_pin :: "js_value \<Rightarrow> os_app_id option" where
  "known_pin (JString s) = app_of_name s"
| "known_pin _ = None"

fun unique_pins :: "os_app_id list \<Rightarrow> js_value list \<Rightarrow> os_app_id list" where
  "unique_pins seen [] = []"
| "unique_pins seen (x # xs) =
     (case known_pin x of
        None \<Rightarrow> unique_pins seen xs
      | Some a \<Rightarrow> if a \<in> set seen then unique_pins seen xs else a # unique_pins (a # seen) xs)"

definition normalizeDockPins :: "js_value \<Rightarrow> os_app_id list" where
  "normalizeDockPins raw = (case raw of JArray xs \<Rightarrow> unique_pins [] xs | _ \<Rightarrow> DEFAULT_DOCK_PINS)"

definition loadDockPins :: "raw_text option \<Rightarrow> bool \<Rightarrow> os_app_id list" where
  "loadDockPins stored readable =
     (if \<not> readable then DEFAULT_DOCK_PINS
      else case stored of
        Some (Json (JArray xs)) \<Rightarrow> normalizeDockPins (JArray xs)
      | _ \<Rightarrow> DEFAULT_DOCK_PINS)"

definition encode_pins :: "os_app_id list \<Rightarrow> js_value" where
  "encode_pins pins = JArray (map (\<lambda>a. JString (app_id_name a)) pins)"

definition saveDockPins :: "os_app_id list \<Rightarrow> bool \<Rightarrow> raw_text option \<Rightarrow> bool \<times> raw_text option" where
  "saveDockPins pins writable stored =
     (if writable then (True, Some (Json (encode_pins (normalizeDockPins (encode_pins pins)))))
      else (False, stored))"

section \<open>The projection keeps the invariant\<close>

lemma sanitize_fields [simp]:
  "win_id (sanitize_window w) = win_id w" "win_mode (sanitize_window w) = win_mode w"
  "win_desktopId (sanitize_window w) = win_desktopId w" "win_minimized (sanitize_window w) = win_minimized w"
  "win_appId (sanitize_window w) = win_appId w" "win_runtimeIdentity (sanitize_window w) = None"
  "desk_id (sanitize_desktop d) = desk_id d" "desk_tree (sanitize_desktop d) = desk_tree d"
  "desk_floating (sanitize_desktop d) = desk_floating d" "tree_ids (sanitize_desktop d) = tree_ids d"
  by (simp_all add: sanitize_window_def sanitize_desktop_def tree_ids_def)

abbreviation sanitize_windows :: "os_window js_record \<Rightarrow> os_window js_record" where
  "sanitize_windows ws \<equiv> map (\<lambda>(i, w). (i, sanitize_window w)) ws"

lemma rec_get_sanitize: "rec_get (sanitize_windows ws) k = map_option sanitize_window (rec_get ws k)"
  by (induction ws) auto

lemma rec_wf_sanitize: "rec_wf (sanitize_windows ws) = rec_wf ws"
  by (simp add: comp_def split_def)

lemma shown_ids_sanitize:
  assumes "rec_wf ws"
  shows "set (shown_ids (sanitize_windows ws) did m) = set (shown_ids ws did m)"
  unfolding set_shown_ids [OF assms] set_shown_ids [OF rec_wf_sanitize [THEN iffD2, OF assms]] rec_get_sanitize by auto

lemma desktop_ids_sanitize [simp]: "desktop_ids (sanitizeSessionForPersistence s) = desktop_ids s"
  by (simp add: sanitizeSessionForPersistence_def desktop_ids_def image_image)

lemma ses_fields_sanitize [simp]:
  "ses_schema (sanitizeSessionForPersistence s) = 1" "ses_active (sanitizeSessionForPersistence s) = ses_active s"
  "ses_desktops (sanitizeSessionForPersistence s) = map sanitize_desktop (ses_desktops s)"
  "ses_windows (sanitizeSessionForPersistence s) = sanitize_windows (ses_windows s)"
  by (simp_all add: sanitizeSessionForPersistence_def)

lemma wf_window_sanitize: "wf_window ds kw \<Longrightarrow> wf_window ds (fst kw, sanitize_window (snd kw))"
  by (cases kw) (auto simp: wf_window_def sanitize_window_def split: option.splits)

lemma desk_ok_sanitize: "desk_ok F T d \<Longrightarrow> desk_ok F T (sanitize_desktop d)"
  unfolding desk_ok_def sanitize_fields by (simp add: sanitize_desktop_def nonempty_opt_def)

lemma sanitize_update:
  "ses_schema s = 1 \<Longrightarrow> sanitizeSessionForPersistence s =
     s\<lparr>ses_windows := sanitize_windows (ses_windows s), ses_desktops := map sanitize_desktop (ses_desktops s)\<rparr>"
  by (simp add: sanitizeSessionForPersistence_def)

lemma wf_sanitize:
  assumes wf: "wf_session s"
  shows "wf_session (sanitizeSessionForPersistence s)"
proof -
  have "wf_session (s\<lparr>ses_windows := sanitize_windows (ses_windows s),
      ses_desktops := map sanitize_desktop (ses_desktops s)\<rparr>)"
  proof (rule wf_session_map [OF wf])
    show "rec_wf (sanitize_windows (ses_windows s))"
      unfolding rec_wf_sanitize by (rule wf_sessionD(2) [OF wf])
    show "list_all (wf_window (desktop_ids s)) (sanitize_windows (ses_windows s))"
      using wf_sessionD(3) [OF wf] wf_window_sanitize by (simp add: list_all_iff split_def)
    have "wf_desktop (sanitize_windows (ses_windows s)) (sanitize_desktop d)" if "d \<in> set (ses_desktops s)" for d
      using wf_sessionD(4) [OF wf that]
      unfolding wf_desktop_def shown_ids_sanitize [OF wf_sessionD(2) [OF wf]] sanitize_fields
      by (rule desk_ok_sanitize)
    then show "list_all (wf_desktop (sanitize_windows (ses_windows s))) (map sanitize_desktop (ses_desktops s))"
      by (simp only: list_all_iff list.set_map ball_simps) simp
  qed simp
  moreover have "ses_schema s = 1" using wf by (simp only: wf_session_def)
  ultimately show ?thesis by (simp only: sanitize_update)
qed

end
