(* ===== verification/Session_Roundtrip.thy ===== *)
theory Session_Roundtrip
  imports Session_Persistence Window_Laws
begin

text \<open>
  The composition of the window operations with saving and loading: a session that satisfies the
  placement invariant is accepted by the validator after its projection, reading back what was
  written gives the projection, and projecting twice is projecting once.
\<close>

section \<open>Well-formed sessions are valid\<close>

text \<open>What a session needs besides the placement invariant to be accepted on loading: profile
  ids are not empty and recorded sizes are not negative (a zero is replaced on writing).\<close>

definition bounds_nonneg :: "float_bounds option \<Rightarrow> bool" where
  "bounds_nonneg ob = (case ob of None \<Rightarrow> True | Some b \<Rightarrow> fb_width b \<ge> 0 \<and> fb_height b \<ge> 0)"

definition storable_window :: "os_window \<Rightarrow> bool" where
  "storable_window w \<longleftrightarrow>
     ctx_profileId (win_ctx w) \<noteq> '''' \<and> bounds_nonneg (win_floatBounds w) \<and>
     (case win_restorePlacement w of None \<Rightarrow> True | Some rp \<Rightarrow> bounds_nonneg (rp_floatBounds rp))"

definition storable :: "os_session \<Rightarrow> bool" where
  "storable s \<longleftrightarrow>
     list_all (\<lambda>kw. storable_window (snd kw)) (ses_windows s) \<and>
     list_all (\<lambda>d. case desk_defaultCtx d of None \<Rightarrow> True | Some c \<Rightarrow> ctx_profileId c \<noteq> '''') (ses_desktops s)"

lemma count_concat: "count_list (concat xss) x = sum_list (map (\<lambda>xs. count_list xs x) xss)"
  by (induction xss) auto

lemma counts_of_wf:
  assumes wf: "wf_session s" and w: "get_window s wid = Some w"
  shows "count_list (concat (map desk_floating (ses_desktops s))) wid =
      (if \<not> win_minimized w \<and> win_mode w = Float then 1 else 0)" (is "?f = _")
    and "count_list (concat (map tree_ids (ses_desktops s))) wid =
      (if \<not> win_minimized w \<and> win_mode w = Tile then 1 else 0)" (is "?t = _")
proof -
  note mem = shown_ids_member [OF wf_sessionD(2) [OF wf] w]
  have one: "sum_list (map (\<lambda>d. if desk_id d = win_desktopId w then n else 0) (ses_desktops s)) = n" for n :: nat
    using wf_sessionD(1) [OF wf] wf_session_window(3) [OF wf w] by (simp add: sum_list_one desktop_ids_def)
  have cnt: "count_list (desk_floating d) wid =
        (if desk_id d = win_desktopId w then (if \<not> win_minimized w \<and> win_mode w = Float then 1 else 0) else 0)"
      "count_list (tree_ids d) wid =
        (if desk_id d = win_desktopId w then (if \<not> win_minimized w \<and> win_mode w = Tile then 1 else 0) else 0)"
    if d: "d \<in> set (ses_desktops s)" for d
    using desk_ok_count [OF wf_sessionD(4) [OF wf d, unfolded wf_desktop_def], of wid] by (auto simp: mem)
  have "?f = sum_list (map (\<lambda>d. if desk_id d = win_desktopId w
      then (if \<not> win_minimized w \<and> win_mode w = Float then 1 else 0) else 0) (ses_desktops s))"
    unfolding count_concat list.map_comp comp_def by (intro arg_cong [where f = sum_list] map_cong refl) (simp add: cnt)
  then show "?f = (if \<not> win_minimized w \<and> win_mode w = Float then 1 else 0)" by (simp only: one)
  have "?t = sum_list (map (\<lambda>d. if desk_id d = win_desktopId w
      then (if \<not> win_minimized w \<and> win_mode w = Tile then 1 else 0) else 0) (ses_desktops s))"
    unfolding count_concat list.map_comp comp_def by (intro arg_cong [where f = sum_list] map_cong refl) (simp add: cnt)
  then show "?t = (if \<not> win_minimized w \<and> win_mode w = Tile then 1 else 0)" by (simp only: one)
qed

lemma wf_pane_ok: "wf_pane p \<Longrightarrow> '''' \<notin> set (items p) \<Longrightarrow> pane_ok p"
  by (auto simp: wf_pane_def pane_ok_def split: option.splits)

lemma wf_tree_valid:
  assumes "wf_tile t" and "'''' \<notin> set (tree_items t)"
  shows "tile_valid (\<lambda>_. True) t \<and> list_all pane_ok (collectTilePanes t)"
  using assms wf_tileD(5) [OF assms(1)] wf_pane_ok
  by (force intro!: wf_tile_valid simp: wf_tile_def list_all_iff)

lemma shown_as_iff: "rec_wf ws \<Longrightarrow> shown_as ws did m i \<longleftrightarrow> i \<in> set (shown_ids ws did m)"
  by (auto simp: shown_as_def set_shown_ids split: option.splits)

lemma wf_desktop_valid:
  assumes wf: "wf_session s" and st: "storable s" and d: "d \<in> set (ses_desktops s)"
  shows "valid_desktop (ses_windows s) d"
proof -
  note ws = wf_sessionD(2) [OF wf]
  have ok: "desk_ok (set (shown_ids (ses_windows s) (desk_id d) Float)) (set (shown_ids (ses_windows s) (desk_id d) Tile)) d"
    using wf_sessionD(4) [OF wf d] by (simp only: wf_desktop_def)
  have "'''' \<notin> set (tree_ids d)"
  proof
    assume "'''' \<in> set (tree_ids d)"
    with ok obtain w where "get_window s '''' = Some w" by (auto simp: desk_ok_def set_shown_ids [OF ws])
    from wf_session_window(2) [OF wf this] show False by simp
  qed
  then have tr: "case desk_tree d of None \<Rightarrow> True
      | Some t \<Rightarrow> tile_valid (\<lambda>_. True) t \<and> list_all pane_ok (collectTilePanes t)"
    using ok by (auto simp: desk_ok_def tree_ids_def dest: wf_tree_valid split: option.splits)
  have cx: "case desk_defaultCtx d of None \<Rightarrow> True | Some c \<Rightarrow> ctx_profileId c \<noteq> ''''"
    using st d by (auto simp: storable_def list_all_iff)
  have "set (desk_floating d) = set (shown_ids (ses_windows s) (desk_id d) Float)"
    "set (tree_ids d) = set (shown_ids (ses_windows s) (desk_id d) Tile)"
    "distinct (desk_floating d)" "case desk_focused d of None \<Rightarrow> True | Some f \<Rightarrow> f \<in> set (desk_floating d) \<or> f \<in> set (tree_ids d)"
    using ok by (auto simp: desk_ok_def split: option.splits)
  with tr cx show ?thesis unfolding valid_desktop_def list_all_iff by (simp add: shown_as_iff [OF ws])
qed

lemma sanitize_bounds_positive: "bounds_nonneg ob \<Longrightarrow> bounds_positive (map_option sanitize_bounds ob)"
  by (auto simp: bounds_nonneg_def bounds_positive_def sanitize_bounds_def split: option.splits)

lemma bounds_positive_nonneg: "bounds_positive ob \<Longrightarrow> bounds_nonneg ob"
  by (auto simp: bounds_nonneg_def bounds_positive_def split: option.splits)

lemma wf_window_valid:
  assumes "wf_window ds (k, w)" and "storable_window w"
  shows "valid_window ds (k, sanitize_window w)"
  using assms
  by (auto simp: wf_window_def storable_window_def valid_window_def sanitize_window_def sanitize_context_def
      sanitize_bounds_positive split: option.splits)

lemma storable_window_sanitize: "storable_window w \<Longrightarrow> storable_window (sanitize_window w)"
  by (auto simp: storable_window_def sanitize_window_def sanitize_context_def split: option.splits
      intro: bounds_positive_nonneg sanitize_bounds_positive)

lemma storable_sanitize: "storable s \<Longrightarrow> storable (sanitizeSessionForPersistence s)"
  by (auto simp: storable_def list_all_iff storable_window_sanitize)
     (auto simp: sanitize_desktop_def sanitize_default_ctx_def split: option.splits)

lemma counts_ok_wf:
  assumes wf: "wf_session s" and kw: "kw \<in> set (ses_windows s)"
  shows "counts_ok s kw"
proof -
  have "get_window s (fst kw) = Some (snd kw)" using kw rec_get_iff [OF wf_sessionD(2) [OF wf]] by simp
  note c = counts_of_wf [OF wf this]
  show ?thesis by (simp add: counts_ok_def Let_def c) (cases "win_mode (snd kw)"; simp)
qed

theorem sanitize_valid:
  assumes wf: "wf_session s" and st: "storable s"
  shows "valid_session (sanitizeSessionForPersistence s)"
proof -
  let ?s = "sanitizeSessionForPersistence s"
  note wf' = wf_sanitize [OF wf] and st' = storable_sanitize [OF st]
  have "valid_window (desktop_ids s) (k, sanitize_window w)" if "(k, w) \<in> set (ses_windows s)" for k w
    using that wf_sessionD(3) [OF wf] st by (intro wf_window_valid) (auto simp: list_all_iff storable_def)
  then have win: "list_all (valid_window (desktop_ids ?s)) (ses_windows ?s)" by (auto simp: list_all_iff)
  have dsk: "list_all (valid_desktop (ses_windows ?s)) (ses_desktops ?s)"
    using wf_desktop_valid [OF wf' st'] by (simp only: list_all_iff ball_simps) blast
  have cnt: "list_all (counts_ok ?s) (ses_windows ?s)"
    unfolding list_all_iff using counts_ok_wf [OF wf'] by blast
  have "ses_desktops ?s \<noteq> []" using wf_sessionD(5) [OF wf'] by (auto simp: desktop_ids_def)
  then show ?thesis
    using wf' win dsk cnt unfolding valid_session_def by (simp only: wf_session_def simp_thms)
qed

section \<open>Reading back\<close>

lemma real_of_js_real [simp]: "real_of (js_real x) = x" "is_finite_number (js_real x)"
  by (simp_all add: js_real_def)

lemma decode_encode_bounds [simp]: "decode_bounds (encode_bounds b) = b"
  by (simp add: decode_bounds_def encode_bounds_def)

lemma decode_encode_mode [simp]: "decode_mode (encode_mode m) = m"
  by (cases m) (simp_all add: decode_mode_def)

lemma opt_object_encode:
  assumes "\<And>x. is_object (f x)" and "\<And>x. g (f x) = x"
  shows "opt_object g (case ox of None \<Rightarrow> JUndefined | Some x \<Rightarrow> f x) = ox"
  using assms by (simp add: opt_object_def split: option.splits)

lemma decode_encode_restore [simp]: "decode_restore (encode_restore r) = r"
  by (simp add: decode_restore_def encode_restore_fields opt_object_encode)

text \<open>The fields of a context that are written; the others are dropped by the projection.\<close>

definition plain_context :: "window_context \<Rightarrow> bool" where
  "plain_context c \<longleftrightarrow>
     ctx_generation c = None \<and> ctx_gitRootId c = None \<and> ctx_operation c = None \<and> ctx_target c = None"

lemma opt_string_of_case [simp]: "opt_string_of (case o' of None \<Rightarrow> JUndefined | Some s \<Rightarrow> JString s) = o'"
  by (simp split: option.split)

lemma decode_encode_context: "plain_context c \<Longrightarrow> decode_context (encode_context c) = c"
  by (simp add: decode_context_def js_get_encode_context plain_context_def)

definition plain_window :: "os_window \<Rightarrow> bool" where
  "plain_window w \<longleftrightarrow> plain_context (win_ctx w) \<and> win_runtimeIdentity w = None"

definition plain_session :: "os_session \<Rightarrow> bool" where
  "plain_session s \<longleftrightarrow>
     ses_schema s = 1 \<and> list_all (\<lambda>kw. plain_window (snd kw)) (ses_windows s) \<and>
     list_all (\<lambda>d. case desk_defaultCtx d of None \<Rightarrow> True | Some c \<Rightarrow> plain_context c) (ses_desktops s)"

lemma decode_encode_app [simp]: "decode_app (JString (app_id_name a)) = a"
  by (simp add: decode_app_def app_of_name_name)

lemma decode_encode_window:
  assumes "plain_window w"
  shows "decode_window (encode_window w) = w"
proof -
  have "(case (case win_appState w of None \<Rightarrow> JUndefined | Some fs \<Rightarrow> JObject fs) of
      JObject fs \<Rightarrow> Some fs | JArray _ \<Rightarrow> Some [] | _ \<Rightarrow> None) = win_appState w"
    by (cases "win_appState w") simp_all
  then show ?thesis
    using assms by (simp add: decode_window_def js_get_encode_window plain_window_def decode_encode_context opt_object_encode)
qed

lemma decode_encode_desktop:
  assumes "case desk_defaultCtx d of None \<Rightarrow> True | Some c \<Rightarrow> plain_context c"
  shows "decode_desktop (encode_desktop d) = d"
proof -
  have "opt_string_of (encode_active (desk_focused d)) = desk_focused d" by (cases "desk_focused d") (simp_all add: encode_active_def)
  moreover have "opt_object decode_context (case desk_defaultCtx d of None \<Rightarrow> JUndefined | Some c \<Rightarrow> encode_context c) =
      desk_defaultCtx d"
    using assms by (auto simp: opt_object_def decode_encode_context split: option.split)
  moreover have "(if (case desk_tree d of None \<Rightarrow> JNull | Some t \<Rightarrow> encode_tile t) = JNull then None
      else decode_tile (case desk_tree d of None \<Rightarrow> JNull | Some t \<Rightarrow> encode_tile t)) = desk_tree d"
    by (cases "desk_tree d") simp_all
  ultimately show ?thesis by (simp only: decode_desktop_def js_get_encode_desktop) simp
qed

lemma decode_encode_session:
  assumes "plain_session s" and "rec_wf (ses_windows s)"
  shows "decode_session (encode_session s) = s"
proof -
  have "rec_wf (encode_windows (ses_windows s))" using assms(2) by (simp add: comp_def split_def)
  then have "js_entries (JObject (encode_windows (ses_windows s))) = encode_windows (ses_windows s)"
    by (simp only: js_entries.simps clearjunk_distinct)
  moreover have "map (\<lambda>(i, w). (i, decode_window w)) (encode_windows (ses_windows s)) = ses_windows s"
    using assms(1) by (auto simp: plain_session_def list_all_iff decode_encode_window intro!: map_idI)
  moreover have "map decode_desktop (map encode_desktop (ses_desktops s)) = ses_desktops s"
    using assms(1) by (auto simp: plain_session_def list_all_iff decode_encode_desktop intro!: map_idI)
  ultimately show ?thesis
    using assms(1) by (simp add: decode_session_def encode_session_def plain_session_def)
qed

lemma sanitize_plain: "plain_session (sanitizeSessionForPersistence s)"
  by (auto simp: plain_session_def list_all_iff)
     (auto simp: plain_window_def plain_context_def sanitize_window_def sanitize_context_def sanitize_desktop_def
       sanitize_default_ctx_def split: option.splits)

section \<open>Projecting twice\<close>

lemma map_of_keep_string [simp]:
  "map_of (keep_string st k) j =
     (if j = k \<and> is_string (state_field (Some st) k) then Some (state_field (Some st) k) else None)"
  by (simp add: keep_string_def)

lemma state_field_append:
  "state_field (Some (xs @ ys)) k = (case map_of xs k of None \<Rightarrow> state_field (Some ys) k | Some v \<Rightarrow> v)"
  by (simp add: state_field_def map_add_def split: option.split)

lemma state_field_Nil [simp]: "state_field (Some []) k = JUndefined"
  by (simp add: state_field_def)

lemma state_field_keep [simp]:
  "state_field (Some (keep_string st k)) j =
     (if j = k \<and> is_string (state_field (Some st) k) then state_field (Some st) k else JUndefined)"
  by (simp add: state_field_def)

lemma keep_strings_idem: "distinct ks \<Longrightarrow> keep_strings (keep_strings st ks) ks = keep_strings st ks"
proof -
  have field: "state_field (Some (keep_strings st ks)) k =
      (if k \<in> set ks \<and> is_string (state_field (Some st) k) then state_field (Some st) k else JUndefined)" for k ks
    by (induction ks) (auto simp: keep_strings_def state_field_append split: option.splits)
  have "keep_string (keep_strings st ks) k = keep_string st k" if "k \<in> set ks" for k
    using that by (simp add: keep_string_def field)
  then show ?thesis by (simp add: keep_strings_def cong: map_cong)
qed

lemma collect_upto_length: "length acc < n \<Longrightarrow> length (collect_upto f n acc xs) \<le> n"
  by (induction xs arbitrary: acc) (auto split: option.split)

lemma collect_upto_fixed:
  assumes f: "\<And>x y. f x = Some y \<Longrightarrow> f y = Some y" and "list_all (\<lambda>y. f y = Some y) acc"
  shows "list_all (\<lambda>y. f y = Some y) (collect_upto f n acc xs)"
  using assms(2)
proof (induction xs arbitrary: acc)
  case (Cons x xs)
  then show ?case using f [of x] by (cases "f x") auto
qed simp

lemma collect_upto_all:
  assumes "list_all (\<lambda>y. f y = Some y) ys" and "length acc + length ys \<le> n"
  shows "collect_upto f n acc ys = acc @ ys"
  using assms
proof (induction ys arbitrary: acc)
  case (Cons y ys)
  have "ys = [] \<or> length acc + 1 < n" using Cons.prems by (cases ys) auto
  then show ?case using Cons.IH [of "acc @ [y]"] Cons.prems by auto
qed simp

lemma collect_upto_idem:
  assumes "\<And>x y. f x = Some y \<Longrightarrow> f y = Some y" and "0 < n"
  shows "collect_upto f n [] (collect_upto f n [] xs) = collect_upto f n [] xs"
proof -
  have "list_all (\<lambda>y. f y = Some y) (collect_upto f n [] xs)" by (rule collect_upto_fixed) (auto intro: assms(1))
  moreover have "length (collect_upto f n [] xs) \<le> n" using assms(2) by (intro collect_upto_length) simp
  ultimately show ?thesis by (simp add: collect_upto_all)
qed

text \<open>One projected field, whatever the code computes for it.\<close>

definition kept :: "string \<Rightarrow> js_value js_record \<Rightarrow> bool" where
  "kept k fs \<longleftrightarrow> (\<forall>j. map_of fs j \<noteq> None \<longrightarrow> j = k)"

lemma kept_string [simp]: "kept k (keep_string st k)"
  by (simp add: kept_def)

lemma kept_collected [simp]: "kept k (keep_collected st k f)"
  by (simp add: kept_def keep_collected_def Let_def split: js_value.split)

lemma kept_singleton [simp]: "kept k [(k, v)]" "kept k []"
  by (simp_all add: kept_def)

lemma state_field_kept_other [simp]:
  "kept k fs \<Longrightarrow> j \<noteq> k \<Longrightarrow> state_field (Some (fs @ gs)) j = state_field (Some gs) j"
  "kept k fs \<Longrightarrow> j \<noteq> k \<Longrightarrow> state_field (Some fs) j = JUndefined"
  "kept k fs \<Longrightarrow> k \<noteq> j \<Longrightarrow> state_field (Some (fs @ gs)) j = state_field (Some gs) j"
  "kept k fs \<Longrightarrow> k \<noteq> j \<Longrightarrow> state_field (Some fs) j = JUndefined"
  by (auto simp: state_field_append state_field_def kept_def split: option.splits)

lemma state_field_kept_same:
  "state_field (Some gs) k = JUndefined \<Longrightarrow> state_field (Some (fs @ gs)) k = state_field (Some fs) k"
  by (auto simp: state_field_append state_field_def split: option.splits)

lemma state_field_single [simp]: "state_field (Some [(k, v)]) k = v"
  by (simp add: state_field_def)

lemma keep_string_cong:
  "state_field (Some st') k = state_field (Some (keep_string st k)) k \<Longrightarrow> keep_string st' k = keep_string st k"
  by (cases "is_string (state_field (Some st) k)") (simp_all add: keep_string_def)

lemma keep_collected_cong:
  assumes "state_field (Some st') k = state_field (Some (keep_collected st k f)) k"
    and "\<And>x y. f x = Some y \<Longrightarrow> f y = Some y"
  shows "keep_collected st' k f = keep_collected st k f"
proof (cases "state_field (Some st) k")
  case (JArray xs)
  have "collect_upto f 64 [] (collect_upto f 64 [] xs) = collect_upto f 64 [] xs"
    by (rule collect_upto_idem) (auto intro: assms(2))
  then show ?thesis using assms(1) JArray by (cases "collect_upto f 64 [] xs = []") (simp_all add: keep_collected_def)
qed (use assms(1) in \<open>simp_all add: keep_collected_def\<close>)

lemma open_workspace_idem: "open_workspace x = Some y \<Longrightarrow> open_workspace y = Some y"
  by (auto simp: open_workspace_def split: if_splits)

lemma disclosed_workspace_idem: "disclosed_workspace x = Some y \<Longrightarrow> disclosed_workspace y = Some y"
  by (auto simp: disclosed_workspace_def split: if_splits)

lemma four_fields:
  assumes "kept a A" "kept b B" "kept c C" "kept d D" and "distinct [a, b, c, d]"
  shows "state_field (Some (A @ B @ C @ D)) a = state_field (Some A) a"
    and "state_field (Some (A @ B @ C @ D)) b = state_field (Some B) b"
    and "state_field (Some (A @ B @ C @ D)) c = state_field (Some C) c"
    and "state_field (Some (A @ B @ C @ D)) d = state_field (Some D) d"
  using assms by (simp_all add: state_field_kept_same)

lemma five_fields:
  assumes "kept a A" "kept b B" "kept c C" "kept d D" "kept e F" and "distinct [a, b, c, d, e]"
  shows "state_field (Some (A @ B @ C @ D @ F)) a = state_field (Some A) a"
    and "state_field (Some (A @ B @ C @ D @ F)) b = state_field (Some B) b"
    and "state_field (Some (A @ B @ C @ D @ F)) c = state_field (Some C) c"
    and "state_field (Some (A @ B @ C @ D @ F)) d = state_field (Some D) d"
    and "state_field (Some (A @ B @ C @ D @ F)) e = state_field (Some F) e"
  using assms by (simp_all add: state_field_kept_same)

text \<open>A field kept as it is when it passes a test, and the list of expanded paths.\<close>

definition keep_if :: "(js_value \<Rightarrow> bool) \<Rightarrow> js_value js_record \<Rightarrow> string \<Rightarrow> js_value js_record" where
  "keep_if P st k = (if P (state_field (Some st) k) then [(k, state_field (Some st) k)] else [])"

definition keep_paths :: "js_value js_record \<Rightarrow> string \<Rightarrow> js_value js_record" where
  "keep_paths st k =
     (case state_field (Some st) k of
        JArray xs \<Rightarrow> if list_all is_string xs then [(k, JArray (take 100 xs))] else []
      | _ \<Rightarrow> [])"

lemma kept_if [simp]: "kept k (keep_if P st k)" "kept k (keep_paths st k)"
  by (simp_all add: kept_def keep_if_def keep_paths_def split: js_value.split)

lemma keep_if_cong:
  "\<not> P JUndefined \<Longrightarrow> state_field (Some st') k = state_field (Some (keep_if P st k)) k \<Longrightarrow> keep_if P st' k = keep_if P st k"
  by (simp add: keep_if_def split: if_splits)

lemma keep_paths_cong:
  assumes "state_field (Some st') k = state_field (Some (keep_paths st k)) k"
  shows "keep_paths st' k = keep_paths st k"
proof (cases "state_field (Some st) k")
  case (JArray xs)
  then show ?thesis
    using assms by (cases "list_all is_string xs") (auto simp: keep_paths_def list_all_iff dest: in_set_takeD)
qed (use assms in \<open>simp_all add: keep_paths_def\<close>)

lemma agent_hub_fields:
  "agent_hub_state st = keep_collected st ''openWorkspaces'' open_workspace @ keep_if is_bool st ''sidebarHidden'' @
     keep_collected st ''disclosedWorkspaces'' disclosed_workspace @ keep_if short_string st ''selectedWorkspace''"
  by (simp add: agent_hub_state_def keep_if_def Let_def)

lemma files_fields:
  "files_state st = keep_string st ''selectedPath'' @
     keep_if (\<lambda>m. m = JString ''workspace'' \<or> m = JString ''projects'') st ''mode'' @
     keep_string st ''projectFilter'' @ keep_paths st ''expandedPaths'' @ keep_if is_finite_number st ''scrollTop''"
  by (simp add: files_state_def keep_if_def keep_paths_def Let_def)

lemma agent_hub_idem: "agent_hub_state (agent_hub_state st) = agent_hub_state st"
proof -
  let ?s = "agent_hub_state st"
  note f = four_fields [OF kept_collected kept_if(1) kept_collected kept_if(1), of "''openWorkspaces''"
      "''sidebarHidden''" "''disclosedWorkspaces''" "''selectedWorkspace''" st open_workspace is_bool st st
      disclosed_workspace short_string st, folded agent_hub_fields]
  have "keep_collected ?s ''openWorkspaces'' open_workspace = keep_collected st ''openWorkspaces'' open_workspace"
    by (rule keep_collected_cong [OF f(1)]) (simp_all add: open_workspace_idem)
  moreover have "keep_collected ?s ''disclosedWorkspaces'' disclosed_workspace =
      keep_collected st ''disclosedWorkspaces'' disclosed_workspace"
    by (rule keep_collected_cong [OF f(3)]) (simp_all add: disclosed_workspace_idem)
  moreover have "keep_if is_bool ?s ''sidebarHidden'' = keep_if is_bool st ''sidebarHidden''"
    by (rule keep_if_cong [OF _ f(2)]) simp_all
  moreover have "keep_if short_string ?s ''selectedWorkspace'' = keep_if short_string st ''selectedWorkspace''"
    by (rule keep_if_cong [OF _ f(4)]) simp_all
  ultimately show ?thesis by (simp only: agent_hub_fields [of ?s]) (simp only: agent_hub_fields)
qed

lemma files_idem: "files_state (files_state st) = files_state st"
proof -
  let ?s = "files_state st" and ?m = "\<lambda>m. m = JString ''workspace'' \<or> m = JString ''projects''"
  note f = five_fields [OF kept_string kept_if(1) kept_string kept_if(2) kept_if(1), of "''selectedPath''" "''mode''"
      "''projectFilter''" "''expandedPaths''" "''scrollTop''" st ?m st st st is_finite_number st, folded files_fields]
  have "keep_string ?s ''selectedPath'' = keep_string st ''selectedPath''"
    by (rule keep_string_cong [OF f(1)]) simp
  moreover have "keep_string ?s ''projectFilter'' = keep_string st ''projectFilter''"
    by (rule keep_string_cong [OF f(3)]) simp
  moreover have "keep_if ?m ?s ''mode'' = keep_if ?m st ''mode''"
    by (rule keep_if_cong [OF _ f(2)]) simp_all
  moreover have "keep_paths ?s ''expandedPaths'' = keep_paths st ''expandedPaths''"
    by (rule keep_paths_cong [OF f(4)]) simp
  moreover have "keep_if is_finite_number ?s ''scrollTop'' = keep_if is_finite_number st ''scrollTop''"
    by (rule keep_if_cong [OF _ f(5)]) simp_all
  ultimately show ?thesis by (simp only: files_fields [of ?s]) (simp only: files_fields)
qed

lemma projected_idem: "projected_state a (projected_state a st) = projected_state a st"
  by (cases a) (simp_all add: keep_strings_idem files_idem agent_hub_idem)

lemma sanitizeAppState_idem: "sanitizeAppState a (sanitizeAppState a st) = sanitizeAppState a st"
  by (auto simp: sanitizeAppState_def Let_def projected_idem split: option.split)

lemma sanitize_parts_idem [simp]:
  "sanitize_bounds (sanitize_bounds b) = sanitize_bounds b"
  "sanitize_context (sanitize_context c) = sanitize_context c"
  "nonempty_opt (nonempty_opt x) = nonempty_opt x"
  "sanitize_default_ctx (sanitize_default_ctx c) = sanitize_default_ctx c"
  by (simp_all add: sanitize_bounds_def sanitize_context_def nonempty_opt_def sanitize_default_ctx_def)

lemma map_option_idem: "(\<And>x. f (f x) = f x) \<Longrightarrow> map_option f (map_option f ox) = map_option f ox"
  by (cases ox) simp_all

lemma sanitize_window_idem: "sanitize_window (sanitize_window w) = sanitize_window w"
  by (rule os_window.equality) (simp_all add: sanitize_window_def sanitizeAppState_idem map_option_idem del: option.map_comp)

lemma sanitize_desktop_idem: "sanitize_desktop (sanitize_desktop d) = sanitize_desktop d"
  by (rule os_desktop.equality) (simp_all add: sanitize_desktop_def map_option_idem del: option.map_comp)

lemma sanitize_idem: "sanitizeSessionForPersistence (sanitizeSessionForPersistence s) = sanitizeSessionForPersistence s"
  by (simp add: sanitizeSessionForPersistence_def sanitize_window_idem sanitize_desktop_idem comp_def split_def)

section \<open>Saving and loading\<close>

lemma written_accepted:
  assumes "wf_session s" and "storable s"
  shows "validateOsSession (encode_session (sanitizeSessionForPersistence s)) = None"
    and "decode_session (encode_session (sanitizeSessionForPersistence s)) = sanitizeSessionForPersistence s"
  using validate_encode [OF sanitize_valid [OF assms]] decode_encode_session [OF sanitize_plain wf_sessionD(2) [OF wf_sanitize [OF assms(1)]]]
  by simp_all

lemma load_written:
  assumes "wf_session s" and "storable s"
    and "ps_storage st = Some (Json (encode_session (sanitizeSessionForPersistence s)))"
  shows "loadOsSession st True = (sanitizeSessionForPersistence s, st, None)"
  using written_accepted [OF assms(1,2)] assms(3) by (simp add: loadOsSession_def sanitize_idem)

lemma import_exported:
  assumes "wf_session s" and "storable s"
  shows "importOsSessionJson (exportOsSessionJson s) = Inr (sanitizeSessionForPersistence s)"
  using written_accepted [OF assms] by (simp add: importOsSessionJson_def exportOsSessionJson_def sanitize_idem)

text \<open>Every session a load returns is valid.\<close>

lemma valid_window_sanitize: "valid_window ds (k, w) \<Longrightarrow> valid_window ds (k, sanitize_window w)"
  using sanitize_bounds_positive bounds_positive_nonneg
  by (auto simp: valid_window_def sanitize_window_def sanitize_context_def split: option.splits)

lemma shown_as_sanitize: "shown_as (sanitize_windows ws) did m i = shown_as ws did m i"
  by (simp add: shown_as_def rec_get_sanitize split: option.split)

lemma valid_desktop_sanitize:
  "valid_desktop ws d \<Longrightarrow> valid_desktop (sanitize_windows ws) (sanitize_desktop d)"
  unfolding valid_desktop_def sanitize_fields shown_as_sanitize
  by (auto simp: sanitize_desktop_def sanitize_default_ctx_def nonempty_opt_def split: option.splits)

lemma counts_ok_sanitize: "counts_ok s (k, w) \<Longrightarrow> counts_ok (sanitizeSessionForPersistence s) (k, sanitize_window w)"
  by (simp add: counts_ok_def comp_def Let_def)

lemma valid_sanitize:
  assumes v: "valid_session s"
  shows "valid_session (sanitizeSessionForPersistence s)"
proof -
  have "rec_wf (sanitize_windows (ses_windows s))"
    unfolding rec_wf_sanitize using v by (simp only: valid_session_def)
  moreover have "list_all (valid_window (desktop_ids s)) (sanitize_windows (ses_windows s))"
    using v valid_window_sanitize by (fastforce simp: valid_session_def list_all_iff)
  moreover have "list_all (valid_desktop (sanitize_windows (ses_windows s))) (map sanitize_desktop (ses_desktops s))"
    using v valid_desktop_sanitize unfolding valid_session_def list_all_iff by auto
  moreover have "list_all (counts_ok (sanitizeSessionForPersistence s)) (sanitize_windows (ses_windows s))"
    using v counts_ok_sanitize unfolding valid_session_def list_all_iff by auto
  moreover have "distinct (map desk_id (map sanitize_desktop (ses_desktops s)))"
    using v by (simp add: valid_session_def comp_def)
  ultimately show ?thesis
    using v unfolding valid_session_def ses_fields_sanitize desktop_ids_sanitize by simp
qed

lemma valid_default: "valid_session default_session"
  by (simp add: default_session_def createDefaultOsSession_def valid_session_def valid_desktop_def desktop_ids_def tree_ids_def)

lemma load_valid: "valid_session (fst (loadOsSession st readable))"
  by (auto simp: loadOsSession_def valid_default valid_sanitize validate_sound split: option.split raw_text.split)

section \<open>A rejected document is kept\<close>

datatype persistence_event =
    LoadSession bool
  | SaveSession os_session bool
  | ResumeAutosave

fun persistence_step :: "persistence_state \<Rightarrow> persistence_event \<Rightarrow> persistence_state" where
  "persistence_step st (LoadSession readable) = fst (snd (loadOsSession st readable))"
| "persistence_step st (SaveSession s writable) = fst (snd (saveOsSession st s writable))"
| "persistence_step st ResumeAutosave = resumeAutosave st"

definition is_rejected :: "raw_text \<Rightarrow> bool" where
  "is_rejected raw = (case raw of Corrupt t \<Rightarrow> t \<noteq> '''' | Json v \<Rightarrow> validateOsSession v \<noteq> None)"

definition holds_bytes :: "raw_text \<Rightarrow> persistence_state \<Rightarrow> bool" where
  "holds_bytes raw st \<longleftrightarrow> ps_suspended st \<and> ps_storage st = Some raw \<and> ps_corruptBytes st = Some raw"

lemma load_rejected:
  assumes "ps_storage st = Some raw" and "is_rejected raw"
  shows "fst (loadOsSession st True) = default_session" and "holds_bytes raw (fst (snd (loadOsSession st True)))"
    and "snd (snd (loadOsSession st True)) \<noteq> None"
  using assms by (auto simp: loadOsSession_def is_rejected_def holds_bytes_def split: raw_text.splits option.splits)

lemma load_storage [simp]: "ps_storage (fst (snd (loadOsSession st readable))) = ps_storage st"
  by (simp add: loadOsSession_def split: option.split raw_text.split)

lemma step_holds_bytes:
  assumes "holds_bytes raw st" and "e \<noteq> ResumeAutosave" and "is_rejected raw"
  shows "holds_bytes raw (persistence_step st e)"
proof (cases e)
  case (LoadSession r)
  then show ?thesis
    using assms load_rejected(2) [of st raw] by (cases r) (simp_all add: holds_bytes_def loadOsSession_def)
qed (use assms in \<open>simp_all add: holds_bytes_def saveOsSession_def\<close>)

interpretation rejected: event_machine persistence_step "\<lambda>_ e. e \<noteq> ResumeAutosave"
    "\<lambda>st. is_rejected raw \<and> holds_bytes raw st" for raw
  by unfold_locales (auto intro: step_holds_bytes)

lemma sanitize_window_plain: "plain_window (sanitize_window w)"
  by (simp add: plain_window_def plain_context_def sanitize_window_def sanitize_context_def)

lemma plain_unwritten:
  assumes "plain_window w"
  shows "js_get (encode_window w) ''runtimeIdentity'' = JUndefined"
    and "list_all (\<lambda>f. js_get (encode_context (win_ctx w)) f = JUndefined)
      [''generation'', ''gitRootId'', ''operation'', ''target'']"
  using assms by (auto simp: encode_window_def encode_context_def plain_window_def plain_context_def map_add_def
      split: option.splits)

end
