(* ===== verification/Dock_Pins.thy ===== *)
theory Dock_Pins
  imports Session_Roundtrip
begin

text \<open>
  The dock pins, \<^verbatim>\<open>packages/ui/src/os/dock-pins.ts\<close>, and the export envelope,
  \<^verbatim>\<open>packages/ui/src/os/persistence.ts\<close> lines 773-940. The module state is the cached
  snapshot, the storage slot, the set of subscribers in insertion order and the log of the calls
  made to them. Writes of other tabs change the slot at once; the storage events that announce them
  are queued and delivered later, in order. The listener and the provider that the module registers
  on loading are the ones the envelope uses.
\<close>

section \<open>Normalization\<close>

lemma unique_pins_set: "set (unique_pins seen xs) \<inter> set seen = {}"
proof (induction seen xs rule: unique_pins.induct)
  case (2 seen x xs)
  then show ?case by (auto split: option.split)
qed simp

lemma distinct_unique_pins: "distinct (unique_pins seen xs)"
proof (induction seen xs rule: unique_pins.induct)
  case (2 seen x xs)
  have "a \<notin> set (unique_pins (a # seen) xs)" for a using unique_pins_set [of "a # seen" xs] by auto
  with 2 show ?case by (auto split: option.split)
qed simp

lemma unique_pins_fixed:
  "distinct ps \<Longrightarrow> set ps \<inter> set seen = {} \<Longrightarrow> unique_pins seen (map (\<lambda>a. JString (app_id_name a)) ps) = ps"
  by (induction ps arbitrary: seen) (auto simp: app_of_name_name)

lemma set_unique_pins: "set (unique_pins seen xs) = {a. \<exists>x \<in> set xs. known_pin x = Some a} - set seen"
  by (induction seen xs rule: unique_pins.induct) (auto split: option.split)

lemma distinct_normalizeDockPins: "distinct (normalizeDockPins v)"
  by (auto simp: normalizeDockPins_def DEFAULT_DOCK_PINS_def distinct_unique_pins split: js_value.split)

lemma normalize_encode: "distinct ps \<Longrightarrow> normalizeDockPins (encode_pins ps) = ps"
  by (simp add: normalizeDockPins_def encode_pins_def unique_pins_fixed)

lemma set_normalize_encode: "set (normalizeDockPins (encode_pins ps)) = set ps"
  by (auto simp: normalizeDockPins_def encode_pins_def set_unique_pins app_of_name_name)

section \<open>The dock module\<close>

record dock_state =
  dock_snapshot :: "os_app_id list"
  dock_storage :: "raw_text option"
  dock_subscribers :: "nat list"
  dock_calls :: "nat list"

text \<open>The module body: the snapshot is what the storage holds.\<close>

definition init_dock :: "raw_text option \<Rightarrow> bool \<Rightarrow> dock_state" where
  "init_dock stored readable =
     \<lparr>dock_snapshot = loadDockPins stored readable, dock_storage = stored, dock_subscribers = [], dock_calls = []\<rparr>"

definition notifySubscribers :: "dock_state \<Rightarrow> dock_state" where
  "notifySubscribers st = st\<lparr>dock_calls := dock_calls st @ dock_subscribers st\<rparr>"

definition updateSnapshot :: "dock_state \<Rightarrow> os_app_id list \<Rightarrow> bool \<times> dock_state" where
  "updateSnapshot st next =
     (if dock_snapshot st = next then (False, st)
      else (True, notifySubscribers (st\<lparr>dock_snapshot := next\<rparr>)))"

definition getDockPinsSnapshot :: "dock_state \<Rightarrow> os_app_id list" where
  "getDockPinsSnapshot st = dock_snapshot st"

definition subscribeDockPins :: "dock_state \<Rightarrow> nat \<Rightarrow> dock_state" where
  "subscribeDockPins st l = st\<lparr>dock_subscribers := List.insert l (dock_subscribers st)\<rparr>"

definition unsubscribeDockPins :: "dock_state \<Rightarrow> nat \<Rightarrow> dock_state" where
  "unsubscribeDockPins st l = st\<lparr>dock_subscribers := filter (\<lambda>k. k \<noteq> l) (dock_subscribers st)\<rparr>"

datatype storage_mode = StorageOk | StorageMissing | StorageThrows

datatype set_pins_result = Persisted | NotAvailable | WriteFailed

definition setDockPins :: "dock_state \<Rightarrow> storage_mode \<Rightarrow> os_app_id list \<Rightarrow> set_pins_result \<times> dock_state" where
  "setDockPins st m pins =
     (let normalized = normalizeDockPins (encode_pins pins) in
      case m of
        StorageMissing \<Rightarrow> (NotAvailable, st)
      | StorageThrows \<Rightarrow> (WriteFailed, st)
      | StorageOk \<Rightarrow>
          (Persisted, snd (updateSnapshot (st\<lparr>dock_storage := Some (Json (encode_pins normalized))\<rparr>) normalized)))"

definition toggleDockPin :: "dock_state \<Rightarrow> storage_mode \<Rightarrow> os_app_id \<Rightarrow> set_pins_result \<times> dock_state" where
  "toggleDockPin st m a =
     (let current = getDockPinsSnapshot st;
          next = (if a \<in> set current then filter (\<lambda>i. i \<noteq> a) current else current @ [a])
      in setDockPins st m next)"

definition resetDockPins :: "dock_state \<Rightarrow> storage_mode \<Rightarrow> set_pins_result \<times> dock_state" where
  "resetDockPins st m = setDockPins st m DEFAULT_DOCK_PINS"

definition OS_DOCK_STORAGE_KEY :: string where
  "OS_DOCK_STORAGE_KEY = ''dam-hopper:os:v1:dock''"

text \<open>\<open>foreign\<close>: the event names a storage area other than the local storage. The key of the event
  that \<^verbatim>\<open>localStorage.clear()\<close> causes is \<^verbatim>\<open>null\<close>, here \<open>None\<close>.\<close>

definition handleDockPinsStorageEvent :: "dock_state \<Rightarrow> bool \<Rightarrow> string option \<Rightarrow> raw_text option \<Rightarrow> dock_state" where
  "handleDockPinsStorageEvent st foreign key newValue =
     (if foreign then st
      else if key \<noteq> Some OS_DOCK_STORAGE_KEY then st
      else case newValue of
        None \<Rightarrow> snd (updateSnapshot st DEFAULT_DOCK_PINS)
      | Some (Corrupt _) \<Rightarrow> st
      | Some (Json parsed) \<Rightarrow>
          if is_array parsed then snd (updateSnapshot st (normalizeDockPins parsed)) else st)"

text \<open>The import listener the module registers.\<close>

definition onDockPinsImported :: "dock_state \<Rightarrow> os_app_id list \<Rightarrow> dock_state" where
  "onDockPinsImported st pins = snd (updateSnapshot st (normalizeDockPins (encode_pins pins)))"

subsection \<open>Snapshot and storage agree\<close>

text \<open>The dock of a tab with the storage events that were not delivered to it yet, each a key and a new value.\<close>

record dock_world =
  dw_dock :: dock_state
  dw_events :: "(string option \<times> raw_text option) list"

definition init_world :: "raw_text option \<Rightarrow> dock_world" where
  "init_world stored = \<lparr>dw_dock = init_dock stored True, dw_events = []\<rparr>"

definition written_elsewhere :: "string option \<Rightarrow> raw_text option \<Rightarrow> dock_world \<Rightarrow> dock_world" where
  "written_elsewhere key v w = w\<lparr>dw_dock := (dw_dock w)\<lparr>dock_storage := v\<rparr>, dw_events := dw_events w @ [(key, v)]\<rparr>"

datatype dock_event =
    SetPins "os_app_id list" storage_mode
  | TogglePin os_app_id storage_mode
  | ResetPins storage_mode
  | OtherTab "raw_text option"
  | OtherTabClears
  | DeliverEvent
  | Subscribe nat
  | Unsubscribe nat

text \<open>A write that does not change the value is not announced.\<close>

fun pins_step :: "dock_world \<Rightarrow> dock_event \<Rightarrow> dock_world" where
  "pins_step w (SetPins pins m) = w\<lparr>dw_dock := snd (setDockPins (dw_dock w) m pins)\<rparr>"
| "pins_step w (TogglePin a m) = w\<lparr>dw_dock := snd (toggleDockPin (dw_dock w) m a)\<rparr>"
| "pins_step w (ResetPins m) = w\<lparr>dw_dock := snd (resetDockPins (dw_dock w) m)\<rparr>"
| "pins_step w (OtherTab v) =
     (if dock_storage (dw_dock w) = v then w else written_elsewhere (Some OS_DOCK_STORAGE_KEY) v w)"
| "pins_step w OtherTabClears = written_elsewhere None None w"
| "pins_step w DeliverEvent =
     (case dw_events w of
        [] \<Rightarrow> w
      | (key, v) # rest \<Rightarrow> w\<lparr>dw_dock := handleDockPinsStorageEvent (dw_dock w) False key v, dw_events := rest\<rparr>)"
| "pins_step w (Subscribe l) = w\<lparr>dw_dock := subscribeDockPins (dw_dock w) l\<rparr>"
| "pins_step w (Unsubscribe l) = w\<lparr>dw_dock := unsubscribeDockPins (dw_dock w) l\<rparr>"

text \<open>Other tabs remove the key or store an array; clearing the whole storage is not among the allowed
  events, because the handler does not react to it. This tab stores pins only when no event is on its
  way: the handler takes the value of the event, which may be older than what this tab stored.\<close>

fun pins_allowed :: "dock_world \<Rightarrow> dock_event \<Rightarrow> bool" where
  "pins_allowed w (SetPins pins m) = (m = StorageOk \<longrightarrow> dw_events w = [])"
| "pins_allowed w (TogglePin a m) = (m = StorageOk \<longrightarrow> dw_events w = [])"
| "pins_allowed w (ResetPins m) = (m = StorageOk \<longrightarrow> dw_events w = [])"
| "pins_allowed w (OtherTab (Some (Json v))) = is_array v"
| "pins_allowed w (OtherTab (Some (Corrupt _))) = False"
| "pins_allowed w OtherTabClears = False"
| "pins_allowed w e = True"

definition pins_inv :: "dock_state \<Rightarrow> bool" where
  "pins_inv st \<longleftrightarrow>
     dock_snapshot st = loadDockPins (dock_storage st) True \<and> distinct (dock_snapshot st) \<and>
     distinct (dock_subscribers st)"

lemma distinct_loadDockPins: "distinct (loadDockPins v r)"
  by (auto simp: loadDockPins_def DEFAULT_DOCK_PINS_def distinct_normalizeDockPins
      split: option.split raw_text.split js_value.split)

lemma updateSnapshot_fields [simp]:
  "dock_snapshot (snd (updateSnapshot st ps)) = ps" "dock_storage (snd (updateSnapshot st ps)) = dock_storage st"
  "dock_subscribers (snd (updateSnapshot st ps)) = dock_subscribers st"
  by (auto simp: updateSnapshot_def notifySubscribers_def)

lemma load_encoded: "distinct ps \<Longrightarrow> loadDockPins (Some (Json (encode_pins ps))) True = ps"
  using normalize_encode [of ps] by (simp add: loadDockPins_def encode_pins_def)

lemma setDockPins_inv: "pins_inv st \<Longrightarrow> pins_inv (snd (setDockPins st m ps))"
  by (cases m) (simp_all add: setDockPins_def Let_def pins_inv_def load_encoded distinct_normalizeDockPins distinct_loadDockPins)

lemma load_none: "loadDockPins None r = DEFAULT_DOCK_PINS"
  by (simp add: loadDockPins_def)

lemma load_array: "is_array v \<Longrightarrow> loadDockPins (Some (Json v)) True = normalizeDockPins v"
  by (cases v) (simp_all add: loadDockPins_def)

text \<open>The last event on its way announces what is stored; with none on its way the snapshot shows it.\<close>

fun announces_pins :: "string option \<times> raw_text option \<Rightarrow> bool" where
  "announces_pins (key, None) \<longleftrightarrow> key = Some OS_DOCK_STORAGE_KEY"
| "announces_pins (key, Some (Json v)) \<longleftrightarrow> key = Some OS_DOCK_STORAGE_KEY \<and> is_array v"
| "announces_pins (key, Some (Corrupt _)) \<longleftrightarrow> False"

definition world_inv :: "dock_world \<Rightarrow> bool" where
  "world_inv w \<longleftrightarrow>
     distinct (dock_snapshot (dw_dock w)) \<and> list_all announces_pins (dw_events w) \<and>
     (if dw_events w = [] then dock_snapshot (dw_dock w) = loadDockPins (dock_storage (dw_dock w)) True
      else snd (last (dw_events w)) = dock_storage (dw_dock w))"

lemma handle_announced:
  assumes "announces_pins (key, v)"
  shows "dock_snapshot (handleDockPinsStorageEvent st False key v) = loadDockPins v True"
    and "dock_storage (handleDockPinsStorageEvent st False key v) = dock_storage st"
  using assms by (cases "(key, v)" rule: announces_pins.cases; simp add: handleDockPinsStorageEvent_def load_none load_array)+

lemma write_world_inv:
  assumes "world_inv w" and "m = StorageOk \<longrightarrow> dw_events w = []"
  shows "world_inv (w\<lparr>dw_dock := snd (setDockPins (dw_dock w) m ps)\<rparr>)"
  using assms by (cases m)
    (simp_all add: setDockPins_def Let_def world_inv_def load_encoded distinct_normalizeDockPins)

lemma pins_step_inv: "world_inv w \<Longrightarrow> pins_allowed w e \<Longrightarrow> world_inv (pins_step w e)"
proof (cases e)
  case (OtherTab v)
  assume "world_inv w" and "pins_allowed w e"
  then show ?thesis unfolding OtherTab
    by (cases "(Some OS_DOCK_STORAGE_KEY, v)" rule: announces_pins.cases) (auto simp: world_inv_def written_elsewhere_def)
next
  case DeliverEvent
  assume "world_inv w"
  then show ?thesis unfolding DeliverEvent
  proof (cases "dw_events w")
    case (Cons ev rest)
    obtain key v where ev: "ev = (key, v)" by (cases ev)
    have "announces_pins (key, v)" using \<open>world_inv w\<close> by (simp add: world_inv_def Cons ev)
    from handle_announced [OF this] \<open>world_inv w\<close> show "world_inv (pins_step w DeliverEvent)"
      by (simp add: world_inv_def Cons ev distinct_loadDockPins split: if_splits)
  qed simp
qed (simp_all add: write_world_inv toggleDockPin_def resetDockPins_def Let_def,
     simp_all add: world_inv_def subscribeDockPins_def unsubscribeDockPins_def)

interpretation dock_pins: event_machine pins_step pins_allowed world_inv
  by unfold_locales (rule pins_step_inv)

lemma init_world_inv: "world_inv (init_world stored)"
  by (simp add: init_world_def init_dock_def world_inv_def distinct_loadDockPins)

text \<open>Delivering everything that is on its way.\<close>

definition deliver_all :: "dock_world \<Rightarrow> dock_world" where
  "deliver_all w = run_events pins_step w (replicate (length (dw_events w)) DeliverEvent)"

lemma deliver_all_shows:
  assumes "world_inv w"
  shows "dock_snapshot (dw_dock (deliver_all w)) = loadDockPins (dock_storage (dw_dock w)) True"
proof -
  have "length (dw_events w) = n \<Longrightarrow> world_inv w \<Longrightarrow>
      dock_snapshot (dw_dock (run_events pins_step w (replicate n DeliverEvent))) = loadDockPins (dock_storage (dw_dock w)) True" for n
  proof (induction n arbitrary: w)
    case 0
    then show ?case by (simp add: world_inv_def)
  next
    case (Suc n)
    then obtain key v rest where ev: "dw_events w = (key, v) # rest" by (cases "dw_events w") auto
    have "announces_pins (key, v)" using Suc.prems(2) by (simp add: world_inv_def ev)
    moreover have "world_inv (pins_step w DeliverEvent)" by (rule pins_step_inv [OF Suc.prems(2)]) simp
    ultimately show ?case using Suc.IH [of "pins_step w DeliverEvent"] Suc.prems(1) by (simp add: ev handle_announced)
  qed
  with assms show ?thesis by (simp add: deliver_all_def)
qed

lemma init_pins_inv: "pins_inv (init_dock stored True)"
  by (simp add: init_dock_def pins_inv_def distinct_loadDockPins)

subsection \<open>Toggling\<close>

lemma setDockPins_ok:
  "distinct ps \<Longrightarrow> dock_snapshot (snd (setDockPins st StorageOk ps)) = ps"
  by (simp add: setDockPins_def Let_def normalize_encode)

lemma setDockPins_failed:
  "m \<noteq> StorageOk \<Longrightarrow> snd (setDockPins st m ps) = st \<and> fst (setDockPins st m ps) \<noteq> Persisted"
  by (cases m) (simp_all add: setDockPins_def)

lemma toggle_snapshot:
  assumes "distinct (dock_snapshot st)"
  shows "dock_snapshot (snd (toggleDockPin st StorageOk a)) =
    (if a \<in> set (dock_snapshot st) then filter (\<lambda>i. i \<noteq> a) (dock_snapshot st) else dock_snapshot st @ [a])"
  using assms by (simp add: toggleDockPin_def Let_def getDockPinsSnapshot_def setDockPins_ok)

lemma toggle_twice:
  assumes "distinct (dock_snapshot st)" and "a \<notin> set (dock_snapshot st)"
  shows "dock_snapshot (snd (toggleDockPin (snd (toggleDockPin st StorageOk a)) StorageOk a)) = dock_snapshot st"
  using assms by (simp add: toggle_snapshot filter_neq_id)

lemma calls_iff_changed:
  "dock_calls (snd (updateSnapshot st ps)) = dock_calls st @ (if ps = dock_snapshot st then [] else dock_subscribers st)"
  by (auto simp: updateSnapshot_def notifySubscribers_def)

section \<open>The export envelope\<close>

record os_envelope =
  env_exportedAt :: string
  env_session :: "os_session option"
  env_dock :: "os_app_id list option"
  env_shortcuts :: "string js_record option"
  env_notifs :: "js_value js_record option"

text \<open>\<open>if (raw) x = JSON.parse(raw)\<close> inside a \<^verbatim>\<open>try\<close>.\<close>

definition parsed_slot :: "raw_text option \<Rightarrow> js_value option" where
  "parsed_slot raw = (case raw of Some (Json v) \<Rightarrow> Some v | _ \<Rightarrow> None)"

definition exportOsEnvelope ::
  "os_session \<Rightarrow> dock_state \<Rightarrow> raw_text option \<Rightarrow> raw_text option \<Rightarrow> string \<Rightarrow> raw_text"
where
  "exportOsEnvelope session dock shortcuts notifs now =
     Json (JObject
       [(''version'', js_real 1), (''exportedAt'', JString now),
        (''namespaces'', JObject
          ([(''session'', encode_session (sanitizeSessionForPersistence session)),
            (''dock'', encode_pins (getDockPinsSnapshot dock))] @
           opt_field ''shortcuts'' (parsed_slot shortcuts) @
           opt_field ''notifications_prefs'' (parsed_slot notifs)))])"

datatype envelope_error = BadEnvelope | BadEnvelopeSession session_error | BadEnvelopeSyntax

fun plain_object :: "js_value \<Rightarrow> bool" where
  "plain_object (JObject _) = True"
| "plain_object _ = False"

fun shortcut_value :: "js_value \<Rightarrow> string option" where
  "shortcut_value (JString s) = (if length s > 0 \<and> length s < 50 then Some s else None)"
| "shortcut_value _ = None"

definition project_shortcuts :: "js_value \<Rightarrow> string js_record option" where
  "project_shortcuts v =
     (if plain_object v
      then Some (List.map_filter (\<lambda>(k, x). map_option (Pair k) (shortcut_value x)) (js_entries v))
      else None)"

definition project_notifs :: "js_value \<Rightarrow> js_value js_record option" where
  "project_notifs v =
     (if plain_object v then Some (filter (\<lambda>(k, x). is_bool x \<or> is_string x) (js_entries v)) else None)"

definition project_dock :: "js_value \<Rightarrow> os_app_id list option" where
  "project_dock v = (if is_array v then Some (normalizeDockPins v) else None)"

text \<open>\<open>saveDockPins\<close> on the slot the dock module reads; a failed write is ignored here.\<close>

definition store_dock :: "dock_state \<Rightarrow> bool \<Rightarrow> os_app_id list option \<Rightarrow> dock_state" where
  "store_dock st writable pins =
     (case pins of
        None \<Rightarrow> st
      | Some ps \<Rightarrow> st\<lparr>dock_storage := snd (saveDockPins ps writable (dock_storage st))\<rparr>)"

definition notify_imported :: "dock_state \<Rightarrow> os_app_id list option \<Rightarrow> dock_state" where
  "notify_imported st pins = (case pins of None \<Rightarrow> st | Some ps \<Rightarrow> onDockPinsImported st ps)"

definition importOsEnvelope ::
  "raw_text \<Rightarrow> dock_state \<Rightarrow> bool \<Rightarrow> string \<Rightarrow> (envelope_error + os_envelope) \<times> dock_state"
where
  "importOsEnvelope raw st writable now =
     (case raw of
        Corrupt _ \<Rightarrow> (Inl BadEnvelopeSyntax, st)
      | Json parsed \<Rightarrow>
          let ns = js_get parsed ''namespaces'' in
          if \<not> is_object parsed \<or> js_get parsed ''version'' \<noteq> JNumber (Finite 1) \<or> \<not> is_object ns
          then (Inl BadEnvelope, st)
          else
            let s = js_get ns ''session''; dock = project_dock (js_get ns ''dock'');
                envelope = (\<lambda>session.
                  \<lparr>env_exportedAt =
                     (case js_get parsed ''exportedAt'' of JString t \<Rightarrow> t | _ \<Rightarrow> now),
                   env_session = session, env_dock = dock,
                   env_shortcuts = project_shortcuts (js_get ns ''shortcuts''),
                   env_notifs = project_notifs (js_get ns ''notifications_prefs'')\<rparr>);
                st' = notify_imported (store_dock st writable dock) dock in
            if s = JUndefined then (Inr (envelope None), st')
            else (case validateOsSession s of
                    Some e \<Rightarrow> (Inl (BadEnvelopeSession e), st)
                  | None \<Rightarrow> (Inr (envelope (Some (sanitizeSessionForPersistence (decode_session s)))), st')))"

subsection \<open>Import and export\<close>

lemma import_error_keeps_dock:
  "fst (importOsEnvelope raw st writable now) = Inl e \<Longrightarrow> snd (importOsEnvelope raw st writable now) = st"
  by (auto simp: importOsEnvelope_def Let_def split: raw_text.splits option.splits if_splits)

lemma project_dock_encode: "distinct ps \<Longrightarrow> project_dock (encode_pins ps) = Some ps"
  using normalize_encode [of ps] by (simp add: project_dock_def encode_pins_def)

text \<open>Importing what a dock exported, into any dock: the pins are stored and shown, and the subscribers called if they changed.\<close>

lemma envelope_roundtrip:
  assumes "wf_session s" and "storable s" and "distinct (dock_snapshot st)"
  shows "importOsEnvelope (exportOsEnvelope s st sc nt t) st' True now =
    (Inr \<lparr>env_exportedAt = t, env_session = Some (sanitizeSessionForPersistence s), env_dock = Some (dock_snapshot st),
           env_shortcuts = Option.bind (parsed_slot sc) project_shortcuts,
           env_notifs = Option.bind (parsed_slot nt) project_notifs\<rparr>,
     st'\<lparr>dock_snapshot := dock_snapshot st, dock_storage := Some (Json (encode_pins (dock_snapshot st))),
         dock_calls := dock_calls st' @ (if dock_snapshot st = dock_snapshot st' then [] else dock_subscribers st')\<rparr>)"
proof -
  have o: "encode_session s' \<noteq> JUndefined" for s' by (simp add: encode_session_def)
  have slots: "project_shortcuts JUndefined = None" "project_notifs JUndefined = None"
    by (simp_all add: project_shortcuts_def project_notifs_def)
  note facts = written_accepted [OF assms(1,2)] sanitize_idem project_dock_encode [OF assms(3)] o slots
  show ?thesis
    by (auto simp: importOsEnvelope_def exportOsEnvelope_def Let_def js_real_def getDockPinsSnapshot_def facts opt_field_def
        notify_imported_def store_dock_def onDockPinsImported_def normalize_encode [OF assms(3)] saveDockPins_def
        updateSnapshot_def notifySubscribers_def split: option.split)
qed

lemma import_keeps_pins_inv:
  assumes "pins_inv st"
  shows "pins_inv (snd (importOsEnvelope raw st True now))"
proof -
  have "pins_inv (notify_imported (store_dock st True (project_dock v)) (project_dock v))" for v
    using assms distinct_normalizeDockPins [of v] distinct_normalizeDockPins [of "encode_pins (normalizeDockPins v)"]
    by (simp add: project_dock_def notify_imported_def store_dock_def onDockPinsImported_def pins_inv_def saveDockPins_def
        normalize_encode load_encoded distinct_loadDockPins)
  then show ?thesis
    using assms by (auto simp: importOsEnvelope_def Let_def split: raw_text.split option.split)
qed

lemma import_shortcuts_bounded:
  assumes "fst (importOsEnvelope raw st writable now) = Inr env" and "env_shortcuts env = Some sc" and "(k, v) \<in> set sc"
  shows "0 < length v \<and> length v < 50"
proof -
  have "project_shortcuts x = Some sc \<Longrightarrow> 0 < length v \<and> length v < 50" for x
    using assms(3)
    by (auto simp: project_shortcuts_def List.map_filter_def split: if_splits)
       (auto elim!: shortcut_value.elims split: if_splits)
  then show ?thesis
    using assms(1,2) by (auto simp: importOsEnvelope_def Let_def split: raw_text.splits option.splits if_splits)
qed

end
