(* ===== verification/Launch_Journal.thy ===== *)
theory Launch_Journal
  imports Tile_Codec
begin

text \<open>
  The launch journal, \<^verbatim>\<open>packages/ui/src/os/persistence.ts\<close> lines 942-1358: durable
  reservations of terminal launches. The document in the local storage is its length with what
  reading it gives. Every transaction runs under an exclusive lock, so a transaction is a function
  of the storage slot and transactions of several tabs form one sequence. Times and generations are
  natural numbers, UUIDs are arguments. The stored array is cast without a check in the code; its
  elements are records here.
\<close>

section \<open>JSON text\<close>

datatype json =
    JsNull
  | JsNat nat
  | JsStr string
  | JsArr "json list"
  | JsObj "(string \<times> json) list"

definition hex_digit :: "nat \<Rightarrow> char" where
  "hex_digit n = (if n < 10 then char_of (48 + n) else char_of (87 + n))"

text \<open>One character inside a string literal, as \<^verbatim>\<open>JSON.stringify\<close> writes it.\<close>

definition json_char :: "char \<Rightarrow> string" where
  "json_char c =
     (let n = (of_char c :: nat); bs = CHR 0x5C in
      if n = 34 then [bs, CHR 0x22]
      else if n = 92 then [bs, bs]
      else if n = 8 then [bs, CHR ''b'']
      else if n = 9 then [bs, CHR ''t'']
      else if n = 10 then [bs, CHR ''n'']
      else if n = 12 then [bs, CHR ''f'']
      else if n = 13 then [bs, CHR ''r'']
      else if n < 32 then [bs, CHR ''u'', CHR ''0'', CHR ''0'', hex_digit (n div 16), hex_digit (n mod 16)]
      else [c])"

definition json_quote :: "string \<Rightarrow> string" where
  "json_quote s = CHR 0x22 # concat (map json_char s) @ [CHR 0x22]"

fun commas :: "string list \<Rightarrow> string" where
  "commas [] = ''''"
| "commas [x] = x"
| "commas (x # xs) = x @ '','' @ commas xs"

fun stringify :: "json \<Rightarrow> string" where
  "stringify JsNull = ''null''"
| "stringify (JsNat n) = nat_dec n"
| "stringify (JsStr s) = json_quote s"
| "stringify (JsArr vs) = ''['' @ commas (map stringify vs) @ '']''"
| "stringify (JsObj fs) = ''{'' @ commas (map (\<lambda>(k, v). json_quote k @ '':'' @ stringify v) fs) @ ''}''"

definition json_opt :: "string option \<Rightarrow> json" where
  "json_opt s = (case s of None \<Rightarrow> JsNull | Some t \<Rightarrow> JsStr t)"

text \<open>\<open>new TextEncoder().encode(s).length\<close> for code units below 256.\<close>

definition utf8_length :: "string \<Rightarrow> nat" where
  "utf8_length s = sum_list (map (\<lambda>c. if (of_char c :: nat) < 128 then 1 else 2) s)"

section \<open>Records\<close>

datatype launch_state = Reserved | ConfirmedSuccess | ConfirmedNotCreated | Uncertain

text \<open>Parameters and records; \<^verbatim>\<open>undefined\<close> and \<^verbatim>\<open>null\<close> are both \<open>None\<close>, and
  \<^verbatim>\<open>action\<close> has one value.\<close>

record identity_params =
  ip_profileId :: string
  ip_endpointBinding :: string
  ip_targetKind :: string
  ip_workspaceId :: "string option"
  ip_projectId :: "string option"
  ip_worktreeId :: "string option"
  ip_authorizedPath :: "string option"
  ip_cwd :: "string option"

record provenance =
  pv_terminalId :: string
  pv_serverEpoch :: string
  pv_incarnationExact :: string

record launch_record =
  lr_attemptId :: string
  lr_canonicalIdentity :: string
  lr_params :: identity_params
  lr_requestedTerminalId :: string
  lr_ownerGeneration :: nat
  lr_destinationDesktopId :: string
  lr_state :: launch_state
  lr_createdAt :: nat
  lr_settledAt :: "nat option"
  lr_provenance :: "provenance option"
  lr_failureReason :: "string option"

definition buildCanonicalIdentityTuple :: "identity_params \<Rightarrow> string" where
  "buildCanonicalIdentityTuple p =
     stringify (JsArr
       [JsNat 1, JsStr (ip_profileId p), JsStr (ip_endpointBinding p), JsStr ''terminal.create'',
        JsStr (ip_targetKind p), json_opt (ip_workspaceId p), json_opt (ip_projectId p),
        json_opt (ip_worktreeId p), json_opt (ip_authorizedPath p), json_opt (ip_cwd p)])"

fun state_name :: "launch_state \<Rightarrow> string" where
  "state_name Reserved = ''reserved-dispatch-capable''"
| "state_name ConfirmedSuccess = ''confirmed-success''"
| "state_name ConfirmedNotCreated = ''confirmed-not-created''"
| "state_name Uncertain = ''uncertain''"

definition json_field :: "string \<Rightarrow> json option \<Rightarrow> (string \<times> json) list" where
  "json_field k ov = (case ov of None \<Rightarrow> [] | Some v \<Rightarrow> [(k, v)])"

text \<open>A record as an object. (After an uncertain settlement the code's object has its last fields in
  another order; only the length of the text is used.)\<close>

definition record_json :: "launch_record \<Rightarrow> json" where
  "record_json r =
     JsObj ([(''attemptId'', JsStr (lr_attemptId r)),
       (''canonicalIdentity'', JsStr (lr_canonicalIdentity r)),
       (''profileId'', JsStr (ip_profileId (lr_params r))),
       (''endpointBinding'', JsStr (ip_endpointBinding (lr_params r))),
       (''action'', JsStr ''terminal.create''),
       (''targetKind'', JsStr (ip_targetKind (lr_params r))),
       (''workspaceId'', json_opt (ip_workspaceId (lr_params r))),
       (''projectId'', json_opt (ip_projectId (lr_params r))),
       (''worktreeId'', json_opt (ip_worktreeId (lr_params r))),
       (''authorizedPath'', json_opt (ip_authorizedPath (lr_params r))),
       (''cwd'', json_opt (ip_cwd (lr_params r))),
       (''requestedTerminalId'', JsStr (lr_requestedTerminalId r)),
       (''ownerGeneration'', JsNat (lr_ownerGeneration r)),
       (''destinationDesktopId'', JsStr (lr_destinationDesktopId r)),
       (''state'', JsStr (state_name (lr_state r))),
       (''createdAt'', JsNat (lr_createdAt r))] @
       json_field ''settledAt'' (map_option JsNat (lr_settledAt r)) @
       json_field ''provenance'' (map_option (\<lambda>p. JsObj
         [(''terminalId'', JsStr (pv_terminalId p)), (''serverEpoch'', JsStr (pv_serverEpoch p)),
          (''incarnationExact'', JsStr (pv_incarnationExact p))]) (lr_provenance r)) @
       json_field ''failureReason'' (map_option JsStr (lr_failureReason r)))"

definition document_text :: "launch_record list \<Rightarrow> string" where
  "document_text rs = stringify (JsObj [(''version'', JsNat 1), (''records'', JsArr (map record_json rs))])"

section \<open>The stored document\<close>

definition MAX_LAUNCH_JOURNAL_RECORDS :: nat where
  "MAX_LAUNCH_JOURNAL_RECORDS = 128"

definition MAX_LAUNCH_RECORD_BYTES :: nat where
  "MAX_LAUNCH_RECORD_BYTES = 8192"

definition MAX_LAUNCH_JOURNAL_DOCUMENT_BYTES :: nat where
  "MAX_LAUNCH_JOURNAL_DOCUMENT_BYTES = 1048576"

datatype journal_content = NotJson | NotObject | WrongVersion | Records "launch_record list"

text \<open>The slot holds nothing (or the empty string), or a text of some length.\<close>

type_synonym journal_slot = "(nat \<times> journal_content) option"

record storage_env =
  se_available :: bool
  se_readable :: bool
  se_writable :: bool

datatype journal_error = Unavailable | ReadThrows | TooLarge | BadJson | BadFormat | BadVersion | WriteThrows

definition readLaunchJournalDocument :: "storage_env \<Rightarrow> journal_slot \<Rightarrow> journal_error + launch_record list" where
  "readLaunchJournalDocument env slot =
     (if \<not> se_available env then Inl Unavailable
      else if \<not> se_readable env then Inl ReadThrows
      else case slot of
        None \<Rightarrow> Inr []
      | Some (n, c) \<Rightarrow>
          if n > MAX_LAUNCH_JOURNAL_DOCUMENT_BYTES then Inl TooLarge
          else (case c of
                  NotJson \<Rightarrow> Inl BadJson
                | NotObject \<Rightarrow> Inl BadFormat
                | WrongVersion \<Rightarrow> Inl BadVersion
                | Records rs \<Rightarrow> Inr rs))"

definition writeLaunchJournalDocument ::
  "storage_env \<Rightarrow> launch_record list \<Rightarrow> journal_slot \<Rightarrow> journal_error option \<times> journal_slot"
where
  "writeLaunchJournalDocument env rs slot =
     (if \<not> se_available env then (Some Unavailable, slot)
      else if length (document_text rs) > MAX_LAUNCH_JOURNAL_DOCUMENT_BYTES then (Some TooLarge, slot)
      else if \<not> se_writable env then (Some WriteThrows, slot)
      else (None, Some (length (document_text rs), Records rs)))"

section \<open>Transactions\<close>

definition unresolved :: "launch_record \<Rightarrow> bool" where
  "unresolved r \<longleftrightarrow> lr_state r = Reserved \<or> lr_state r = Uncertain"

datatype block_reason =
    JournalUnreadable journal_error
  | AlreadyInProgress string
  | IdAlreadyUsed string
  | CapacityExhausted nat
  | RecordTooLarge
  | PersistFailed journal_error

datatype reserve_result = ReservedAs string string | Blocked block_reason

text \<open>\<open>b.settledAt ?? b.createdAt\<close>, newest first; the sort is stable.\<close>

definition settled_time :: "launch_record \<Rightarrow> nat" where
  "settled_time r = (case lr_settledAt r of Some t \<Rightarrow> t | None \<Rightarrow> lr_createdAt r)"

definition compact_records :: "launch_record list \<Rightarrow> nat + launch_record list" where
  "compact_records rs =
     (if length rs \<ge> MAX_LAUNCH_JOURNAL_RECORDS
      then
        let open_records = filter unresolved rs in
        if length open_records \<ge> MAX_LAUNCH_JOURNAL_RECORDS then Inl (length open_records)
        else
          let settled = sort_key (\<lambda>r. - int (settled_time r)) (filter (\<lambda>r. \<not> unresolved r) rs);
              remainingQuota = MAX_LAUNCH_JOURNAL_RECORDS - length open_records - 1
          in Inr (open_records @ take remainingQuota settled)
      else Inr rs)"

definition new_record :: "identity_params \<Rightarrow> nat \<Rightarrow> string \<Rightarrow> string \<Rightarrow> string \<Rightarrow> nat \<Rightarrow> launch_record" where
  "new_record p generation desktopId requestedId attemptId now =
     \<lparr>lr_attemptId = attemptId, lr_canonicalIdentity = buildCanonicalIdentityTuple p, lr_params = p,
      lr_requestedTerminalId = requestedId, lr_ownerGeneration = generation,
      lr_destinationDesktopId = desktopId, lr_state = Reserved, lr_createdAt = now,
      lr_settledAt = None, lr_provenance = None, lr_failureReason = None\<rparr>"

record launch_request =
  rq_params :: identity_params
  rq_generation :: nat
  rq_desktopId :: string
  rq_explicitId :: "string option"
  rq_freshId :: string
  rq_attemptId :: string
  rq_now :: nat

text \<open>\<open>meta.explicitRequestedTerminalId\<close> counts when it is not empty.\<close>

definition explicit_id :: "launch_request \<Rightarrow> string option" where
  "explicit_id q = (if rq_explicitId q = Some '''' then None else rq_explicitId q)"

definition reserveTerminalLaunch ::
  "storage_env \<Rightarrow> launch_request \<Rightarrow> journal_slot \<Rightarrow> reserve_result \<times> journal_slot"
where
  "reserveTerminalLaunch env q slot =
     (let canonicalIdentity = buildCanonicalIdentityTuple (rq_params q) in
      case readLaunchJournalDocument env slot of
        Inl e \<Rightarrow> (Blocked (JournalUnreadable e), slot)
      | Inr rs \<Rightarrow>
          (case find (\<lambda>r. lr_canonicalIdentity r = canonicalIdentity \<and> unresolved r) rs of
             Some r \<Rightarrow> (Blocked (AlreadyInProgress (lr_attemptId r)), slot)
           | None \<Rightarrow>
               let explicit = explicit_id q;
                   requestedId = (case explicit of Some i \<Rightarrow> i | None \<Rightarrow> rq_freshId q) in
               if explicit \<noteq> None \<and> list_ex (\<lambda>r. lr_requestedTerminalId r = requestedId) rs
               then (Blocked (IdAlreadyUsed requestedId), slot)
               else
                 (case compact_records rs of
                    Inl n \<Rightarrow> (Blocked (CapacityExhausted n), slot)
                  | Inr kept \<Rightarrow>
                      let r = new_record (rq_params q) (rq_generation q) (rq_desktopId q) requestedId
                                (rq_attemptId q) (rq_now q) in
                      if utf8_length (stringify (record_json r)) > MAX_LAUNCH_RECORD_BYTES
                      then (Blocked RecordTooLarge, slot)
                      else
                        (case writeLaunchJournalDocument env (kept @ [r]) slot of
                           (Some e, slot') \<Rightarrow> (Blocked (PersistFailed e), slot')
                         | (None, slot') \<Rightarrow> (ReservedAs (rq_attemptId q) requestedId, slot')))))"

datatype launch_outcome =
    Success provenance
  | NotCreated string
  | UncertainOutcome string

datatype settle_result = Settled | SettleReadFailed journal_error | NotFound | SettleWriteFailed journal_error | StillUncertain string

definition settle_record :: "launch_outcome \<Rightarrow> nat \<Rightarrow> launch_record \<Rightarrow> launch_record" where
  "settle_record out now r =
     (case out of
        Success p \<Rightarrow> r\<lparr>lr_state := ConfirmedSuccess, lr_settledAt := Some now, lr_provenance := Some p\<rparr>
      | NotCreated why \<Rightarrow> r\<lparr>lr_state := ConfirmedNotCreated, lr_settledAt := Some now, lr_failureReason := Some why\<rparr>
      | UncertainOutcome why \<Rightarrow> r\<lparr>lr_state := Uncertain, lr_failureReason := Some why\<rparr>)"

text \<open>\<open>xs.findIndex(p)\<close>, \<open>None\<close> for \<open>-1\<close>.\<close>

fun find_index :: "('a \<Rightarrow> bool) \<Rightarrow> 'a list \<Rightarrow> nat option" where
  "find_index P [] = None"
| "find_index P (x # xs) = (if P x then Some 0 else map_option Suc (find_index P xs))"

definition settleTerminalLaunch ::
  "storage_env \<Rightarrow> string \<Rightarrow> launch_outcome \<Rightarrow> nat \<Rightarrow> journal_slot \<Rightarrow> settle_result \<times> journal_slot"
where
  "settleTerminalLaunch env attemptId out now slot =
     (case readLaunchJournalDocument env slot of
        Inl e \<Rightarrow> (SettleReadFailed e, slot)
      | Inr rs \<Rightarrow>
          (case find_index (\<lambda>r. lr_attemptId r = attemptId) rs of
             None \<Rightarrow> (NotFound, slot)
           | Some i \<Rightarrow>
               if \<not> unresolved (rs ! i) then (Settled, slot)
               else
                 (case writeLaunchJournalDocument env (rs[i := settle_record out now (rs ! i)]) slot of
                    (Some e, slot') \<Rightarrow> (SettleWriteFailed e, slot')
                  | (None, slot') \<Rightarrow>
                      ((case out of UncertainOutcome why \<Rightarrow> StillUncertain why | _ \<Rightarrow> Settled), slot'))))"

datatype attempt_read = ReadOk launch_record | ReadMissing | ReadUnreadable journal_error

definition getLaunchAttempt :: "storage_env \<Rightarrow> string \<Rightarrow> journal_slot \<Rightarrow> attempt_read" where
  "getLaunchAttempt env attemptId slot =
     (case readLaunchJournalDocument env slot of
        Inl e \<Rightarrow> ReadUnreadable e
      | Inr rs \<Rightarrow>
          (case find (\<lambda>r. lr_attemptId r = attemptId) rs of None \<Rightarrow> ReadMissing | Some r \<Rightarrow> ReadOk r))"

subsection \<open>Promises in flight\<close>

definition getInFlightLaunchPromise :: "nat js_record \<Rightarrow> string \<Rightarrow> nat option" where
  "getInFlightLaunchPromise m k = rec_get m k"

definition registerInFlightLaunchPromise :: "nat js_record \<Rightarrow> string \<Rightarrow> nat \<Rightarrow> nat js_record" where
  "registerInFlightLaunchPromise m k p = rec_set k p m"

text \<open>The callback attached to the promise, run when it is settled.\<close>

definition in_flight_cleanup :: "nat js_record \<Rightarrow> string \<Rightarrow> nat \<Rightarrow> nat js_record" where
  "in_flight_cleanup m k p = (if rec_get m k = Some p then rec_del k m else m)"

section \<open>The journal invariant\<close>

definition journal_ok :: "launch_record list \<Rightarrow> bool" where
  "journal_ok rs \<longleftrightarrow>
     distinct (map lr_attemptId rs) \<and> length rs \<le> MAX_LAUNCH_JOURNAL_RECORDS \<and>
     distinct (map lr_canonicalIdentity (filter unresolved rs)) \<and>
     list_all (\<lambda>r. lr_canonicalIdentity r = buildCanonicalIdentityTuple (lr_params r)) rs"

definition slot_records :: "journal_slot \<Rightarrow> launch_record list" where
  "slot_records slot = (case slot of Some (_, Records rs) \<Rightarrow> rs | _ \<Rightarrow> [])"

definition slot_ok :: "journal_slot \<Rightarrow> bool" where
  "slot_ok slot \<longleftrightarrow>
     journal_ok (slot_records slot) \<and>
     (case slot of
        Some (n, Records rs) \<Rightarrow> n = length (document_text rs) \<and> n \<le> MAX_LAUNCH_JOURNAL_DOCUMENT_BYTES
      | _ \<Rightarrow> True)"

lemma read_Inr:
  "readLaunchJournalDocument env slot = Inr rs \<Longrightarrow> rs = slot_records slot \<and> se_available env \<and> se_readable env"
  by (auto simp: readLaunchJournalDocument_def slot_records_def split: if_splits option.splits prod.splits journal_content.splits)

lemma write_cases:
  "writeLaunchJournalDocument env rs slot = (None, slot') \<Longrightarrow>
     slot' = Some (length (document_text rs), Records rs) \<and> length (document_text rs) \<le> MAX_LAUNCH_JOURNAL_DOCUMENT_BYTES"
  "writeLaunchJournalDocument env rs slot = (Some e, slot') \<Longrightarrow> slot' = slot"
  by (auto simp: writeLaunchJournalDocument_def split: if_splits)

lemma compact_kept:
  assumes "compact_records rs = Inr kept"
  shows "set kept \<subseteq> set rs" and "filter unresolved kept = filter unresolved rs"
    and "length kept < MAX_LAUNCH_JOURNAL_RECORDS" and "distinct rs \<Longrightarrow> distinct kept"
proof -
  let ?open = "filter unresolved rs" and ?done = "filter (\<lambda>r. \<not> unresolved r) rs"
  let ?sorted = "sort_key (\<lambda>r. - int (settled_time r)) ?done"
  have "set kept \<subseteq> set rs \<and> filter unresolved kept = filter unresolved rs \<and>
      length kept < MAX_LAUNCH_JOURNAL_RECORDS \<and> (distinct rs \<longrightarrow> distinct kept)"
  proof (cases "length rs \<ge> MAX_LAUNCH_JOURNAL_RECORDS")
    case True
    with assms have k: "kept = ?open @ take (MAX_LAUNCH_JOURNAL_RECORDS - length ?open - 1) ?sorted"
      and n: "length ?open < MAX_LAUNCH_JOURNAL_RECORDS"
      by (auto simp: compact_records_def Let_def split: if_splits)
    define t where "t = take (MAX_LAUNCH_JOURNAL_RECORDS - length ?open - 1) ?sorted"
    have sub: "set t \<subseteq> {r \<in> set rs. \<not> unresolved r}"
      unfolding t_def using set_take_subset [of _ ?sorted] by fastforce
    then have "filter unresolved t = []" by (auto simp: filter_empty_conv)
    moreover have "distinct rs \<Longrightarrow> distinct t" and "length t \<le> MAX_LAUNCH_JOURNAL_RECORDS - length ?open - 1"
      by (simp_all add: t_def)
    ultimately show ?thesis using sub n unfolding k t_def [symmetric] by auto
  qed (use assms in \<open>auto simp: compact_records_def\<close>)
  then show "set kept \<subseteq> set rs" and "filter unresolved kept = filter unresolved rs"
    and "length kept < MAX_LAUNCH_JOURNAL_RECORDS" and "distinct rs \<Longrightarrow> distinct kept" by auto
qed

lemma journal_ok_compact:
  assumes "journal_ok rs" and "compact_records rs = Inr kept"
  shows "journal_ok kept"
proof -
  note k = compact_kept [OF assms(2)]
  have d: "distinct rs" "inj_on lr_attemptId (set rs)" using assms(1) by (auto simp: journal_ok_def distinct_map)
  then have "distinct (map lr_attemptId kept)" using k(1) k(4) by (auto simp: distinct_map intro: inj_on_subset)
  then show ?thesis using assms(1) k by (auto simp: journal_ok_def list_all_iff)
qed

lemma find_index_Some:
  "find_index P xs = Some i \<Longrightarrow> i < length xs \<and> P (xs ! i)"
  by (induction xs arbitrary: i) (auto split: if_splits)

lemma find_index_None: "find_index P xs = None \<longleftrightarrow> (\<forall>x \<in> set xs. \<not> P x)"
  by (induction xs) auto

text \<open>What a reservation that succeeds does.\<close>

lemma reserve_cases:
  assumes "reserveTerminalLaunch env q slot = (res, slot')"
  obtains (blocked) b where "res = Blocked b" "slot' = slot"
  | (reserved) kept rid where "res = ReservedAs (rq_attemptId q) rid"
      "slot_records slot' = kept @ [new_record (rq_params q) (rq_generation q) (rq_desktopId q) rid (rq_attemptId q) (rq_now q)]"
      "slot' = Some (length (document_text (slot_records slot')), Records (slot_records slot'))"
      "length (document_text (slot_records slot')) \<le> MAX_LAUNCH_JOURNAL_DOCUMENT_BYTES"
      "compact_records (slot_records slot) = Inr kept"
      "\<forall>r \<in> set (slot_records slot). lr_canonicalIdentity r = buildCanonicalIdentityTuple (rq_params q) \<longrightarrow> \<not> unresolved r"
      "explicit_id q = None \<longrightarrow> rid = rq_freshId q"
      "explicit_id q \<noteq> None \<longrightarrow> explicit_id q = Some rid \<and> rid \<notin> lr_requestedTerminalId ` set (slot_records slot)"
      "utf8_length (stringify (record_json
         (new_record (rq_params q) (rq_generation q) (rq_desktopId q) rid (rq_attemptId q) (rq_now q)))) \<le> MAX_LAUNCH_RECORD_BYTES"
proof (cases res)
  case (Blocked b)
  then have "slot' = slot"
    using assms by (auto simp: reserveTerminalLaunch_def Let_def dest: write_cases(2) split: sum.splits option.splits if_splits prod.splits)
  with Blocked show ?thesis by (rule blocked)
next
  case (ReservedAs a rid)
  define r where "r = new_record (rq_params q) (rq_generation q) (rq_desktopId q) rid (rq_attemptId q) (rq_now q)"
  obtain rs where rs: "readLaunchJournalDocument env slot = Inr rs"
    using assms ReservedAs by (cases "readLaunchJournalDocument env slot") (auto simp: reserveTerminalLaunch_def)
  note run = assms [unfolded reserveTerminalLaunch_def rs ReservedAs Let_def sum.case]
  from run obtain kept where k: "compact_records rs = Inr kept"
    by (cases "compact_records rs") (auto split: option.splits if_splits)
  from run [unfolded k] have a: "a = rq_attemptId q"
    and w: "writeLaunchJournalDocument env (kept @ [r]) slot = (None, slot')"
    and f: "find (\<lambda>r. lr_canonicalIdentity r = buildCanonicalIdentityTuple (rq_params q) \<and> unresolved r) rs = None"
    and i: "rid = (case explicit_id q of Some i \<Rightarrow> i | None \<Rightarrow> rq_freshId q)"
    and e: "\<not> (explicit_id q \<noteq> None \<and> list_ex (\<lambda>r. lr_requestedTerminalId r = rid) rs)"
    and u: "utf8_length (stringify (record_json r)) \<le> MAX_LAUNCH_RECORD_BYTES"
    unfolding r_def by (auto split: option.splits if_splits prod.splits)
  have s: "rs = slot_records slot" using read_Inr [OF rs] by simp
  have s': "slot_records slot' = kept @ [r]" using write_cases(1) [OF w] by (simp add: slot_records_def)
  show ?thesis
  proof (rule reserved [of rid kept, folded r_def])
    show "\<forall>r \<in> set (slot_records slot). lr_canonicalIdentity r = buildCanonicalIdentityTuple (rq_params q) \<longrightarrow> \<not> unresolved r"
      using f by (auto simp: find_None_iff' s)
    show "explicit_id q \<noteq> None \<longrightarrow> explicit_id q = Some rid \<and> rid \<notin> lr_requestedTerminalId ` set (slot_records slot)"
      using e i by (auto simp: s list_ex_iff)
  qed (use ReservedAs a s s' k u i write_cases(1) [OF w] in auto)
qed

text \<open>What a settlement does.\<close>

lemma settle_cases:
  assumes "settleTerminalLaunch env a out now slot = (res, slot')"
  obtains (unchanged) "slot' = slot"
      "res = Settled \<longrightarrow> (\<exists>r \<in> set (slot_records slot). lr_attemptId r = a \<and> \<not> unresolved r)"
      "\<forall>why. res \<noteq> StillUncertain why" "res = NotFound \<longrightarrow> (\<forall>r \<in> set (slot_records slot). lr_attemptId r \<noteq> a)"
  | (written) i where "i < length (slot_records slot)" "lr_attemptId (slot_records slot ! i) = a" "unresolved (slot_records slot ! i)"
      "slot_records slot' = (slot_records slot)[i := settle_record out now (slot_records slot ! i)]"
      "slot' = Some (length (document_text (slot_records slot')), Records (slot_records slot'))"
      "length (document_text (slot_records slot')) \<le> MAX_LAUNCH_JOURNAL_DOCUMENT_BYTES"
      "res = (case out of UncertainOutcome why \<Rightarrow> StillUncertain why | _ \<Rightarrow> Settled)"
proof (cases "readLaunchJournalDocument env slot")
  case (Inl e)
  with assms show ?thesis by (intro unchanged) (auto simp: settleTerminalLaunch_def)
next
  case (Inr rs)
  have s: "rs = slot_records slot" using read_Inr [OF Inr] by simp
  show ?thesis
  proof (cases "find_index (\<lambda>r. lr_attemptId r = a) rs")
    case None
    have "res = NotFound" "slot' = slot" using assms Inr None by (auto simp: settleTerminalLaunch_def)
    moreover have "\<forall>r \<in> set (slot_records slot). lr_attemptId r \<noteq> a" using None by (simp add: find_index_None s)
    ultimately show ?thesis by (intro unchanged) auto
  next
    case (Some i)
    note i = find_index_Some [OF Some]
    show ?thesis
    proof (cases "unresolved (rs ! i)")
      case False
      with assms Inr Some i show ?thesis
        by (intro unchanged) (auto simp: settleTerminalLaunch_def s intro: bexI [of _ "slot_records slot ! i"])
    next
      case True
      obtain e t where w: "writeLaunchJournalDocument env (rs[i := settle_record out now (rs ! i)]) slot = (e, t)" by fastforce
      show ?thesis
      proof (cases e)
        case None
        have t: "t = slot'" "res = (case out of UncertainOutcome why \<Rightarrow> StillUncertain why | _ \<Rightarrow> Settled)"
          using assms Inr Some True w None by (auto simp: settleTerminalLaunch_def)
        have "slot_records slot' = rs[i := settle_record out now (rs ! i)]"
          using write_cases(1) [OF w [unfolded None]] by (simp add: slot_records_def t)
        then show ?thesis
          using written [of i] i True s t write_cases(1) [OF w [unfolded None]] by simp
      next
        case (Some e')
        with assms Inr \<open>find_index _ rs = Some i\<close> True w write_cases(2) [of env _ slot e' t] show ?thesis
          by (intro unchanged) (auto simp: settleTerminalLaunch_def)
      qed
    qed
  qed
qed

section \<open>The journal as a machine\<close>

datatype launch_event =
    ReserveLaunch storage_env launch_request
  | SettleLaunch storage_env string launch_outcome nat

fun launch_step :: "journal_slot \<Rightarrow> launch_event \<Rightarrow> journal_slot" where
  "launch_step slot (ReserveLaunch env q) = snd (reserveTerminalLaunch env q slot)"
| "launch_step slot (SettleLaunch env a out now) = snd (settleTerminalLaunch env a out now slot)"

text \<open>A new attempt id is not in the journal.\<close>

fun launch_allowed :: "journal_slot \<Rightarrow> launch_event \<Rightarrow> bool" where
  "launch_allowed slot (ReserveLaunch env q) = (rq_attemptId q \<notin> lr_attemptId ` set (slot_records slot))"
| "launch_allowed slot (SettleLaunch env a out now) = True"

lemma settle_record_fields [simp]:
  "lr_attemptId (settle_record out now r) = lr_attemptId r"
  "lr_canonicalIdentity (settle_record out now r) = lr_canonicalIdentity r"
  "lr_params (settle_record out now r) = lr_params r"
  "lr_requestedTerminalId (settle_record out now r) = lr_requestedTerminalId r"
  by (simp_all add: settle_record_def split: launch_outcome.split)

lemma unresolved_settle_record [simp]:
  "unresolved (settle_record out now r) \<longleftrightarrow> (\<exists>why. out = UncertainOutcome why)"
  by (simp add: settle_record_def unresolved_def split: launch_outcome.split)

lemma new_record_fields [simp]:
  "lr_attemptId (new_record p g d i a t) = a" "lr_params (new_record p g d i a t) = p"
  "lr_canonicalIdentity (new_record p g d i a t) = buildCanonicalIdentityTuple p"
  "unresolved (new_record p g d i a t)" "lr_requestedTerminalId (new_record p g d i a t) = i"
  by (simp_all add: new_record_def unresolved_def)

lemma map_update_same: "i < length xs \<Longrightarrow> f y = f (xs ! i) \<Longrightarrow> map f (xs[i := y]) = map f xs"
  by (simp add: map_update) (metis length_map list_update_id nth_map)

lemma distinct_filter_update:
  assumes "distinct (map f (filter P xs))" and "i < length xs" and "P (xs ! i)" and "f y = f (xs ! i)"
  shows "distinct (map f (filter P (xs[i := y])))"
proof -
  obtain as z bs where xs: "xs = as @ z # bs" and i: "i = length as"
    using assms(2) id_take_nth_drop [OF assms(2)] by (metis length_take min.absorb2 order_less_imp_le)
  show ?thesis using assms by (auto simp: xs i)
qed

lemma journal_ok_settle:
  assumes ok: "journal_ok rs" and i: "i < length rs" and u: "unresolved (rs ! i)"
  shows "journal_ok (rs[i := settle_record out now (rs ! i)])"
proof -
  have "list_all (\<lambda>r. lr_canonicalIdentity r = buildCanonicalIdentityTuple (lr_params r)) (rs[i := settle_record out now (rs ! i)])"
    using ok i by (auto simp: journal_ok_def list_all_length nth_list_update)
  then show ?thesis
    using ok i u by (simp add: journal_ok_def map_update_same distinct_filter_update)
qed

lemma slot_ok_written:
  "slot = Some (length (document_text rs), Records rs) \<Longrightarrow>
     length (document_text rs) \<le> MAX_LAUNCH_JOURNAL_DOCUMENT_BYTES \<Longrightarrow> journal_ok rs \<Longrightarrow> slot_ok slot"
  by (simp add: slot_ok_def slot_records_def)

lemma launch_step_inv:
  assumes "slot_ok slot" and "launch_allowed slot e"
  shows "slot_ok (launch_step slot e)"
proof (cases e)
  case (ReserveLaunch env q)
  obtain res slot' where run: "reserveTerminalLaunch env q slot = (res, slot')" by fastforce
  from run show ?thesis
  proof (cases rule: reserve_cases)
    case blocked
    with assms run ReserveLaunch show ?thesis by simp
  next
    case (reserved kept rid)
    note k = compact_kept [OF reserved(5)]
    have ok: "journal_ok kept" using assms(1) reserved(5) by (auto simp: slot_ok_def intro: journal_ok_compact)
    have free: "buildCanonicalIdentityTuple (rq_params q) \<notin> lr_canonicalIdentity ` set (filter unresolved kept)"
      using reserved(6) unfolding k(2) by auto
    have "rq_attemptId q \<notin> lr_attemptId ` set kept" using assms(2) ReserveLaunch k(1) by auto
    with ok k(3) free have "journal_ok (slot_records slot')" unfolding reserved(2) by (auto simp: journal_ok_def)
    from slot_ok_written [OF reserved(3,4) this] run ReserveLaunch show ?thesis by simp
  qed
next
  case (SettleLaunch env a out now)
  obtain res slot' where run: "settleTerminalLaunch env a out now slot = (res, slot')" by fastforce
  from run show ?thesis
  proof (cases rule: settle_cases)
    case unchanged
    with assms run SettleLaunch show ?thesis by simp
  next
    case (written i)
    have "journal_ok (slot_records slot')"
      using assms(1) written(1,3) unfolding written(4) slot_ok_def by (blast intro: journal_ok_settle)
    from slot_ok_written [OF written(5,6) this] run SettleLaunch show ?thesis by simp
  qed
qed

interpretation journal: event_machine launch_step launch_allowed slot_ok
  by unfold_locales (rule launch_step_inv)

section \<open>Abstraction: one lock per identity\<close>

definition locks :: "launch_record list \<Rightarrow> string \<Rightarrow> string option" where
  "locks rs k = map_option lr_attemptId (find (\<lambda>r. lr_canonicalIdentity r = k \<and> unresolved r) rs)"

text \<open>The table of locks with the answers its clients get: a reservation is granted, finds its identity held by an
  attempt, or fails for another reason; a settlement gives a lock back, keeps it, or finds nothing to settle.\<close>

datatype lock_label =
    Granted string string
  | Busy string string
  | GivenBack string
  | Kept string
  | NothingHeld string
  | Fault

inductive lock_step :: "(string \<Rightarrow> string option) \<Rightarrow> lock_label \<Rightarrow> (string \<Rightarrow> string option) \<Rightarrow> bool" where
  grant: "l k = None \<Longrightarrow> lock_step l (Granted k a) (l(k := Some a))"
| busy: "l k = Some b \<Longrightarrow> lock_step l (Busy k b) l"
| give_back: "l k = Some a \<Longrightarrow> lock_step l (GivenBack a) (l(k := None))"
| given_back: "a \<notin> ran l \<Longrightarrow> lock_step l (GivenBack a) l"
| keep: "a \<in> ran l \<Longrightarrow> lock_step l (Kept a) l"
| nothing_held: "a \<notin> ran l \<Longrightarrow> lock_step l (NothingHeld a) l"
| fault: "lock_step l Fault l"

fun reserve_label :: "string \<Rightarrow> reserve_result \<Rightarrow> lock_label" where
  "reserve_label k (ReservedAs a rid) = Granted k a"
| "reserve_label k (Blocked (AlreadyInProgress b)) = Busy k b"
| "reserve_label k (Blocked _) = Fault"

fun settle_label :: "string \<Rightarrow> settle_result \<Rightarrow> lock_label" where
  "settle_label a Settled = GivenBack a"
| "settle_label a (StillUncertain why) = Kept a"
| "settle_label a NotFound = NothingHeld a"
| "settle_label a (SettleReadFailed e) = Fault"
| "settle_label a (SettleWriteFailed e) = Fault"

fun launch_label :: "journal_slot \<Rightarrow> launch_event \<Rightarrow> lock_label" where
  "launch_label slot (ReserveLaunch env q) =
     reserve_label (buildCanonicalIdentityTuple (rq_params q)) (fst (reserveTerminalLaunch env q slot))"
| "launch_label slot (SettleLaunch env a out now) = settle_label a (fst (settleTerminalLaunch env a out now slot))"

fun launch_labels :: "journal_slot \<Rightarrow> launch_event list \<Rightarrow> lock_label list" where
  "launch_labels slot [] = []"
| "launch_labels slot (e # es) = launch_label slot e # launch_labels (launch_step slot e) es"

fun lock_trace :: "(string \<Rightarrow> string option) \<Rightarrow> lock_label list \<Rightarrow> (string \<Rightarrow> string option) \<Rightarrow> bool" where
  "lock_trace l [] l' \<longleftrightarrow> l' = l"
| "lock_trace l (x # xs) l' \<longleftrightarrow> (\<exists>m. lock_step l x m \<and> lock_trace m xs l')"

lemma locks_filter: "locks rs = locks (filter unresolved rs)"
  unfolding locks_def by (rule ext, induction rs) auto

lemma locks_append: "locks (xs @ ys) k = (case locks xs k of None \<Rightarrow> locks ys k | Some a \<Rightarrow> Some a)"
  by (induction xs) (auto simp: locks_def)

lemma locks_None: "locks rs k = None \<longleftrightarrow> (\<forall>r \<in> set rs. unresolved r \<longrightarrow> lr_canonicalIdentity r \<noteq> k)"
  by (auto simp: locks_def find_None_iff')

lemma locks_Some:
  assumes "distinct (map lr_canonicalIdentity (filter unresolved rs))"
  shows "locks rs k = Some a \<longleftrightarrow> (\<exists>r \<in> set rs. unresolved r \<and> lr_canonicalIdentity r = k \<and> lr_attemptId r = a)"
proof
  assume "\<exists>r \<in> set rs. unresolved r \<and> lr_canonicalIdentity r = k \<and> lr_attemptId r = a"
  then obtain r where r: "r \<in> set rs" "unresolved r" "lr_canonicalIdentity r = k" "lr_attemptId r = a" by blast
  have "find (\<lambda>r. lr_canonicalIdentity r = k \<and> unresolved r) rs = Some r"
  proof (rule find_unique)
    fix y
    assume "y \<in> set rs" and "lr_canonicalIdentity y = k \<and> unresolved y"
    then show "y = r" by (intro distinct_map_eqD [OF assms]) (simp_all add: r)
  qed (simp_all add: r)
  with r show "locks rs k = Some a" by (simp add: locks_def)
qed (auto simp: locks_def dest: find_Some_in)

lemma locks_settle:
  assumes ok: "journal_ok rs" and i: "i < length rs" and u: "unresolved (rs ! i)"
  shows "locks (rs[i := settle_record out now (rs ! i)]) =
    (if \<exists>why. out = UncertainOutcome why then locks rs else (locks rs)(lr_canonicalIdentity (rs ! i) := None))"
proof -
  obtain as z bs where rs: "rs = as @ z # bs" and ia: "i = length as"
    using i id_take_nth_drop [OF i] by (metis length_take min.absorb2 order_less_imp_le)
  have z: "rs ! i = z" and upd: "rs[i := settle_record out now z] = as @ settle_record out now z # bs"
    by (simp_all add: rs ia)
  have "lr_canonicalIdentity z \<notin> lr_canonicalIdentity ` set (filter unresolved (as @ bs))"
    using ok u unfolding z by (auto simp: journal_ok_def rs)
  then have free: "locks as (lr_canonicalIdentity z) = None" "locks bs (lr_canonicalIdentity z) = None"
    by (auto simp: locks_None image_iff) (metis UnCI mem_Collect_eq)+
  have one: "locks (y # bs) k = (if unresolved y \<and> lr_canonicalIdentity y = k then Some (lr_attemptId y) else locks bs k)" for y k
    by (simp add: locks_def)
  show ?thesis
    using u free unfolding z upd by (auto simp: rs locks_append one fun_eq_iff split: option.split)
qed

lemma reserve_locks:
  assumes "reserveTerminalLaunch env q slot = (ReservedAs a rid, slot')"
  shows "a = rq_attemptId q" and "locks (slot_records slot) (buildCanonicalIdentityTuple (rq_params q)) = None"
    and "locks (slot_records slot') = (locks (slot_records slot))(buildCanonicalIdentityTuple (rq_params q) := Some a)"
proof -
  from assms obtain kept where a: "a = rq_attemptId q"
    and s': "slot_records slot' = kept @ [new_record (rq_params q) (rq_generation q) (rq_desktopId q) rid (rq_attemptId q) (rq_now q)]"
    and k: "compact_records (slot_records slot) = Inr kept"
    and free: "\<forall>r \<in> set (slot_records slot). lr_canonicalIdentity r = buildCanonicalIdentityTuple (rq_params q) \<longrightarrow> \<not> unresolved r"
    by (cases rule: reserve_cases) auto
  have kept: "locks kept = locks (slot_records slot)"
    by (metis locks_filter compact_kept(2) [OF k])
  show "a = rq_attemptId q" by (rule a)
  show none: "locks (slot_records slot) (buildCanonicalIdentityTuple (rq_params q)) = None"
    using free by (auto simp: locks_None)
  show "locks (slot_records slot') = (locks (slot_records slot))(buildCanonicalIdentityTuple (rq_params q) := Some a)"
    using none unfolding s' by (auto simp: locks_append kept fun_eq_iff a) (simp_all add: locks_def split: option.split)
qed

lemma reserve_blocked: "reserveTerminalLaunch env q slot = (Blocked b, slot') \<Longrightarrow> slot' = slot"
  by (erule reserve_cases) auto

lemma busy_locks:
  assumes "reserveTerminalLaunch env q slot = (Blocked (AlreadyInProgress b), slot')"
  shows "locks (slot_records slot) (buildCanonicalIdentityTuple (rq_params q)) = Some b"
  using assms by (auto simp: reserveTerminalLaunch_def locks_def Let_def dest!: read_Inr
      split: sum.splits option.splits if_splits prod.splits)

lemma reserve_refines:
  "lock_step (locks (slot_records slot)) (launch_label slot (ReserveLaunch env q))
     (locks (slot_records (launch_step slot (ReserveLaunch env q))))"
proof (cases "reserveTerminalLaunch env q slot")
  case (Pair res slot')
  show ?thesis
  proof (cases res)
    case (ReservedAs a rid)
    note r = reserve_locks [OF Pair [unfolded ReservedAs]]
    show ?thesis using grant [of "locks (slot_records slot)", OF r(2), of a] by (simp add: Pair ReservedAs r(3))
  next
    case (Blocked b)
    with reserve_blocked Pair have same: "slot' = slot" by blast
    show ?thesis
    proof (cases "\<exists>a. b = AlreadyInProgress a")
      case True
      then obtain a where a: "b = AlreadyInProgress a" by blast
      show ?thesis using busy busy_locks Pair by (simp add: Blocked a same)
    next
      case False
      then show ?thesis using fault by (cases b) (simp_all add: Pair Blocked same)
    qed
  qed
qed

text \<open>An attempt that has a record holds its lock exactly while the record is unresolved.\<close>

lemma ran_locks:
  assumes "journal_ok rs"
  shows "a \<in> ran (locks rs) \<longleftrightarrow> (\<exists>r \<in> set rs. unresolved r \<and> lr_attemptId r = a)"
proof -
  have "distinct (map lr_canonicalIdentity (filter unresolved rs))" using assms by (simp only: journal_ok_def)
  from locks_Some [OF this] show ?thesis by (auto simp: ran_def)
qed

lemma same_attempt:
  "journal_ok rs \<Longrightarrow> r \<in> set rs \<Longrightarrow> r' \<in> set rs \<Longrightarrow> lr_attemptId r = lr_attemptId r' \<Longrightarrow> r = r'"
  using distinct_map_eqD [of lr_attemptId rs r r'] by (simp add: journal_ok_def)

lemma settle_refines:
  assumes "slot_ok slot"
  shows "lock_step (locks (slot_records slot)) (launch_label slot (SettleLaunch env a out now))
     (locks (slot_records (launch_step slot (SettleLaunch env a out now))))"
proof (cases "settleTerminalLaunch env a out now slot")
  case (Pair res slot')
  have ok: "journal_ok (slot_records slot)" using assms by (simp add: slot_ok_def)
  from Pair show ?thesis
  proof (cases rule: settle_cases)
    case unchanged
    have "res = Settled \<or> res = NotFound \<Longrightarrow> a \<notin> ran (locks (slot_records slot))"
      using unchanged(2,4) same_attempt [OF ok] by (auto simp: ran_locks [OF ok])
    with unchanged(1,3) show ?thesis by (cases res) (simp_all add: Pair given_back nothing_held fault)
  next
    case (written i)
    have "locks (slot_records slot) (lr_canonicalIdentity (slot_records slot ! i)) = Some a"
      using ok written(1-3) by (subst locks_Some) (auto simp: journal_ok_def intro: bexI [of _ "slot_records slot ! i"])
    from give_back [of "locks (slot_records slot)", OF this] keep [OF ranI [of "locks (slot_records slot)", OF this]] show ?thesis
      unfolding launch_label.simps launch_step.simps Pair fst_conv snd_conv written(4,7) locks_settle [OF ok written(1,3)]
      by (cases out) simp_all
  qed
qed

lemma launch_refines:
  assumes "slot_ok slot"
  shows "lock_step (locks (slot_records slot)) (launch_label slot e) (locks (slot_records (launch_step slot e)))"
  by (cases e) (simp_all only: reserve_refines settle_refines [OF assms])

lemma launch_trace:
  "slot_ok slot \<Longrightarrow> run_allowed launch_allowed launch_step slot es \<Longrightarrow>
     lock_trace (locks (slot_records slot)) (launch_labels slot es) (locks (slot_records (run_events launch_step slot es)))"
proof (induction es arbitrary: slot)
  case (Cons e es)
  then have "slot_ok (launch_step slot e)" by (simp add: launch_step_inv)
  with Cons launch_refines [OF Cons.prems(1), of e] show ?case by auto
qed simp

section \<open>One launch at a time\<close>

text \<open>An event that settles an attempt with a confirmed outcome.\<close>

fun confirms :: "string \<Rightarrow> launch_event \<Rightarrow> bool" where
  "confirms a (SettleLaunch env b out now) = (a = b \<and> (\<forall>why. out \<noteq> UncertainOutcome why))"
| "confirms a (ReserveLaunch env q) = False"

lemma lock_kept:
  assumes ok: "slot_ok slot" and held: "locks (slot_records slot) k = Some a" and e: "\<not> confirms a e"
  shows "locks (slot_records (launch_step slot e)) k = Some a"
proof (cases e)
  case (ReserveLaunch env q)
  obtain res slot' where run: "reserveTerminalLaunch env q slot = (res, slot')" by fastforce
  show ?thesis
  proof (cases res)
    case (ReservedAs b rid)
    with reserve_locks [OF run [unfolded ReservedAs]] held run ReserveLaunch show ?thesis by auto
  next
    case (Blocked b)
    then show ?thesis using run ReserveLaunch reserve_blocked [of env q slot b slot'] held by simp
  qed
next
  case (SettleLaunch env b out now)
  obtain res slot' where run: "settleTerminalLaunch env b out now slot = (res, slot')" by fastforce
  from run show ?thesis
  proof (cases rule: settle_cases)
    case unchanged
    with run SettleLaunch held show ?thesis by simp
  next
    case (written i)
    have jok: "journal_ok (slot_records slot)" using ok by (simp add: slot_ok_def)
    have di: "distinct (map lr_canonicalIdentity (filter unresolved (slot_records slot)))"
      using jok by (simp only: journal_ok_def)
    have "locks (slot_records slot) (lr_canonicalIdentity (slot_records slot ! i)) = Some b"
      using written(1,2,3) by (subst locks_Some [OF di]) (auto intro: bexI [of _ "slot_records slot ! i"])
    with held e SettleLaunch have "(\<exists>why. out = UncertainOutcome why) \<or> lr_canonicalIdentity (slot_records slot ! i) \<noteq> k"
      by auto
    then show ?thesis
      using held run SettleLaunch unfolding written(4) by (auto simp: locks_settle [OF jok written(1,3)] written(4))
  qed
qed

lemma locked_blocks:
  assumes "locks (slot_records slot) (buildCanonicalIdentityTuple (rq_params q)) = Some a"
  shows "\<exists>b. reserveTerminalLaunch env q slot = (Blocked b, slot)"
proof -
  obtain res slot' where run: "reserveTerminalLaunch env q slot = (res, slot')" by fastforce
  show ?thesis
  proof (cases res)
    case (ReservedAs b rid)
    from reserve_locks(2) [OF run [unfolded ReservedAs]] assms show ?thesis by simp
  next
    case (Blocked b)
    with run reserve_blocked [of env q slot b slot'] show ?thesis by simp
  qed
qed

text \<open>Runs that start with the reservation held, and do not confirm it, keep it.\<close>

interpretation held: event_machine launch_step "\<lambda>slot e. launch_allowed slot e \<and> \<not> confirms a e"
    "\<lambda>slot. slot_ok slot \<and> locks (slot_records slot) k = Some a" for a k
  by unfold_locales (auto intro: launch_step_inv lock_kept)

text \<open>After a confirmed settlement that was written, the identity is free again.\<close>

lemma confirm_frees:
  assumes ok: "slot_ok slot" and held: "locks (slot_records slot) k = Some a"
    and out: "\<forall>why. out \<noteq> UncertainOutcome why"
    and run: "settleTerminalLaunch env a out now slot = (Settled, slot')"
  shows "locks (slot_records slot') = (locks (slot_records slot))(k := None)"
proof -
  have jok: "journal_ok (slot_records slot)" using ok by (simp add: slot_ok_def)
  have di: "distinct (map lr_canonicalIdentity (filter unresolved (slot_records slot)))"
    and da: "distinct (map lr_attemptId (slot_records slot))" using jok by (simp_all only: journal_ok_def)
  from held locks_Some [OF di] obtain r where r: "r \<in> set (slot_records slot)" "unresolved r"
    "lr_canonicalIdentity r = k" "lr_attemptId r = a" by blast
  note same = distinct_map_eqD [OF da r(1)]
  from run show ?thesis
  proof (cases rule: settle_cases)
    case unchanged
    then obtain s where "s \<in> set (slot_records slot)" "lr_attemptId s = a" "\<not> unresolved s" by blast
    with same [of s] r show ?thesis by simp
  next
    case (written i)
    have "slot_records slot ! i = r" using same [of "slot_records slot ! i"] written(1,2) r(4) by simp
    then show ?thesis
      using out r(3) locks_settle [OF jok written(1,3), of out now] by (simp add: written(4))
  qed
qed

lemma capacity_enough:
  assumes "length (filter unresolved rs) < MAX_LAUNCH_JOURNAL_RECORDS"
  shows "\<exists>kept. compact_records rs = Inr kept"
  using assms by (simp add: compact_records_def Let_def)

text \<open>When the storage works, the identity is free, the requested id is new and there is room, the
  reservation succeeds.\<close>

lemma reserve_succeeds:
  assumes env: "se_available env" "se_readable env" "se_writable env" and ok: "slot_ok slot"
    and readable: "readLaunchJournalDocument env slot = Inr (slot_records slot)"
    and free: "locks (slot_records slot) (buildCanonicalIdentityTuple (rq_params q)) = None"
    and i: "explicit_id q = None"
    and kept: "compact_records (slot_records slot) = Inr kept"
    and r: "r = new_record (rq_params q) (rq_generation q) (rq_desktopId q) (rq_freshId q) (rq_attemptId q) (rq_now q)"
    and small: "utf8_length (stringify (record_json r)) \<le> MAX_LAUNCH_RECORD_BYTES"
    and fits: "length (document_text (kept @ [r])) \<le> MAX_LAUNCH_JOURNAL_DOCUMENT_BYTES"
  shows "fst (reserveTerminalLaunch env q slot) = ReservedAs (rq_attemptId q) (rq_freshId q)"
proof -
  have "find (\<lambda>r. lr_canonicalIdentity r = buildCanonicalIdentityTuple (rq_params q) \<and> unresolved r) (slot_records slot) = None"
    using free by (simp add: locks_def)
  then show ?thesis
    using env small fits
    by (simp add: reserveTerminalLaunch_def readable i kept Let_def r [symmetric] writeLaunchJournalDocument_def)
qed

section \<open>The identity text is unambiguous\<close>

lemma hex_digit_inj: "hex_digit a = hex_digit b \<Longrightarrow> a < 16 \<Longrightarrow> b < 16 \<Longrightarrow> a = b"
  by (drule arg_cong [where f = "of_char :: char \<Rightarrow> nat"]) (auto simp: hex_digit_def split: if_splits)

lemma json_char_quote: "json_char c @ xs \<noteq> CHR 0x22 # ys"
  by (auto simp: json_char_def Let_def)

text \<open>What follows the backslash of an escaped character.\<close>

definition escape_tail :: "nat \<Rightarrow> string" where
  "escape_tail n =
     (if n = 34 then [CHR 0x22]
      else if n = 92 then [CHR 0x5C]
      else if n = 8 then ''b''
      else if n = 9 then ''t''
      else if n = 10 then ''n''
      else if n = 12 then ''f''
      else if n = 13 then ''r''
      else [CHR ''u'', CHR ''0'', CHR ''0'', hex_digit (n div 16), hex_digit (n mod 16)])"

lemma escape_tail_prefix:
  assumes "escape_tail a @ xs = escape_tail b @ ys" and "a < 256" and "b < 256"
  shows "a = b \<and> xs = ys"
proof -
  have hex: "a = b" if "hex_digit (a div 16) = hex_digit (b div 16)" "hex_digit (a mod 16) = hex_digit (b mod 16)"
  proof -
    have "a div 16 = b div 16" "a mod 16 = b mod 16" using that assms(2,3) by (auto intro!: hex_digit_inj)
    then show ?thesis by (metis div_mult_mod_eq)
  qed
  show ?thesis
    using assms(1) hex unfolding escape_tail_def by (simp split: if_splits)
qed

lemma json_char_cases:
  "json_char c = (let n = of_char c in if n < 32 \<or> n = 34 \<or> n = 92 then CHR 0x5C # escape_tail n else [c])"
  by (simp add: json_char_def escape_tail_def Let_def)

lemma json_char_prefix:
  assumes "json_char c @ xs = json_char d @ ys"
  shows "c = d \<and> xs = ys"
proof -
  have code: "(of_char e :: nat) < 256" for e :: char by simp
  have "escape_tail (of_char c) @ xs = escape_tail (of_char d) @ ys \<Longrightarrow> c = d \<and> xs = ys"
    using escape_tail_prefix [OF _ code code, of c xs d ys] by simp
  then show ?thesis
    using assms by (auto simp: json_char_cases Let_def split: if_splits)
qed

lemma json_quote_prefix: "json_quote s @ xs = json_quote t @ ys \<Longrightarrow> s = t \<and> xs = ys"
proof -
  assume "json_quote s @ xs = json_quote t @ ys"
  then have "concat (map json_char s) @ CHR 0x22 # xs = concat (map json_char t) @ CHR 0x22 # ys"
    by (simp add: json_quote_def)
  then show ?thesis
  proof (induction s arbitrary: t)
    case Nil
    then show ?case by (cases t) (auto dest: json_char_quote [THEN notE, OF sym])
  next
    case (Cons c s)
    then obtain d u where t: "t = d # u" by (cases t) (auto simp: json_char_quote)
    from Cons.prems have "json_char c @ (concat (map json_char s) @ CHR 0x22 # xs) =
        json_char d @ (concat (map json_char u) @ CHR 0x22 # ys)" by (simp add: t)
    with Cons.IH [of u] show ?case by (auto dest!: json_char_prefix simp: t)
  qed
qed

lemma json_opt_prefix: "stringify (json_opt s) @ xs = stringify (json_opt t) @ ys \<Longrightarrow> s = t \<and> xs = ys"
proof (cases s; cases t)
  fix a b
  assume "stringify (json_opt s) @ xs = stringify (json_opt t) @ ys" "s = Some a" "t = Some b"
  then show ?thesis using json_quote_prefix [of a xs b ys] by (simp add: json_opt_def)
qed (auto simp: json_opt_def json_quote_def)

lemma identity_injective: "buildCanonicalIdentityTuple p = buildCanonicalIdentityTuple q \<longleftrightarrow> p = q"
proof
  assume "buildCanonicalIdentityTuple p = buildCanonicalIdentityTuple q"
  then have "json_quote (ip_profileId p) @ CHR '','' # json_quote (ip_endpointBinding p) @ CHR '','' #
      json_quote ''terminal.create'' @ CHR '','' # json_quote (ip_targetKind p) @ CHR '','' #
      stringify (json_opt (ip_workspaceId p)) @ CHR '','' # stringify (json_opt (ip_projectId p)) @ CHR '','' #
      stringify (json_opt (ip_worktreeId p)) @ CHR '','' # stringify (json_opt (ip_authorizedPath p)) @ CHR '','' #
      stringify (json_opt (ip_cwd p)) @ '']'' =
    json_quote (ip_profileId q) @ CHR '','' # json_quote (ip_endpointBinding q) @ CHR '','' #
      json_quote ''terminal.create'' @ CHR '','' # json_quote (ip_targetKind q) @ CHR '','' #
      stringify (json_opt (ip_workspaceId q)) @ CHR '','' # stringify (json_opt (ip_projectId q)) @ CHR '','' #
      stringify (json_opt (ip_worktreeId q)) @ CHR '','' # stringify (json_opt (ip_authorizedPath q)) @ CHR '','' #
      stringify (json_opt (ip_cwd q)) @ '']''"
    by (simp add: buildCanonicalIdentityTuple_def)
  then have "ip_profileId p = ip_profileId q \<and> ip_endpointBinding p = ip_endpointBinding q \<and> ip_targetKind p = ip_targetKind q \<and>
      ip_workspaceId p = ip_workspaceId q \<and> ip_projectId p = ip_projectId q \<and> ip_worktreeId p = ip_worktreeId q \<and>
      ip_authorizedPath p = ip_authorizedPath q \<and> ip_cwd p = ip_cwd q"
    using json_opt_prefix [of "ip_cwd p" "[]" "ip_cwd q" "[]"] by (auto dest!: json_quote_prefix json_opt_prefix)
  then show "p = q" by simp
qed simp

end
