(* ===== verification/Claim_Registry.thy ===== *)
theory Claim_Registry
  imports Window_Model
begin

text \<open>
  Exclusive claims of windows on resources, \<^verbatim>\<open>packages/ui/src/os/resource-registry.ts\<close> and
  \<^verbatim>\<open>terminal-claim-key.ts\<close>. Subscribers are the listeners of the hook \<^verbatim>\<open>useResourceClaim\<close>,
  which try to claim their key again whenever the claims change, and plain observers, which do not
  touch the registry. A listener that claims notifies all subscribers again from within the
  notification; the recursion is modelled as it is, and shown to end. Generations and numeric
  incarnations are natural numbers, times are arguments.
\<close>

section \<open>Keys\<close>

datatype num_or_string = Num nat | Str string

fun value_text :: "num_or_string \<Rightarrow> string" where
  "value_text (Num n) = nat_dec n"
| "value_text (Str s) = s"

record resource_claim_key =
  ck_resourceKind :: string
  ck_resourceId :: string
  ck_profileId :: string
  ck_generation :: nat
  ck_incarnation :: "num_or_string option"
  ck_epoch :: "num_or_string option"
  ck_authority :: "string option"

text \<open>\<open>parts.join("/")\<close>\<close>

fun join_slash :: "string list \<Rightarrow> string" where
  "join_slash [] = ''''"
| "join_slash [x] = x"
| "join_slash (x # xs) = x @ ''/'' @ join_slash xs"

definition formatClaimKey :: "resource_claim_key \<Rightarrow> string" where
  "formatClaimKey key =
     join_slash ([ck_resourceKind key, ck_profileId key, nat_dec (ck_generation key), ck_resourceId key] @
       (case ck_incarnation key of None \<Rightarrow> [] | Some i \<Rightarrow> [''inc:'' @ value_text i]) @
       (case ck_epoch key of None \<Rightarrow> [] | Some e \<Rightarrow> [''ep:'' @ value_text e]) @
       (case ck_authority key of None \<Rightarrow> [] | Some a \<Rightarrow> [''auth:'' @ a]))"

datatype terminal_claim_input =
    Targeted string nat string string string
  | Untargeted string nat string "nat option"

text \<open>The fields of a target: profile, generation, terminal id, incarnation, server epoch.\<close>

fun buildTerminalClaimKey :: "terminal_claim_input \<Rightarrow> resource_claim_key" where
  "buildTerminalClaimKey (Targeted p g t inc epoch) =
     \<lparr>ck_resourceKind = ''terminal'', ck_resourceId = t, ck_profileId = p, ck_generation = g,
      ck_incarnation = Some (Str inc), ck_epoch = None, ck_authority = Some epoch\<rparr>"
| "buildTerminalClaimKey (Untargeted p g s inc) =
     \<lparr>ck_resourceKind = ''terminal'', ck_resourceId = s, ck_profileId = p, ck_generation = g,
      ck_incarnation = map_option Num inc, ck_epoch = None, ck_authority = None\<rparr>"

section \<open>The registry\<close>

record active_claim =
  ac_key :: resource_claim_key
  ac_windowId :: string
  ac_claimedAt :: nat

datatype subscriber =
    Waiter nat resource_claim_key string
  | Observer nat

type_synonym claims = "active_claim js_record"

text \<open>A subscriber that waits for a key.\<close>

fun waits :: "string \<Rightarrow> subscriber \<Rightarrow> bool" where
  "waits k (Waiter i key w) = (formatClaimKey key = k)"
| "waits k (Observer i) = False"

definition free_keys :: "subscriber list \<Rightarrow> claims \<Rightarrow> string set" where
  "free_keys subs c = {k. list_ex (waits k) subs \<and> rec_get c k = None}"

text \<open>The loop of \<open>notify\<close> over the remaining subscribers; the listener of a waiter claims its key if
  it is free, and \<open>claim\<close> notifies all subscribers before the loop goes on.\<close>

function notify_loop :: "subscriber list \<Rightarrow> nat \<Rightarrow> subscriber list \<Rightarrow> claims \<Rightarrow> claims" where
  "notify_loop subs now [] c = c"
| "notify_loop subs now (Observer i # rest) c = notify_loop subs now rest c"
| "notify_loop subs now (Waiter i key w # rest) c =
     (if rec_get c (formatClaimKey key) = None
      then notify_loop subs now rest
             (notify_loop subs now subs
               (rec_set (formatClaimKey key) \<lparr>ac_key = key, ac_windowId = w, ac_claimedAt = now\<rparr> c))
      else notify_loop subs now rest c)"
  by pat_completeness auto

text \<open>A notification never takes a claim away.\<close>

lemma notify_loop_grows:
  assumes "notify_loop_dom (subs, now, rest, c)"
  shows "rec_get c k = Some x \<Longrightarrow> rec_get (notify_loop subs now rest c) k = Some x"
  using assms
proof (induction arbitrary: x rule: notify_loop.pinduct)
  case (3 subs now i key w rest c)
  show ?case
  proof (cases "rec_get c (formatClaimKey key) = None")
    case True
    then have "rec_get (rec_set (formatClaimKey key) \<lparr>ac_key = key, ac_windowId = w, ac_claimedAt = now\<rparr> c) k = Some x"
      using 3(5) by (auto simp: rec_get_set)
    from 3(3) [OF True 3(2) [OF True this]] show ?thesis by (simp add: notify_loop.psimps(3) [OF 3(1)] True)
  next
    case False
    from 3(4) [OF False 3(5)] False show ?thesis by (auto simp: notify_loop.psimps(3) [OF 3(1)])
  qed
qed (simp_all add: notify_loop.psimps)

fun waiting_key :: "subscriber \<Rightarrow> string" where
  "waiting_key (Waiter i key w) = formatClaimKey key"
| "waiting_key (Observer i) = ''''"

lemma waits_key: "waits k s \<Longrightarrow> waiting_key s = k"
  by (cases s) auto

lemma finite_free_keys: "finite (free_keys subs c)"
proof (rule finite_subset)
  show "free_keys subs c \<subseteq> waiting_key ` set subs"
    by (auto simp: free_keys_def list_ex_iff dest!: waits_key)
qed simp

lemma free_keys_less:
  assumes "set ss \<subseteq> set subs" and "k \<in> free_keys subs c" and "rec_get c' k \<noteq> None"
    and "\<And>j x. rec_get c j = Some x \<Longrightarrow> rec_get c' j \<noteq> None"
  shows "card (free_keys ss c') < card (free_keys subs c)"
proof (rule psubset_card_mono [OF finite_free_keys])
  have "free_keys ss c' \<subseteq> free_keys subs c"
    using assms(1,4) by (fastforce simp: free_keys_def list_ex_iff)
  moreover have "k \<notin> free_keys ss c'" using assms(3) by (simp add: free_keys_def)
  ultimately show "free_keys ss c' \<subset> free_keys subs c" using assms(2) by blast
qed

termination notify_loop
proof (relation "measures [\<lambda>(subs, now, rest, c). card (free_keys (subs @ rest) c), \<lambda>(subs, now, rest, c). length rest]",
    goal_cases)
  case (2 subs now i rest c)
  have "free_keys (subs @ rest) c = free_keys (subs @ Observer i # rest) c" by (simp add: free_keys_def)
  then show ?case by simp
next
  case (3 subs now i key w rest c)
  have "card (free_keys (subs @ subs) (rec_set (formatClaimKey key) \<lparr>ac_key = key, ac_windowId = w, ac_claimedAt = now\<rparr> c)) <
      card (free_keys (subs @ Waiter i key w # rest) c)"
    using 3 by (intro free_keys_less [where k = "formatClaimKey key"]) (auto simp: free_keys_def rec_get_set)
  then show ?case by simp
next
  case (4 subs now i key w rest c)
  let ?c = "rec_set (formatClaimKey key) \<lparr>ac_key = key, ac_windowId = w, ac_claimedAt = now\<rparr> c"
  have set: "rec_get (notify_loop subs now subs ?c) (formatClaimKey key) \<noteq> None"
    using notify_loop_grows [OF 4(2), of "formatClaimKey key"] by (simp add: rec_get_set)
  have grow: "rec_get c j = Some x \<Longrightarrow> rec_get (notify_loop subs now subs ?c) j \<noteq> None" for j x
    using notify_loop_grows [OF 4(2), of j x] 4(1) by (cases "j = formatClaimKey key") (simp_all add: rec_get_set)
  have "card (free_keys (subs @ rest) (notify_loop subs now subs
      (rec_set (formatClaimKey key) \<lparr>ac_key = key, ac_windowId = w, ac_claimedAt = now\<rparr> c))) <
      card (free_keys (subs @ Waiter i key w # rest) c)"
    using 4(1) by (intro free_keys_less [OF _ _ set grow]) (auto simp: free_keys_def)
  then show ?case by simp
next
  case (5 subs now i key w rest c)
  have "card (free_keys (subs @ rest) c) \<le> card (free_keys (subs @ Waiter i key w # rest) c)"
    by (rule card_mono [OF finite_free_keys]) (auto simp: free_keys_def)
  then show ?case by auto
qed simp

record resource_registry =
  rg_claims :: claims
  rg_subscribers :: "subscriber list"

definition empty_registry :: resource_registry where
  "empty_registry = \<lparr>rg_claims = [], rg_subscribers = []\<rparr>"

definition notify :: "nat \<Rightarrow> resource_registry \<Rightarrow> resource_registry" where
  "notify now reg =
     reg\<lparr>rg_claims := notify_loop (rg_subscribers reg) now (rg_subscribers reg) (rg_claims reg)\<rparr>"

datatype claim_result = Claimed | HeldBy string

definition claim :: "resource_registry \<Rightarrow> resource_claim_key \<Rightarrow> string \<Rightarrow> nat \<Rightarrow> claim_result \<times> resource_registry" where
  "claim reg key windowId now =
     (let formatted = formatClaimKey key in
      case rec_get (rg_claims reg) formatted of
        Some existing \<Rightarrow>
          (if ac_windowId existing = windowId then Claimed else HeldBy (ac_windowId existing), reg)
      | None \<Rightarrow>
          (Claimed, notify now (reg\<lparr>rg_claims :=
             rec_set formatted \<lparr>ac_key = key, ac_windowId = windowId, ac_claimedAt = now\<rparr> (rg_claims reg)\<rparr>)))"

definition release_claim :: "resource_registry \<Rightarrow> resource_claim_key \<Rightarrow> string \<Rightarrow> nat \<Rightarrow> resource_registry" where
  "release_claim reg key windowId now =
     (case rec_get (rg_claims reg) (formatClaimKey key) of
        None \<Rightarrow> reg
      | Some existing \<Rightarrow>
          if ac_windowId existing = windowId
          then notify now (reg\<lparr>rg_claims := rec_del (formatClaimKey key) (rg_claims reg)\<rparr>)
          else reg)"

definition releaseAllForWindow :: "resource_registry \<Rightarrow> string \<Rightarrow> nat \<Rightarrow> resource_registry" where
  "releaseAllForWindow reg windowId now =
     (if list_ex (\<lambda>(k, c). ac_windowId c = windowId) (rg_claims reg)
      then notify now (reg\<lparr>rg_claims := filter (\<lambda>(k, c). ac_windowId c \<noteq> windowId) (rg_claims reg)\<rparr>)
      else reg)"

definition getClaim :: "resource_registry \<Rightarrow> resource_claim_key \<Rightarrow> active_claim option" where
  "getClaim reg key = rec_get (rg_claims reg) (formatClaimKey key)"

definition getClaimsForWindow :: "resource_registry \<Rightarrow> string \<Rightarrow> active_claim list" where
  "getClaimsForWindow reg windowId = filter (\<lambda>c. ac_windowId c = windowId) (map snd (rg_claims reg))"

definition clear_claims :: "resource_registry \<Rightarrow> nat \<Rightarrow> resource_registry" where
  "clear_claims reg now = notify now (reg\<lparr>rg_claims := []\<rparr>)"

definition subscribe_claims :: "resource_registry \<Rightarrow> subscriber \<Rightarrow> resource_registry" where
  "subscribe_claims reg s =
     (if s \<in> set (rg_subscribers reg) then reg else reg\<lparr>rg_subscribers := rg_subscribers reg @ [s]\<rparr>)"

definition unsubscribe_claims :: "resource_registry \<Rightarrow> subscriber \<Rightarrow> resource_registry" where
  "unsubscribe_claims reg s = reg\<lparr>rg_subscribers := filter (\<lambda>t. t \<noteq> s) (rg_subscribers reg)\<rparr>"

datatype claim_status = Owned | Pending | HeldElsewhere string

definition getClaimStatus :: "resource_registry \<Rightarrow> resource_claim_key option \<Rightarrow> string \<Rightarrow> claim_status" where
  "getClaimStatus reg key windowId =
     (case key of
        None \<Rightarrow> Pending
      | Some k \<Rightarrow>
          (case getClaim reg k of
             None \<Rightarrow> Pending
           | Some c \<Rightarrow> if ac_windowId c = windowId then Owned else HeldElsewhere (ac_windowId c)))"

text \<open>The effect of the hook and its cleanup; the number identifies the listener.\<close>

definition mount_claim :: "resource_registry \<Rightarrow> nat \<Rightarrow> resource_claim_key \<Rightarrow> string \<Rightarrow> nat \<Rightarrow> resource_registry" where
  "mount_claim reg i key windowId now = subscribe_claims (snd (claim reg key windowId now)) (Waiter i key windowId)"

definition unmount_claim :: "resource_registry \<Rightarrow> nat \<Rightarrow> resource_claim_key \<Rightarrow> string \<Rightarrow> nat \<Rightarrow> resource_registry" where
  "unmount_claim reg i key windowId now =
     release_claim (unsubscribe_claims reg (Waiter i key windowId)) key windowId now"

section \<open>What a notification does\<close>

text \<open>The claim a free key goes to: the one of the first subscriber that waits for it.\<close>

fun claim_of :: "nat \<Rightarrow> subscriber \<Rightarrow> active_claim option" where
  "claim_of now (Waiter i key w) = Some \<lparr>ac_key = key, ac_windowId = w, ac_claimedAt = now\<rparr>"
| "claim_of now (Observer i) = None"

definition first_waiter :: "nat \<Rightarrow> subscriber list \<Rightarrow> string \<Rightarrow> active_claim option" where
  "first_waiter now subs k = Option.bind (find (waits k) subs) (claim_of now)"

definition handed_over :: "nat \<Rightarrow> subscriber list \<Rightarrow> claims \<Rightarrow> string \<Rightarrow> active_claim option" where
  "handed_over now subs c k = (case rec_get c k of Some x \<Rightarrow> Some x | None \<Rightarrow> first_waiter now subs k)"

lemma find_append: "find P (xs @ ys) = (case find P xs of None \<Rightarrow> find P ys | Some x \<Rightarrow> Some x)"
  by (induction xs) auto

lemma first_waiter_None: "first_waiter now subs k = None \<longleftrightarrow> (\<forall>s \<in> set subs. \<not> waits k s)"
proof (cases "find (waits k) subs")
  case None
  moreover from None have "\<forall>s \<in> set subs. \<not> waits k s" by (simp add: find_None_iff')
  ultimately show ?thesis by (simp add: first_waiter_def)
next
  case (Some s)
  then have s: "s \<in> set subs" "waits k s" by (simp_all add: find_Some_in)
  moreover from s(2) have "claim_of now s \<noteq> None" by (cases s) auto
  ultimately show ?thesis using Some by (auto simp: first_waiter_def)
qed

lemma handed_over_held: "s \<in> set subs \<Longrightarrow> waits k s \<Longrightarrow> handed_over now subs c k \<noteq> None"
proof (cases "rec_get c k")
  case None
  assume "s \<in> set subs" and "waits k s"
  then have "first_waiter now subs k \<noteq> None" unfolding first_waiter_None by blast
  with None show ?thesis by (simp add: handed_over_def)
qed (simp add: handed_over_def)

lemma notify_loop_spec:
  assumes "subs = pre @ rest" and "\<forall>s \<in> set pre. \<forall>k. waits k s \<longrightarrow> rec_get c k \<noteq> None"
  shows "rec_get (notify_loop subs now rest c) = handed_over now subs c"
  using assms
proof (induction subs now rest c arbitrary: pre rule: notify_loop.induct)
  case (1 subs now c)
  have "rec_get c k = handed_over now subs c k" for k
    using 1 by (auto simp: handed_over_def split: option.split) (metis first_waiter_None not_Some_eq)
  then show ?case by auto
next
  case (2 subs now i rest c)
  have "rec_get (notify_loop subs now rest c) = handed_over now subs c"
    using 2 by (intro "2.IH" [of "pre @ [Observer i]"]) auto
  then show ?case by simp
next
  case (3 subs now i key w rest c)
  let ?k = "formatClaimKey key" and ?x = "\<lparr>ac_key = key, ac_windowId = w, ac_claimedAt = now\<rparr>"
  show ?case
  proof (cases "rec_get c ?k = None")
    case True
    have none: "find (waits ?k) pre = None" unfolding find_None_iff' using 3(5) True by blast
    have first: "first_waiter now subs ?k = Some ?x"
      unfolding 3(4) first_waiter_def by (simp add: find_append none)
    let ?c1 = "rec_set ?k ?x c"
    have c1: "handed_over now subs ?c1 = handed_over now subs c"
      using first True by (auto simp: handed_over_def rec_get_set fun_eq_iff split: option.split)
    let ?c2 = "notify_loop subs now subs ?c1"
    have c2: "rec_get ?c2 = handed_over now subs c" using 3(1) [OF True, of "[]"] c1 by simp
    have held: "rec_get ?c2 k \<noteq> None" if "s \<in> set subs" "waits k s" for s k
      unfolding c2 by (rule handed_over_held [OF that])
    have sub: "s \<in> set subs" if "s \<in> set (pre @ [Waiter i key w])" for s using that 3(4) by auto
    have "rec_get (notify_loop subs now rest ?c2) = handed_over now subs ?c2"
    proof (rule 3(2) [OF True, of "pre @ [Waiter i key w]"])
      show "\<forall>s \<in> set (pre @ [Waiter i key w]). \<forall>k. waits k s \<longrightarrow> rec_get ?c2 k \<noteq> None"
        using sub held by blast
    qed (simp add: 3(4))
    also have "\<dots> = handed_over now subs c"
      unfolding handed_over_def c2 by (auto simp: handed_over_def fun_eq_iff split: option.split)
    finally show ?thesis using True by simp
  next
    case False
    have "rec_get (notify_loop subs now rest c) = handed_over now subs c"
      using 3(4,5) False by (intro 3(3) [OF False, of "pre @ [Waiter i key w]"]) auto
    with False show ?thesis by auto
  qed
qed

lemma notify_claims: "rec_get (rg_claims (notify now reg)) = handed_over now (rg_subscribers reg) (rg_claims reg)"
  using notify_loop_spec [of "rg_subscribers reg" "[]" "rg_subscribers reg" "rg_claims reg" now] by (simp add: notify_def)

lemma notify_loop_wf: "rec_wf c \<Longrightarrow> rec_wf (notify_loop subs now rest c)"
  by (induction subs now rest c rule: notify_loop.induct) (simp_all del: not_None_eq)

lemma notify_wf: "rec_wf (rg_claims reg) \<Longrightarrow> rec_wf (rg_claims (notify now reg))"
  by (simp add: notify_def notify_loop_wf)

lemma notify_subscribers [simp]: "rg_subscribers (notify now reg) = rg_subscribers reg"
  by (simp add: notify_def)

section \<open>Mounted windows and claims\<close>

text \<open>Nobody waits for a key that is free, and every claim belongs to a mounted listener.\<close>

fun waits_for :: "string \<Rightarrow> string \<Rightarrow> subscriber \<Rightarrow> bool" where
  "waits_for w k (Waiter i key v) = (v = w \<and> formatClaimKey key = k)"
| "waits_for w k (Observer i) = False"

definition claim_justified :: "subscriber list \<Rightarrow> string \<Rightarrow> active_claim \<Rightarrow> bool" where
  "claim_justified subs k c \<longleftrightarrow> list_ex (waits_for (ac_windowId c) k) subs"

text \<open>No mounted listener waits for a key that is free. This is kept by every operation, also by claims
  made without the hook.\<close>

definition waiters_served :: "resource_registry \<Rightarrow> bool" where
  "waiters_served reg \<longleftrightarrow> rec_wf (rg_claims reg) \<and>
     (\<forall>s \<in> set (rg_subscribers reg). \<forall>k. waits k s \<longrightarrow> rec_get (rg_claims reg) k \<noteq> None)"

definition claims_owned :: "resource_registry \<Rightarrow> bool" where
  "claims_owned reg \<longleftrightarrow> (\<forall>k c. rec_get (rg_claims reg) k = Some c \<longrightarrow> claim_justified (rg_subscribers reg) k c)"

definition registry_ok :: "resource_registry \<Rightarrow> bool" where
  "registry_ok reg \<longleftrightarrow> waiters_served reg \<and> claims_owned reg"

lemma first_waiter_justified: "first_waiter now subs k = Some c \<Longrightarrow> claim_justified subs k c"
proof -
  assume f: "first_waiter now subs k = Some c"
  then obtain s where s: "find (waits k) subs = Some s" "claim_of now s = Some c"
    by (auto simp: first_waiter_def split: Option.bind_splits)
  then have "s \<in> set subs" "waits k s" by (simp_all add: find_Some_in)
  moreover have "waits_for (ac_windowId c) k s" using \<open>waits k s\<close> s(2) by (cases s) auto
  ultimately show ?thesis by (auto simp: claim_justified_def list_ex_iff)
qed

lemma notify_served: "rec_wf (rg_claims reg) \<Longrightarrow> waiters_served (notify now reg)"
  using handed_over_held notify_wf unfolding waiters_served_def notify_claims notify_subscribers by blast

lemma notify_owned: "claims_owned reg \<Longrightarrow> claims_owned (notify now reg)"
  using first_waiter_justified
  by (auto simp: claims_owned_def notify_claims handed_over_def split: option.splits)

datatype claim_event =
    Mount nat resource_claim_key string nat
  | Unmount nat resource_claim_key string nat
  | DirectClaim resource_claim_key string nat
  | DirectRelease resource_claim_key string nat
  | ReleaseAll string nat
  | ClearAll nat
  | Observe nat
  | Unobserve nat

fun claim_step :: "resource_registry \<Rightarrow> claim_event \<Rightarrow> resource_registry" where
  "claim_step reg (Mount i key w now) = mount_claim reg i key w now"
| "claim_step reg (Unmount i key w now) = unmount_claim reg i key w now"
| "claim_step reg (DirectClaim key w now) = snd (claim reg key w now)"
| "claim_step reg (DirectRelease key w now) = release_claim reg key w now"
| "claim_step reg (ReleaseAll w now) = releaseAllForWindow reg w now"
| "claim_step reg (ClearAll now) = clear_claims reg now"
| "claim_step reg (Observe i) = subscribe_claims reg (Observer i)"
| "claim_step reg (Unobserve i) = unsubscribe_claims reg (Observer i)"

text \<open>The events of windows that only use the hook.\<close>

fun hook_event :: "claim_event \<Rightarrow> bool" where
  "hook_event (DirectClaim key w now) = False"
| "hook_event e = True"

section \<open>Nobody waits for a free key\<close>

lemma claim_served: "waiters_served reg \<Longrightarrow> waiters_served (snd (claim reg key w now))"
  by (auto simp: claim_def Let_def intro!: notify_served split: option.split)
    (simp_all add: waiters_served_def)

lemma claim_holds: "rec_get (rg_claims (snd (claim reg key w now))) (formatClaimKey key) \<noteq> None"
  by (auto simp: claim_def Let_def notify_claims handed_over_def rec_get_set split: option.split)

lemma subscribe_served:
  assumes "waiters_served reg" and "\<And>k. waits k s \<Longrightarrow> rec_get (rg_claims reg) k \<noteq> None"
  shows "waiters_served (subscribe_claims reg s)"
  using assms by (auto simp: waiters_served_def subscribe_claims_def)

lemma unsubscribe_served: "waiters_served reg \<Longrightarrow> waiters_served (unsubscribe_claims reg s)"
  by (auto simp: waiters_served_def unsubscribe_claims_def)

lemma release_served: "waiters_served reg \<Longrightarrow> waiters_served (release_claim reg key w now)"
  by (auto simp: release_claim_def intro!: notify_served split: option.split) (simp_all add: waiters_served_def)

lemma filter_wf: "rec_wf m \<Longrightarrow> rec_wf (filter P m)"
  by (rule distinct_map_filter)

lemma claim_step_served: "waiters_served reg \<Longrightarrow> waiters_served (claim_step reg e)"
proof (cases e)
  case (Mount i key w now)
  assume "waiters_served reg"
  then show ?thesis unfolding Mount claim_step.simps mount_claim_def
    using claim_holds [of reg key w now] by (intro subscribe_served claim_served) auto
next
  case (ReleaseAll w now)
  assume "waiters_served reg"
  then show ?thesis unfolding ReleaseAll claim_step.simps releaseAllForWindow_def
    by (auto intro!: notify_served filter_wf) (simp add: waiters_served_def)
next
  case (ClearAll now)
  then show ?thesis by (auto simp: clear_claims_def intro!: notify_served)
next
  case (Observe i)
  assume "waiters_served reg"
  then show ?thesis unfolding Observe by (auto intro: subscribe_served)
qed (auto simp: unmount_claim_def intro: claim_served release_served unsubscribe_served)

interpretation serving: event_machine claim_step "\<lambda>_ _. True" waiters_served
  by unfold_locales (rule claim_step_served)

section \<open>Claims of mounted listeners\<close>

lemma justified_mono: "claim_justified subs k c \<Longrightarrow> set subs \<subseteq> set subs' \<Longrightarrow> claim_justified subs' k c"
  by (auto simp: claim_justified_def list_ex_iff)

lemma claims_ownedI:
  assumes "\<And>k c. rec_get (rg_claims reg) k = Some c \<Longrightarrow> claim_justified (rg_subscribers reg) k c"
  shows "claims_owned reg"
  using assms by (simp add: claims_owned_def)

lemma claims_ownedD: "claims_owned reg \<Longrightarrow> rec_get (rg_claims reg) k = Some c \<Longrightarrow> claim_justified (rg_subscribers reg) k c"
  by (simp add: claims_owned_def)

lemma subscribe_set: "set (rg_subscribers (subscribe_claims reg s)) = insert s (set (rg_subscribers reg))"
  by (auto simp: subscribe_claims_def)

lemma subscribe_claims_same [simp]: "rg_claims (subscribe_claims reg s) = rg_claims reg"
  by (simp add: subscribe_claims_def)

lemma subscribe_owned: "claims_owned reg \<Longrightarrow> claims_owned (subscribe_claims reg s)"
  by (rule claims_ownedI) (auto simp: subscribe_set dest!: claims_ownedD elim!: justified_mono)

lemma claim_subscribers [simp]: "rg_subscribers (snd (claim reg key w now)) = rg_subscribers reg"
  by (simp add: claim_def Let_def split: option.split)

text \<open>A claim is the claimant's or belongs to a listener.\<close>

lemma claim_cases:
  assumes "claims_owned reg" and "rec_get (rg_claims (snd (claim reg key w now))) k = Some c"
  shows "claim_justified (rg_subscribers reg) k c \<or> k = formatClaimKey key \<and> ac_windowId c = w"
proof (cases "rec_get (rg_claims reg) (formatClaimKey key)")
  case None
  with assms(2) have "handed_over now (rg_subscribers reg)
      (rec_set (formatClaimKey key) \<lparr>ac_key = key, ac_windowId = w, ac_claimedAt = now\<rparr> (rg_claims reg)) k = Some c"
    by (simp add: claim_def notify_claims)
  then show ?thesis
    using assms(1) first_waiter_justified
    by (auto simp: handed_over_def rec_get_set claims_owned_def split: option.splits if_splits)
next
  case (Some x)
  with assms show ?thesis by (simp add: claim_def claims_owned_def)
qed

lemma mount_owned:
  assumes "claims_owned reg"
  shows "claims_owned (mount_claim reg i key w now)"
proof (rule claims_ownedI)
  fix k c
  assume "rec_get (rg_claims (mount_claim reg i key w now)) k = Some c"
  then have "rec_get (rg_claims (snd (claim reg key w now))) k = Some c" by (simp add: mount_claim_def)
  from claim_cases [OF assms this] show "claim_justified (rg_subscribers (mount_claim reg i key w now)) k c"
    by (auto simp: mount_claim_def subscribe_set claim_justified_def list_ex_iff)
qed

text \<open>Releasing: the claims that stay must be justified, and a notification keeps that.\<close>

lemma release_owned:
  assumes "\<And>k c. rec_get (rg_claims reg) k = Some c \<Longrightarrow> k \<noteq> formatClaimKey key \<or> ac_windowId c \<noteq> w \<Longrightarrow>
      claim_justified (rg_subscribers reg) k c"
  shows "claims_owned (release_claim reg key w now)"
proof (cases "\<exists>x. rec_get (rg_claims reg) (formatClaimKey key) = Some x \<and> ac_windowId x = w")
  case True
  then have "release_claim reg key w now = notify now (reg\<lparr>rg_claims := rec_del (formatClaimKey key) (rg_claims reg)\<rparr>)"
    by (auto simp: release_claim_def)
  moreover have "claims_owned (reg\<lparr>rg_claims := rec_del (formatClaimKey key) (rg_claims reg)\<rparr>)"
    using assms by (intro claims_ownedI) (simp add: rec_get_del split: if_splits)
  ultimately show ?thesis by (simp add: notify_owned)
next
  case False
  then have "release_claim reg key w now = reg" by (auto simp: release_claim_def split: option.split)
  moreover have "claims_owned reg" using assms False by (intro claims_ownedI) blast
  ultimately show ?thesis by simp
qed

lemma unmount_owned:
  assumes "claims_owned reg"
  shows "claims_owned (unmount_claim reg i key w now)"
  unfolding unmount_claim_def
proof (rule release_owned)
  fix k c
  assume "rec_get (rg_claims (unsubscribe_claims reg (Waiter i key w))) k = Some c"
    and other: "k \<noteq> formatClaimKey key \<or> ac_windowId c \<noteq> w"
  then have "claim_justified (rg_subscribers reg) k c"
    using assms by (simp add: unsubscribe_claims_def claims_owned_def)
  with other show "claim_justified (rg_subscribers (unsubscribe_claims reg (Waiter i key w))) k c"
    by (auto simp: unsubscribe_claims_def claim_justified_def list_ex_iff)
qed

lemma unobserve_owned: "claims_owned reg \<Longrightarrow> claims_owned (unsubscribe_claims reg (Observer i))"
  by (fastforce simp: claims_owned_def unsubscribe_claims_def claim_justified_def list_ex_iff)

lemma rec_get_filter: "rec_wf m \<Longrightarrow> rec_get (filter P m) k = Some c \<Longrightarrow> rec_get m k = Some c"
  by (auto simp: rec_get_iff filter_wf)

lemma releaseAll_owned:
  assumes "registry_ok reg"
  shows "claims_owned (releaseAllForWindow reg w now)"
proof -
  let ?left = "reg\<lparr>rg_claims := filter (\<lambda>(k, c). ac_windowId c \<noteq> w) (rg_claims reg)\<rparr>"
  have ok: "rec_wf (rg_claims reg)" "claims_owned reg" using assms by (simp_all add: registry_ok_def waiters_served_def)
  have "claims_owned ?left"
    using rec_get_filter [OF ok(1)] claims_ownedD [OF ok(2)] by (intro claims_ownedI) simp
  with ok(2) show ?thesis by (simp add: releaseAllForWindow_def notify_owned)
qed

lemma claim_step_ok: "registry_ok reg \<Longrightarrow> hook_event e \<Longrightarrow> registry_ok (claim_step reg e)"
  unfolding registry_ok_def
proof (intro conjI claim_step_served)
  assume ok: "waiters_served reg \<and> claims_owned reg" and "hook_event e"
  have "claims_owned (release_claim reg key w now)" for key w now
    using ok by (intro release_owned) (simp add: claims_ownedD)
  moreover have "claims_owned (clear_claims reg now)" for now
    unfolding clear_claims_def by (intro notify_owned claims_ownedI) simp
  ultimately show "claims_owned (claim_step reg e)"
    using ok \<open>hook_event e\<close>
    by (cases e) (simp_all add: registry_ok_def mount_owned unmount_owned subscribe_owned unobserve_owned releaseAll_owned)
qed auto

interpretation claims: event_machine claim_step "\<lambda>_. hook_event" registry_ok
  by unfold_locales (rule claim_step_ok)

lemma empty_registry_served: "waiters_served empty_registry"
  and empty_registry_owned: "claims_owned empty_registry"
  by (simp_all add: empty_registry_def waiters_served_def claims_owned_def)

text \<open>When the holder of a key leaves, the key goes to the first listener that waits for it.\<close>

lemma unmount_hands_over:
  assumes "getClaim reg key = Some c" and "ac_windowId c = w"
  shows "getClaim (unmount_claim reg i key w now) key =
    first_waiter now (filter (\<lambda>s. s \<noteq> Waiter i key w) (rg_subscribers reg)) (formatClaimKey key)"
  using assms
  by (simp add: getClaim_def unmount_claim_def release_claim_def unsubscribe_claims_def notify_claims handed_over_def
      rec_get_del)

lemma first_waiter_holds: "first_waiter now subs k = Some c \<Longrightarrow> ac_claimedAt c = now"
  by (auto simp: first_waiter_def elim!: claim_of.elims split: Option.bind_splits)

text \<open>A claim never changes hands while its holder stays mounted.\<close>

lemma mount_keeps_holder:
  "getClaim reg k = Some c \<Longrightarrow> getClaim (mount_claim reg i key w now) k = Some c"
  by (auto simp: getClaim_def mount_claim_def claim_def Let_def notify_claims handed_over_def rec_get_set
      split: option.split)

lemma unmount_keeps_holder:
  "getClaim reg k = Some c \<Longrightarrow> ac_windowId c \<noteq> w \<Longrightarrow> getClaim (unmount_claim reg i key w now) k = Some c"
  by (auto simp: getClaim_def unmount_claim_def unsubscribe_claims_def release_claim_def notify_claims handed_over_def rec_get_del
      split: option.split)

section \<open>Keys of terminals\<close>

text \<open>Joined parts without a slash can be told apart.\<close>

definition no_slash :: "string \<Rightarrow> bool" where
  "no_slash s \<longleftrightarrow> CHR ''/'' \<notin> set s"

lemma no_slash_append [simp]: "no_slash (s @ t) \<longleftrightarrow> no_slash s \<and> no_slash t"
  by (auto simp: no_slash_def)

lemma no_slash_cons [simp]: "no_slash (c # s) \<longleftrightarrow> c \<noteq> CHR ''/'' \<and> no_slash s" "no_slash []"
  by (auto simp: no_slash_def)

lemma first_slash:
  assumes "no_slash x" and "no_slash y" and "x @ CHR ''/'' # s = y @ CHR ''/'' # t"
  shows "x = y \<and> s = t"
  using assms by (induction x arbitrary: y) (auto simp: Cons_eq_append_conv)

lemma join_slash_Cons: "xs \<noteq> [] \<Longrightarrow> join_slash (x # xs) = x @ CHR ''/'' # join_slash xs"
  by (cases xs) auto

lemma join_slash_inj:
  assumes "list_all no_slash xs" "list_all no_slash ys" "xs \<noteq> []" "ys \<noteq> []" "join_slash xs = join_slash ys"
  shows "xs = ys"
  using assms
proof (induction xs arbitrary: ys)
  case (Cons x xs)
  then obtain y ys' where ys: "ys = y # ys'" by (cases ys) auto
  have one: False if "no_slash a" "a = b @ CHR ''/'' # s" for a b s using that by (simp add: no_slash_def)
  show ?case
  proof (cases "xs = []"; cases "ys' = []")
    assume ne: "xs \<noteq> []" "ys' \<noteq> []"
    have "x = y \<and> join_slash xs = join_slash ys'"
      using Cons.prems ne unfolding ys by (intro first_slash) (simp_all add: join_slash_Cons)
    with Cons.IH [of ys'] Cons.prems ne ys show ?thesis by simp
  next
    assume "xs \<noteq> []" "ys' = []"
    then have "y = x @ CHR ''/'' # join_slash xs" using Cons.prems(5) by (simp add: ys join_slash_Cons)
    with Cons.prems(2) one [of y] show ?thesis unfolding ys by simp
  next
    assume "xs = []" "ys' \<noteq> []"
    then have "x = y @ CHR ''/'' # join_slash ys'" using Cons.prems(5) by (simp add: ys join_slash_Cons)
    with Cons.prems(1) one [of x] show ?thesis by simp
  next
    assume "xs = []" "ys' = []"
    with Cons.prems(5) show ?thesis by (simp add: ys)
  qed
qed simp

lemma no_slash_nat_dec [simp]: "no_slash (nat_dec n)"
proof (induction n rule: nat_dec.induct)
  case (1 n)
  have "(char_of (48 + k) :: char) \<noteq> CHR ''/''" if "k < 10" for k :: nat
  proof
    assume "(char_of (48 + k) :: char) = CHR ''/''"
    then have "of_char (char_of (48 + k) :: char) = (47::nat)" by simp
    with that show False by simp
  qed
  with 1 show ?case by (subst nat_dec.simps) simp
qed

fun input_no_slash :: "terminal_claim_input \<Rightarrow> bool" where
  "input_no_slash (Targeted p g t inc epoch) \<longleftrightarrow> no_slash p \<and> no_slash t \<and> no_slash inc \<and> no_slash epoch"
| "input_no_slash (Untargeted p g s inc) \<longleftrightarrow> no_slash p \<and> no_slash s"

fun claim_parts :: "terminal_claim_input \<Rightarrow> string list" where
  "claim_parts (Targeted p g t inc epoch) = [''terminal'', p, nat_dec g, t, ''inc:'' @ inc, ''auth:'' @ epoch]"
| "claim_parts (Untargeted p g s inc) =
     [''terminal'', p, nat_dec g, s] @ (case inc of None \<Rightarrow> [] | Some n \<Rightarrow> [''inc:'' @ nat_dec n])"

lemma format_terminal: "formatClaimKey (buildTerminalClaimKey t) = join_slash (claim_parts t)"
  by (cases t) (auto simp: formatClaimKey_def split: option.split)

lemma claim_parts_inj: "claim_parts s = claim_parts t \<Longrightarrow> s = t"
proof (cases s)
  case (Targeted p g u inc epoch)
  assume eq: "claim_parts s = claim_parts t"
  show ?thesis
  proof (cases t)
    case (Untargeted p' g' u' inc')
    with eq Targeted show ?thesis by (cases inc') simp_all
  qed (use eq Targeted in simp)
next
  case (Untargeted p g u inc)
  assume eq: "claim_parts s = claim_parts t"
  show ?thesis
  proof (cases t)
    case (Targeted p' g' u' inc' epoch')
    with eq Untargeted show ?thesis by (cases inc) simp_all
  next
    fix p' g' u' inc'
    assume "t = Untargeted p' g' u' inc'"
    with eq Untargeted show ?thesis by (cases inc; cases inc') simp_all
  qed
qed

lemma terminal_keys_inj:
  assumes "input_no_slash s" "input_no_slash t"
    and "formatClaimKey (buildTerminalClaimKey s) = formatClaimKey (buildTerminalClaimKey t)"
  shows "s = t"
proof -
  have ok: "list_all no_slash (claim_parts u)" if "input_no_slash u" for u
    using that by (cases u) (simp_all split: option.split)
  have ne: "claim_parts u \<noteq> []" for u by (cases u) simp_all
  have "join_slash (claim_parts s) = join_slash (claim_parts t)" using assms(3) by (simp add: format_terminal)
  then show ?thesis
    by (rule claim_parts_inj [OF join_slash_inj [OF ok [OF assms(1)] ok [OF assms(2)] ne ne]])
qed

end
