(* ===== verification/Demo_Data.thy ===== *)
theory Demo_Data
  imports Window_Laws Dock_Pins Launch_Journal Claim_Registry "HOL-Library.Code_Target_Nat"
begin

text \<open>
  Concrete inputs on which the witnesses evaluate the model: a run of the window store, a tile
  tree, an empty persistence state and a launch request with the journal after it was reserved and
  after it was settled. Natural numbers are evaluated in binary here.
\<close>

section \<open>A concrete run\<close>

text \<open>A terminal and a second window, opened, docked, minimized, restored and moved; the witnesses
  below evaluate the model on it.\<close>

definition demo_window :: "string \<Rightarrow> os_window" where
  "demo_window wid =
     \<lparr>win_id = wid, win_appId = Terminals, win_title = ''Shell'',
      win_ctx = \<lparr>ctx_profileId = ''p1'', ctx_generation = None, ctx_projectId = None, ctx_worktreeId = None,
                 ctx_gitRootId = None, ctx_operation = None, ctx_target = None\<rparr>,
      win_mode = Float, win_desktopId = '''', win_maximized = False, win_minimized = False,
      win_floatBounds = None, win_restorePlacement = None, win_appState = None,
      win_runtimeIdentity = None\<rparr>"

definition demo_events :: "window_event list" where
  "demo_events =
     [OpenWindow (demo_window ''a'') (Some Tile) None None ''u1'',
      OpenWindow (demo_window ''b'') None None None ''u2'',
      DockWindow ''desktop-1'' ''b'' (PaneEdge ''u1'' Right) None ''u3'' ''u4'',
      MinimizeWindow ''a'', RestoreWindow ''a'' ''u5'',
      AddDesktop None None 17, MoveWindowToDesktop ''b'' ''desktop-17-2'' ''u6'']"

definition demo_session :: os_session where
  "demo_session = st_session (run_events window_step initial_store demo_events)"

definition demo_tree :: "string tile_node" where
  "demo_tree =
     Split ''s'' Horizontal (1, 1)
       (Pane \<lparr>pane_id = ''p'', items = [''a'', ''b''], active = Some ''a''\<rparr>)
       (Pane \<lparr>pane_id = ''q'', items = [''c''], active = Some ''c''\<rparr>)"

definition idle_storage :: persistence_state where
  "idle_storage = \<lparr>ps_suspended = False, ps_corruptBytes = None, ps_storage = None\<rparr>"

definition demo_storage :: storage_env where
  "demo_storage = \<lparr>se_available = True, se_readable = True, se_writable = True\<rparr>"

definition demo_request :: "string \<Rightarrow> string \<Rightarrow> launch_request" where
  "demo_request a i =
     \<lparr>rq_params = \<lparr>ip_profileId = ''p1'', ip_endpointBinding = ''e'', ip_targetKind = ''workspace'',
        ip_workspaceId = Some ''w'', ip_projectId = None, ip_worktreeId = None, ip_authorizedPath = None,
        ip_cwd = Some ''.''\<rparr>,
      rq_generation = 1, rq_desktopId = ''d'', rq_explicitId = None, rq_freshId = i, rq_attemptId = a, rq_now = 7\<rparr>"

definition demo_reserved :: journal_slot where
  "demo_reserved = snd (reserveTerminalLaunch demo_storage (demo_request ''a1'' ''t1'') None)"

definition demo_settled :: journal_slot where
  "demo_settled = snd (settleTerminalLaunch demo_storage ''a1'' (NotCreated ''x'') 9 demo_reserved)"

section \<open>Two windows and one terminal\<close>

definition demo_claim_key :: resource_claim_key where
  "demo_claim_key = buildTerminalClaimKey (Untargeted ''p1'' 1 ''s1'' None)"

text \<open>Window \<open>a\<close> takes the terminal, \<open>b\<close> and \<open>c\<close> wait for it.\<close>

definition demo_claims :: "claim_event list" where
  "demo_claims =
     [Mount 1 demo_claim_key ''a'' 10, Mount 2 demo_claim_key ''b'' 11, Mount 3 demo_claim_key ''c'' 12]"

end
