(* ===== verification/Deviations.thy ===== *)
theory Deviations
  imports Demo_Data
begin

text \<open>
  Behaviours of the code that its comments, contracts or callers do not expect, each shown on a
  concrete input or as a law.
\<close>

section \<open>Windows\<close>

text \<open>\<^verbatim>\<open>setWindowMode\<close> and \<^verbatim>\<open>focusWindow\<close> do not look at the minimized flag. Changing the
  mode of a minimized window places it while it stays minimized; the session written afterwards is
  refused on the next load, which starts from the default session and suspends autosaving.\<close>

definition minimized_toggled :: os_session where
  "minimized_toggled = st_session (run_events window_step initial_store
     [OpenWindow (demo_window ''a'') (Some Tile) None None ''u1'', MinimizeWindow ''a'', ToggleWindowMode ''a'' ''u2''])"

lemma minimized_toggle_loses_session:
  "(case saveOsSession idle_storage minimized_toggled True of (ok, st, _) \<Rightarrow>
      ok \<and> (case loadOsSession st True of (s, st', notice) \<Rightarrow>
        s = default_session \<and> ps_suspended st' \<and> notice = Some InvalidSchema))"
  by code_simp

definition minimized_focused :: os_session where
  "minimized_focused = st_session (run_events window_step initial_store
     [OpenWindow (demo_window ''a'') None None None ''u1'', MinimizeWindow ''a'', FocusWindow ''a''])"

lemma minimized_focus_rejected:
  "validateOsSession (encode_session (sanitizeSessionForPersistence minimized_focused)) \<noteq> None"
  by code_simp

text \<open>A window without a profile: the intent \<^verbatim>\<open>agent-hub:open\<close> and the hub desktop template use the empty
  profile id, which the projection keeps and the validator refuses.\<close>

definition profileless_hub :: os_session where
  "profileless_hub = st_session (run_events window_step initial_store
     [OpenWindow ((demo_window ''a'')\<lparr>win_appId := Agent_hub, win_ctx := (win_ctx (demo_window ''a''))\<lparr>ctx_profileId := ''''\<rparr>\<rparr>)
        None None None ''u1''])"

lemma profileless_hub_loses_session:
  "(case saveOsSession idle_storage profileless_hub True of (ok, st, _) \<Rightarrow>
      ok \<and> (case loadOsSession st True of (s, st', notice) \<Rightarrow>
        s = default_session \<and> ps_suspended st' \<and> notice = Some InvalidSchema))"
  by code_simp

text \<open>The validator does not compare the ids of tree nodes: a document whose panes share an id is accepted,
  and closing one of their windows takes the tab of the other with it.\<close>

definition twin_panes :: os_session where
  "twin_panes = (let pane = \<lambda>w. Pane \<lparr>pane_id = ''p'', items = [w], active = Some w\<rparr>;
       s = createDefaultOsSession ''d'' ''Main'';
       w = \<lambda>i. (demo_window i)\<lparr>win_mode := Tile, win_desktopId := ''d''\<rparr>
     in s\<lparr>ses_windows := [(''a'', w ''a''), (''b'', w ''b'')],
          ses_desktops := map (\<lambda>d. d\<lparr>desk_tree := Some (Split ''s'' Horizontal (1, 1) (pane ''a'') (pane ''b''))\<rparr>) (ses_desktops s)\<rparr>)"

lemma twin_panes_accepted:
  "validateOsSession (encode_session (sanitizeSessionForPersistence twin_panes)) = None"
  by code_simp

lemma twin_panes_lose_tab:
  "placements twin_panes ''a'' = 1 \<and> placements (closeWindow twin_panes ''b'') ''a'' = 0 \<and>
   map_option win_minimized (get_window (closeWindow twin_panes ''b'') ''a'') = Some False"
  by code_simp

text \<open>Two desktops created in the same millisecond get the same id when one was removed in between;
  the saved session is refused as well.\<close>

definition same_millisecond :: os_session where
  "same_millisecond = st_session (run_events window_step initial_store
     [AddDesktop None None 17, RemoveDesktop ''desktop-1'' None (\<lambda>_. ''u''), AddDesktop None None 17])"

lemma desktop_ids_collide:
  "map desk_id (ses_desktops same_millisecond) = [''desktop-17-2'', ''desktop-17-2''] \<and>
   validateOsSession (encode_session (sanitizeSessionForPersistence same_millisecond)) \<noteq> None"
  by code_simp

text \<open>Placing a terminal beside a minimized hub whose desktop has a split tree docks it at the split's
  id, which is not a pane: the record is added and the window is placed nowhere.\<close>

definition beside_minimized_hub :: os_session where
  "beside_minimized_hub = st_session (run_events window_step initial_store
     [OpenWindow (demo_window ''h'') (Some Tile) None None ''u1'', OpenWindow (demo_window ''b'') (Some Tile) None None ''u2'',
      DockWindow ''desktop-1'' ''b'' (PaneEdge ''u1'' Right) None ''u3'' ''u4'',
      OpenWindow (demo_window ''c'') (Some Tile) None None ''u5'',
      DockWindow ''desktop-1'' ''c'' (PaneEdge ''u1'' Right) None ''u6'' ''u7'',
      MinimizeWindow ''h'', PlaceExistingTerminal ''h'' (demo_window ''t'') FocusExisting ''u8'' ''u9''])"

lemma beside_minimized_hub_unplaced:
  "map_option win_minimized (get_window beside_minimized_hub ''t'') = Some False \<and> placements beside_minimized_hub ''t'' = 0"
  by code_simp

text \<open>Dragging the west edge past the left side of the viewport moves the east edge: the corner is
  clamped after the width was computed.\<close>

lemma west_drag_moves_east_edge:
  "let b = \<lparr>fb_x = 100, fb_y = 100, fb_width = 500, fb_height = 400\<rparr>;
       r = resizeFloatBounds b (- 150) 0 W (Some \<lparr>vp_width = 1280, vp_height = 800\<rparr>)
   in fb_x b + fb_width b = 600 \<and> fb_x r + fb_width r = 650"
  by (simp add: resizeFloatBounds_def drag_near_edge_def clampFloatBounds_def MIN_FLOAT_WIDTH_def
      MIN_FLOAT_HEIGHT_def dir_w_def dir_e_def dir_n_def dir_s_def)

text \<open>Docking with the id of a pane that does not hold the item: with one tab in that pane, the tab is
  dropped with it.\<close>

lemma wrong_source_drops_tab:
  "''c'' \<notin> set (tree_items (fst (dockItemIntoTileTree demo_tree ''x'' (PaneCenter ''p'') (Some ''q'') ''n'' ''m'')))"
  by code_simp

text \<open>\<^verbatim>\<open>pruneEmptyTileSplits\<close> keeps every pane, also an empty one.\<close>

lemma prune_is_identity: "pruneEmptyTileSplits t = Some t"
  by (rule pruneEmptyTileSplits_id)

section \<open>Dock\<close>

text \<open>The handler means to react to \<^verbatim>\<open>localStorage.clear()\<close>, whose event has no key; it returns
  before, and the dock goes on showing pins that are gone.\<close>

lemma clear_leaves_stale_dock:
  "let w = run_events pins_step (init_world (Some (Json (encode_pins [Git])))) [OtherTabClears, DeliverEvent]
   in dw_events w = [] \<and> dock_storage (dw_dock w) = None \<and> dock_snapshot (dw_dock w) = [Git]"
  by code_simp

text \<open>The handler takes the value of the event instead of what is stored: a write of another tab that is
  announced only after this tab has stored pins replaces them in the snapshot, not in the storage.\<close>

lemma stale_event_hides_stored_pins:
  "let w = run_events pins_step (init_world None) [OtherTab (Some (Json (encode_pins [Git]))), SetPins [Files] StorageOk, DeliverEvent]
   in dw_events w = [] \<and> dock_storage (dw_dock w) = Some (Json (encode_pins [Files])) \<and> dock_snapshot (dw_dock w) = [Git]"
  by code_simp

text \<open>An import whose dock write fails still changes the snapshot.\<close>

definition failed_import :: "(envelope_error + os_envelope) \<times> dock_state" where
  "failed_import = importOsEnvelope
     (exportOsEnvelope (createDefaultOsSession ''d'' ''Main'') (init_dock (Some (Json (encode_pins [Git]))) True) None None ''t'')
     (init_dock None True) False ''now''"

lemma failed_dock_write_ignored:
  "dock_snapshot (snd failed_import) = [Git] \<and> dock_storage (snd failed_import) = None"
  by code_simp

section \<open>Launch journal\<close>

text \<open>Compaction forgets settled attempts, and with them the terminal ids they used: with 127 attempts
  unresolved no settled record stays, and a used id passes the check for reuse.\<close>

lemma compaction_forgets_ids:
  assumes "length rs \<ge> MAX_LAUNCH_JOURNAL_RECORDS" and "length (filter unresolved rs) = MAX_LAUNCH_JOURNAL_RECORDS - 1"
  shows "compact_records rs = Inr (filter unresolved rs)"
  using assms by (simp add: compact_records_def Let_def MAX_LAUNCH_JOURNAL_RECORDS_def)

end
