(* ===== verification/Js_Text.thy ===== *)
theory Js_Text
  imports Dh_Prelude "HOL-Library.Word"
begin

text \<open>
  JavaScript strings as the text components use them: lists of 16-bit code units, with the standard
  library operations the sources call (\<^verbatim>\<open>startsWith\<close>, \<^verbatim>\<open>endsWith\<close>, \<^verbatim>\<open>trimEnd\<close>, \<^verbatim>\<open>slice\<close>,
  \<^verbatim>\<open>indexOf\<close>) and the UTF-8 codec of \<^verbatim>\<open>TextEncoder\<close> and \<^verbatim>\<open>TextDecoder\<close>. Bytes and code points are
  natural numbers.
\<close>

section \<open>Code units\<close>

type_synonym code_unit = "16 word"
type_synonym js_text = "code_unit list"

abbreviation CR :: code_unit where "CR \<equiv> 13"
abbreviation LF :: code_unit where "LF \<equiv> 10"
abbreviation BOM :: code_unit where "BOM \<equiv> 0xFEFF"

definition lit :: "string \<Rightarrow> js_text" where
  "lit s = map of_char s"

lemma length_lit [simp]: "length (lit s) = length s"
  by (simp add: lit_def)

definition starts_with :: "'a list \<Rightarrow> 'a list \<Rightarrow> bool" where
  "starts_with s p \<longleftrightarrow> take (length p) s = p"

text \<open>\<open>s.slice(a, b)\<close> for \<open>0 \<le> a\<close>; nothing if \<open>b \<le> a\<close>.\<close>

definition js_slice :: "nat \<Rightarrow> nat \<Rightarrow> 'a list \<Rightarrow> 'a list" where
  "js_slice a b s = take (b - a) (drop a s)"

text \<open>White space and line terminators, as \<^verbatim>\<open>trimEnd\<close> removes them.\<close>

definition unit_space :: "code_unit \<Rightarrow> bool" where
  "unit_space c \<longleftrightarrow> c \<in> {9, 10, 11, 12, 13, 32, 0xA0, 0x1680, 0x2028, 0x2029, 0x202F, 0x205F, 0x3000, 0xFEFF}
     \<or> 0x2000 \<le> c \<and> c \<le> 0x200A"

definition trim_end :: "js_text \<Rightarrow> js_text" where
  "trim_end s = rev (dropWhile unit_space (rev s))"

definition ends_with_unit :: "code_unit \<Rightarrow> js_text \<Rightarrow> bool" where
  "ends_with_unit c s \<longleftrightarrow> s \<noteq> [] \<and> last s = c"

lemma starts_with_append [simp]: "starts_with (p @ s) p"
  by (simp add: starts_with_def)

lemma starts_with_iff: "starts_with s p \<longleftrightarrow> (\<exists>t. s = p @ t)"
  by (metis append_eq_conv_conj append_take_drop_id starts_with_def)

text \<open>A prefix without white space survives trimming.\<close>

lemma trim_end_append:
  assumes "list_ex (\<lambda>c. \<not> unit_space c) s"
  shows "trim_end (p @ s) = p @ trim_end s"
proof -
  have "\<exists>c \<in> set (rev s). \<not> unit_space c" using assms by (auto simp: list_ex_iff)
  then show ?thesis by (auto simp: trim_end_def dropWhile_append1)
qed

lemma trim_end_starts:
  assumes "p \<noteq> []" and "\<not> unit_space (last p)"
  shows "starts_with (trim_end (p @ s)) p"
proof (cases "list_ex (\<lambda>c. \<not> unit_space c) s")
  case True
  then show ?thesis by (simp add: trim_end_append)
next
  case False
  then have "dropWhile unit_space (rev s @ rev p) = dropWhile unit_space (rev p)"
    by (intro dropWhile_append2) (auto simp: list_ex_iff)
  also have "\<dots> = rev p"
    using assms by (cases p rule: rev_cases) auto
  finally show ?thesis by (simp add: trim_end_def starts_with_def)
qed

lemma trim_end_prefix: "\<exists>t. s = trim_end s @ t"
proof -
  have "rev s = takeWhile unit_space (rev s) @ dropWhile unit_space (rev s)" by simp
  then have "s = trim_end s @ rev (takeWhile unit_space (rev s))"
    unfolding trim_end_def by (metis rev_append rev_rev_ident)
  then show ?thesis ..
qed

lemma starts_trimmed: "starts_with (trim_end s) p \<Longrightarrow> starts_with s p"
  using trim_end_prefix [of s] by (auto simp: starts_with_iff)

text \<open>For a prefix without trailing white space, trimming makes no difference.\<close>

lemma starts_trim_end_iff:
  assumes "p \<noteq> []" and "\<not> unit_space (last p)"
  shows "starts_with (trim_end s) p \<longleftrightarrow> starts_with s p"
  using trim_end_starts [OF assms] starts_trimmed by (metis starts_with_iff)

section \<open>Code points\<close>

definition high_surrogate :: "nat \<Rightarrow> bool" where
  "high_surrogate u \<longleftrightarrow> 0xD800 \<le> u \<and> u \<le> 0xDBFF"

definition low_surrogate :: "nat \<Rightarrow> bool" where
  "low_surrogate u \<longleftrightarrow> 0xDC00 \<le> u \<and> u \<le> 0xDFFF"

text \<open>The code points of a string; unpaired surrogates become U+FFFD, as \<^verbatim>\<open>TextEncoder\<close> treats them.\<close>

fun code_points :: "nat list \<Rightarrow> nat list" where
  "code_points [] = []"
| "code_points [u] = [if high_surrogate u \<or> low_surrogate u then 0xFFFD else u]"
| "code_points (u # v # us) =
     (if high_surrogate u \<and> low_surrogate v
      then (0x10000 + (u - 0xD800) * 0x400 + (v - 0xDC00)) # code_points us
      else (if high_surrogate u \<or> low_surrogate u then 0xFFFD else u) # code_points (v # us))"

definition utf16_of :: "nat \<Rightarrow> nat list" where
  "utf16_of cp =
     (if cp < 0x10000 then [cp]
      else [0xD800 + (cp - 0x10000) div 0x400, 0xDC00 + (cp - 0x10000) mod 0x400])"

definition utf8_of :: "nat \<Rightarrow> nat list" where
  "utf8_of cp =
     (if cp < 0x80 then [cp]
      else if cp < 0x800 then [0xC0 + cp div 64, 0x80 + cp mod 64]
      else if cp < 0x10000 then [0xE0 + cp div 4096, 0x80 + cp div 64 mod 64, 0x80 + cp mod 64]
      else [0xF0 + cp div 262144, 0x80 + cp div 4096 mod 64, 0x80 + cp div 64 mod 64, 0x80 + cp mod 64])"

text \<open>\<open>new TextEncoder().encode(s)\<close>\<close>

definition encode_utf8 :: "js_text \<Rightarrow> nat list" where
  "encode_utf8 s = concat (map utf8_of (code_points (map unat s)))"

abbreviation byte_length :: "js_text \<Rightarrow> nat" where
  "byte_length s \<equiv> length (encode_utf8 s)"

section \<open>Decoding\<close>

text \<open>The continuation bytes of a sequence: the code point, or \<open>None\<close> at a byte out of range, which is
  then read again.\<close>

fun continuation :: "nat \<Rightarrow> nat \<Rightarrow> nat \<Rightarrow> nat \<Rightarrow> nat list \<Rightarrow> nat option \<times> nat list" where
  "continuation 0 lo hi cp bs = (Some cp, bs)"
| "continuation (Suc n) lo hi cp [] = (None, [])"
| "continuation (Suc n) lo hi cp (b # bs) =
     (if lo \<le> b \<and> b \<le> hi then continuation n 0x80 0xBF (cp * 64 + (b - 0x80)) bs else (None, b # bs))"

lemma continuation_length: "length (snd (continuation n lo hi cp bs)) \<le> length bs"
  by (induction n lo hi cp bs rule: continuation.induct) auto

text \<open>The first byte: number of continuation bytes, bounds of the first of them, leading bits.\<close>

definition lead_byte :: "nat \<Rightarrow> (nat \<times> nat \<times> nat \<times> nat) option" where
  "lead_byte b =
     (if b < 0x80 then Some (0, 0, 0, b)
      else if 0xC2 \<le> b \<and> b \<le> 0xDF then Some (1, 0x80, 0xBF, b - 0xC0)
      else if 0xE0 \<le> b \<and> b \<le> 0xEF
      then Some (2, if b = 0xE0 then 0xA0 else 0x80, if b = 0xED then 0x9F else 0xBF, b - 0xE0)
      else if 0xF0 \<le> b \<and> b \<le> 0xF4
      then Some (3, if b = 0xF0 then 0x90 else 0x80, if b = 0xF4 then 0x8F else 0xBF, b - 0xF0)
      else None)"

text \<open>The decoder of the Encoding Standard; \<open>None\<close> stands for a decoding error.\<close>

function utf8_scan :: "nat list \<Rightarrow> nat option list" where
  "utf8_scan [] = []"
| "utf8_scan (b # bs) =
     (case lead_byte b of
        None \<Rightarrow> None # utf8_scan bs
      | Some (n, lo, hi, cp) \<Rightarrow>
          fst (continuation n lo hi cp bs) # utf8_scan (snd (continuation n lo hi cp bs)))"
  by pat_completeness auto
termination
  by (relation "measure length") (auto simp: le_imp_less_Suc continuation_length)

definition strip_bom_point :: "nat list \<Rightarrow> nat list" where
  "strip_bom_point cps = (case cps of cp # rest \<Rightarrow> if cp = 0xFEFF then rest else cps | [] \<Rightarrow> [])"

definition text_of_points :: "nat list \<Rightarrow> js_text" where
  "text_of_points cps = map of_nat (concat (map utf16_of cps))"

text \<open>\<open>new TextDecoder().decode(bytes)\<close>, and with \<open>fatal: true\<close>, where an error throws.\<close>

definition decode_utf8 :: "nat list \<Rightarrow> js_text" where
  "decode_utf8 bs =
     text_of_points (strip_bom_point (map (\<lambda>r. case r of Some cp \<Rightarrow> cp | None \<Rightarrow> 0xFFFD) (utf8_scan bs)))"

definition decode_utf8_fatal :: "nat list \<Rightarrow> js_text option" where
  "decode_utf8_fatal bs =
     (if None \<in> set (utf8_scan bs) then None
      else Some (text_of_points (strip_bom_point (map the (utf8_scan bs)))))"

section \<open>Decoding what was encoded\<close>

definition scalar_value :: "nat \<Rightarrow> bool" where
  "scalar_value cp \<longleftrightarrow> cp < 0x110000 \<and> \<not> high_surrogate cp \<and> \<not> low_surrogate cp"

lemma continuation_step:
  "n \<noteq> 0 \<Longrightarrow> continuation n lo hi cp (b # bs) =
     (if lo \<le> b \<and> b \<le> hi then continuation (n - 1) 0x80 0xBF (cp * 64 + (b - 0x80)) bs else (None, b # bs))"
  by (cases n) auto

text \<open>A code point below \<open>64\<^sup>3\<close> or \<open>64\<^sup>4\<close> from its digits to base 64.\<close>

lemma base64_3: "(cp div 4096 * 64 + cp div 64 mod 64) * 64 + cp mod 64 = (cp :: nat)"
proof -
  have "cp div 4096 = cp div 64 div 64" by (simp add: div_mult2_eq [symmetric])
  then show ?thesis by simp
qed

lemma base64_4: "((cp div 262144 * 64 + cp div 4096 mod 64) * 64 + cp div 64 mod 64) * 64 + cp mod 64 = (cp :: nat)"
proof -
  have "cp div 262144 = cp div 4096 div 64" by (simp add: div_mult2_eq [symmetric])
  then have "cp div 262144 * 64 + cp div 4096 mod 64 = cp div 4096" by simp
  then show ?thesis using base64_3 [of cp] by simp
qed

lemma scan_two:
  assumes "2 \<le> a" "a < 32" "b < 64"
  shows "utf8_scan ((0xC0 + a) # (0x80 + b) # bs) = Some (a * 64 + b) # utf8_scan bs"
  using assms by (simp add: lead_byte_def continuation_step)

lemma scan_three:
  assumes "a < 16" "b < 64" "c < 64" "a = 0 \<Longrightarrow> 32 \<le> b" "a = 13 \<Longrightarrow> b < 32"
  shows "utf8_scan ((0xE0 + a) # (0x80 + b) # (0x80 + c) # bs) = Some ((a * 64 + b) * 64 + c) # utf8_scan bs"
  using assms by (auto simp: lead_byte_def continuation_step)

lemma scan_four:
  assumes "a < 5" "b < 64" "c < 64" "d < 64" "a = 0 \<Longrightarrow> 16 \<le> b" "a = 4 \<Longrightarrow> b < 16"
  shows "utf8_scan ((0xF0 + a) # (0x80 + b) # (0x80 + c) # (0x80 + d) # bs) =
    Some (((a * 64 + b) * 64 + c) * 64 + d) # utf8_scan bs"
  using assms by (auto simp: lead_byte_def continuation_step)

lemma scan_utf8_of:
  assumes "scalar_value cp"
  shows "utf8_scan (utf8_of cp @ bs) = Some cp # utf8_scan bs"
proof -
  consider "cp < 0x80" | "0x80 \<le> cp" "cp < 0x800" | "0x800 \<le> cp" "cp < 0x10000" | "0x10000 \<le> cp" "cp < 0x110000"
    using assms by (fastforce simp: scalar_value_def)
  then show ?thesis
  proof cases
    case 1
    then show ?thesis by (simp add: utf8_of_def lead_byte_def)
  next
    case 2
    then have "2 \<le> cp div 64" "cp div 64 < 32" by (simp_all add: less_eq_div_iff_mult_less_eq less_mult_imp_div_less)
    with 2 scan_two [of "cp div 64" "cp mod 64" bs] show ?thesis by (simp add: utf8_of_def del: utf8_scan.simps)
  next
    case 3
    then have lead: "cp div 4096 < 16" by (simp add: less_mult_imp_div_less)
    have low: "32 \<le> cp div 64 mod 64" if "cp div 4096 = 0"
    proof -
      have "cp < 4096" using that by (simp add: div_eq_0_iff)
      then have "cp div 64 < 64" by (simp add: less_mult_imp_div_less)
      with 3 show ?thesis by (simp add: less_eq_div_iff_mult_less_eq)
    qed
    have high: "cp div 64 mod 64 < 32" if "cp div 4096 = 13"
    proof -
      have "cp div 64 div 64 = 13" using that by (simp add: div_mult2_eq [symmetric])
      then have "cp div 64 = 13 * 64 + cp div 64 mod 64" by (metis div_mult_mod_eq)
      moreover have "cp < 0xD800 \<or> 0xE000 \<le> cp"
        using assms by (auto simp: scalar_value_def high_surrogate_def low_surrogate_def)
      moreover have "896 \<le> cp div 64" if "0xE000 \<le> cp" using that by (simp add: less_eq_div_iff_mult_less_eq)
      moreover have "cp div 64 < 864" if "cp < 0xD800" using that by (simp add: div_less_iff_less_mult)
      moreover have "cp div 64 mod 64 < 64" by simp
      ultimately show ?thesis by linarith
    qed
    show ?thesis
      using 3 scan_three [OF lead _ _ low high, of "cp mod 64" bs] base64_3 [of cp]
      by (simp add: utf8_of_def del: utf8_scan.simps)
  next
    case 4
    then have lead: "cp div 262144 < 5" by (simp add: div_less_iff_less_mult)
    have low: "16 \<le> cp div 4096 mod 64" if "cp div 262144 = 0"
    proof -
      have "cp < 262144" using that by (simp add: div_eq_0_iff)
      then have "cp div 4096 < 64" by (simp add: less_mult_imp_div_less)
      with 4 show ?thesis by (simp add: less_eq_div_iff_mult_less_eq)
    qed
    have high: "cp div 4096 mod 64 < 16" if "cp div 262144 = 4"
    proof -
      have "cp div 4096 div 64 = 4" using that by (simp add: div_mult2_eq [symmetric])
      then have "cp div 4096 = 4 * 64 + cp div 4096 mod 64" by (metis div_mult_mod_eq)
      moreover have "cp div 4096 < 272" using 4 by (simp add: div_less_iff_less_mult)
      ultimately show ?thesis by linarith
    qed
    show ?thesis
      using 4 scan_four [OF lead _ _ _ low high, of "cp div 64 mod 64" "cp mod 64" bs] base64_4 [of cp]
      by (simp add: utf8_of_def del: utf8_scan.simps)
  qed
qed

lemma scan_encoded: "list_all scalar_value cps \<Longrightarrow> utf8_scan (concat (map utf8_of cps)) = map Some cps"
  by (induction cps) (simp_all add: scan_utf8_of)

text \<open>Strings without unpaired surrogates are the strings of scalar values.\<close>

lemma utf16_below: "scalar_value cp \<Longrightarrow> u \<in> set (utf16_of cp) \<Longrightarrow> u < 65536"
  by (auto simp: utf16_of_def scalar_value_def div_less_iff_less_mult split: if_splits)

lemma code_points_utf16:
  assumes "scalar_value cp"
  shows "code_points (utf16_of cp @ us) = cp # code_points us"
proof (cases "cp < 0x10000")
  case True
  with assms show ?thesis by (cases us) (auto simp: utf16_of_def scalar_value_def)
next
  case False
  let ?d = "cp - 0x10000"
  have "?d div 0x400 < 0x400" using assms False by (auto simp: scalar_value_def div_less_iff_less_mult)
  moreover have "0x10000 + ?d div 0x400 * 0x400 + ?d mod 0x400 = cp" using False by simp
  ultimately show ?thesis using False by (simp add: utf16_of_def high_surrogate_def low_surrogate_def)
qed

lemma code_points_text: "list_all scalar_value cps \<Longrightarrow> code_points (map unat (text_of_points cps)) = cps"
proof (induction cps)
  case (Cons cp cps)
  have "map (unat \<circ> (of_nat :: nat \<Rightarrow> code_unit)) (utf16_of cp) = utf16_of cp"
    using Cons.prems utf16_below [of cp] by (intro map_idI) (auto simp: unat_of_nat take_bit_nat_eq_self)
  with Cons show ?case by (simp add: text_of_points_def code_points_utf16)
qed (simp add: text_of_points_def)

lemma encode_text: "list_all scalar_value cps \<Longrightarrow> encode_utf8 (text_of_points cps) = concat (map utf8_of cps)"
  by (simp add: encode_utf8_def code_points_text)

lemma decode_encode:
  assumes "list_all scalar_value cps"
  shows "decode_utf8_fatal (encode_utf8 (text_of_points cps)) = Some (text_of_points (strip_bom_point cps))"
    and "decode_utf8 (encode_utf8 (text_of_points cps)) = text_of_points (strip_bom_point cps)"
  using assms by (simp_all add: encode_text scan_encoded decode_utf8_fatal_def decode_utf8_def comp_def)

end
