(* ===== verification/Merge_Text.thy ===== *)
theory Merge_Text
  imports Js_Text
begin

text \<open>
  Text of the conflict resolver: lossless lines and byte order marks
  (\<^verbatim>\<open>packages/ui/src/lib/conflict-tokenization.ts\<close>) and the Git conflict markers of a result text
  (\<^verbatim>\<open>conflict-marker-parser.ts\<close>). Line numbers count from 1, offsets are code units.
\<close>

section \<open>Lines\<close>

datatype line_ending = Crlf | OnlyLf | Mixed | NoEnding

text \<open>The loop of \<^verbatim>\<open>tokenizeLosslessLines\<close>: \<open>cur\<close> is the text from \<open>start\<close> to the current position.\<close>

fun tokenize_from :: "js_text \<Rightarrow> js_text \<Rightarrow> js_text list" where
  "tokenize_from cur [] = (if cur = [] then [] else [cur])"
| "tokenize_from cur (c # s) =
     (if c = CR
      then (case s of
              d # s' \<Rightarrow> if d = LF then (cur @ [CR, LF]) # tokenize_from [] s' else (cur @ [CR]) # tokenize_from [] s
            | [] \<Rightarrow> (cur @ [CR]) # tokenize_from [] s)
      else if c = LF then (cur @ [LF]) # tokenize_from [] s
      else tokenize_from (cur @ [c]) s)"

definition tokenizeLosslessLines :: "js_text \<Rightarrow> js_text list" where
  "tokenizeLosslessLines s = tokenize_from [] s"

definition rejoinLosslessLines :: "js_text list \<Rightarrow> js_text" where
  "rejoinLosslessLines ts = concat ts"

fun endings_seen :: "bool \<Rightarrow> bool \<Rightarrow> js_text \<Rightarrow> bool \<times> bool" where
  "endings_seen hasCRLF hasLF [] = (hasCRLF, hasLF)"
| "endings_seen hasCRLF hasLF (c # s) =
     (if c = CR
      then (case s of
              d # s' \<Rightarrow> if d = LF then endings_seen True hasLF s' else endings_seen hasCRLF hasLF s
            | [] \<Rightarrow> endings_seen hasCRLF hasLF s)
      else if c = LF then endings_seen hasCRLF True s
      else endings_seen hasCRLF hasLF s)"

definition detectLineEnding :: "js_text \<Rightarrow> line_ending" where
  "detectLineEnding s =
     (case endings_seen False False s of
        (hasCRLF, hasLF) \<Rightarrow>
          if hasCRLF \<and> hasLF then Mixed else if hasCRLF then Crlf else if hasLF then OnlyLf else NoEnding)"

definition detectBOM :: "js_text \<Rightarrow> bool" where
  "detectBOM s = (case s of c # _ \<Rightarrow> c = BOM | [] \<Rightarrow> False)"

definition stripBOM :: "js_text \<Rightarrow> js_text \<times> bool" where
  "stripBOM s = (if detectBOM s then (drop 1 s, True) else (s, False))"

definition applyBOM :: "js_text \<Rightarrow> bool \<Rightarrow> js_text" where
  "applyBOM s hasBOM = (if hasBOM \<and> \<not> detectBOM s then BOM # s else s)"

section \<open>Marker blocks\<close>

datatype marker_style = Diff3 | Zdiff3 | NormalStyle | Partial

record marker_block =
  mb_startLine :: nat
  mb_baseSeparatorLine :: "nat option"
  mb_separatorLine :: nat
  mb_endLine :: nat
  mb_oursTokens :: "js_text list"
  mb_baseTokens :: "js_text list"
  mb_theirsTokens :: "js_text list"
  mb_allTokens :: "js_text list"
  mb_startOffset :: nat
  mb_endOffset :: nat
  mb_style :: marker_style

text \<open>The variables of the loop; a line number that was not seen yet is \<open>None\<close>.\<close>

record marker_scan =
  ms_blocks :: "marker_block list"
  ms_inConflict :: bool
  ms_startLine :: nat
  ms_baseSep :: "nat option"
  ms_sep :: "nat option"
  ms_style :: marker_style
  ms_offset :: nat
  ms_blockOffset :: nat

definition init_scan :: marker_scan where
  "init_scan = \<lparr>ms_blocks = [], ms_inConflict = False, ms_startLine = 0, ms_baseSep = None, ms_sep = None,
     ms_style = NormalStyle, ms_offset = 0, ms_blockOffset = 0\<rparr>"

definition is_marker :: "string \<Rightarrow> js_text \<Rightarrow> bool" where
  "is_marker m line \<longleftrightarrow> starts_with (trim_end line) (lit m)"

definition close_block :: "js_text list \<Rightarrow> nat \<Rightarrow> js_text \<Rightarrow> nat \<Rightarrow> marker_scan \<Rightarrow> marker_block" where
  "close_block all lineNum line sep st =
     \<lparr>mb_startLine = ms_startLine st, mb_baseSeparatorLine = ms_baseSep st, mb_separatorLine = sep, mb_endLine = lineNum,
      mb_oursTokens = js_slice (ms_startLine st) ((case ms_baseSep st of Some b \<Rightarrow> b | None \<Rightarrow> sep) - 1) all,
      mb_baseTokens = (case ms_baseSep st of Some b \<Rightarrow> js_slice b (sep - 1) all | None \<Rightarrow> []),
      mb_theirsTokens = js_slice sep (lineNum - 1) all,
      mb_allTokens = js_slice (ms_startLine st - 1) lineNum all,
      mb_startOffset = ms_blockOffset st, mb_endOffset = ms_offset st + length line, mb_style = ms_style st\<rparr>"

definition scan_marker_line :: "js_text list \<Rightarrow> nat \<Rightarrow> js_text \<Rightarrow> marker_scan \<Rightarrow> marker_scan" where
  "scan_marker_line all lineNum line st =
     (if \<not> ms_inConflict st
      then (if is_marker ''<<<<<<<'' line
            then st\<lparr>ms_inConflict := True, ms_startLine := lineNum, ms_blockOffset := ms_offset st,
                    ms_baseSep := None, ms_sep := None, ms_style := NormalStyle\<rparr>
            else st)
      else if is_marker ''|||||||'' line then st\<lparr>ms_baseSep := Some lineNum, ms_style := Diff3\<rparr>
      else if is_marker ''======='' line then st\<lparr>ms_sep := Some lineNum\<rparr>
      else if is_marker ''>>>>>>>'' line
      then (case ms_sep st of
              Some sep \<Rightarrow> st\<lparr>ms_blocks := ms_blocks st @ [close_block all lineNum line sep st], ms_inConflict := False\<rparr>
            | None \<Rightarrow> st\<lparr>ms_inConflict := False\<rparr>)
      else st)"

fun scan_markers :: "js_text list \<Rightarrow> nat \<Rightarrow> js_text list \<Rightarrow> marker_scan \<Rightarrow> marker_scan" where
  "scan_markers all lineNum [] st = st"
| "scan_markers all lineNum (line # rest) st =
     (let st' = scan_marker_line all lineNum line st
      in scan_markers all (lineNum + 1) rest (st'\<lparr>ms_offset := ms_offset st' + length line\<rparr>))"

definition parseResultMarkerBlocks :: "js_text \<Rightarrow> marker_block list" where
  "parseResultMarkerBlocks resultText =
     (let ls = tokenizeLosslessLines resultText in ms_blocks (scan_markers ls 1 ls init_scan))"

section \<open>Lines are lossless\<close>

lemma concat_tokenize_from: "concat (tokenize_from cur s) = cur @ s"
  by (induction cur s rule: tokenize_from.induct) (auto split: list.splits)

lemma concat_tokenize [simp]: "concat (tokenizeLosslessLines s) = s"
  by (simp add: tokenizeLosslessLines_def concat_tokenize_from)

text \<open>A line ends with one terminator and has no other; only the last token may lack it.\<close>

definition plain_line :: "js_text \<Rightarrow> bool" where
  "plain_line s \<longleftrightarrow> list_all (\<lambda>c. c \<noteq> CR \<and> c \<noteq> LF) s"

definition full_line :: "js_text \<Rightarrow> bool" where
  "full_line l \<longleftrightarrow> (\<exists>s. plain_line s \<and> (l = s @ [LF] \<or> l = s @ [CR] \<or> l = s @ [CR, LF]))"

lemma plain_line_snoc [simp]: "plain_line (s @ [c]) \<longleftrightarrow> plain_line s \<and> c \<noteq> CR \<and> c \<noteq> LF" "plain_line []"
  by (auto simp: plain_line_def)

lemma tokenize_terminator:
  "tokenize_from cur (CR # LF # s) = (cur @ [CR, LF]) # tokenize_from [] s"
  "s = [] \<or> hd s \<noteq> LF \<Longrightarrow> tokenize_from cur (CR # s) = (cur @ [CR]) # tokenize_from [] s"
  "tokenize_from cur (LF # s) = (cur @ [LF]) # tokenize_from [] s"
  "c \<noteq> CR \<Longrightarrow> c \<noteq> LF \<Longrightarrow> tokenize_from cur (c # s) = tokenize_from (cur @ [c]) s"
  by (simp, cases s, simp, simp, simp, simp)

declare tokenize_from.simps(2) [simp del]

lemma tokens_are_lines:
  assumes "plain_line cur" and "t \<in> set (tokenize_from cur s)"
  shows "full_line t \<or> t \<noteq> [] \<and> plain_line t \<and> t = last (tokenize_from cur s)"
  using assms
proof (induction cur s rule: tokenize_from.induct)
  case (2 cur c s)
  note IH = "2.IH" and prems = "2.prems"
  have full: "full_line (cur @ [CR, LF])" "full_line (cur @ [CR])" "full_line (cur @ [LF])"
    using prems(1) by (auto simp: full_line_def)
  consider (crlf) s' where "c = CR" "s = LF # s'" | (cr) "c = CR" "s = [] \<or> hd s \<noteq> LF" | (lf) "c = LF" | (other) "c \<noteq> CR" "c \<noteq> LF"
    by (cases s) auto
  then show ?case
  proof cases
    case crlf
    with IH(2) [OF crlf] prems(2) full show ?thesis by (auto simp: tokenize_terminator)
  next
    case cr
    have "full_line t \<or> t \<noteq> [] \<and> plain_line t \<and> t = last (tokenize_from [] s)" if "t \<in> set (tokenize_from [] s)"
      using cr that IH(1,3) by (cases s) auto
    with cr prems(2) full show ?thesis by (auto simp: tokenize_terminator)
  next
    case lf
    with IH(4) prems(2) full show ?thesis by (auto simp: tokenize_terminator)
  next
    case other
    with IH(5) prems show ?thesis by (simp add: tokenize_terminator)
  qed
qed (auto split: if_splits)

text \<open>Tokenizing a full line followed by more text, unless a line feed follows a carriage return.\<close>

lemma tokenize_plain: "plain_line s \<Longrightarrow> tokenize_from cur (s @ r) = tokenize_from (cur @ s) r"
  by (induction s arbitrary: cur) (auto simp: plain_line_def tokenize_terminator)

lemma tokenize_line:
  assumes "full_line l" and "\<not> (last l = CR \<and> s \<noteq> [] \<and> hd s = LF)"
  shows "tokenizeLosslessLines (l @ s) = l # tokenizeLosslessLines s"
proof -
  obtain p where p: "plain_line p" "l = p @ [LF] \<or> l = p @ [CR] \<or> l = p @ [CR, LF]"
    using assms(1) by (auto simp: full_line_def)
  then show ?thesis
    using assms(2) by (auto simp: tokenizeLosslessLines_def tokenize_plain tokenize_terminator)
qed

section \<open>What a marker block is\<close>

definition block_ok :: "js_text list \<Rightarrow> marker_block \<Rightarrow> bool" where
  "block_ok all b \<longleftrightarrow>
     1 \<le> mb_startLine b \<and> mb_startLine b < mb_separatorLine b \<and> mb_separatorLine b < mb_endLine b \<and>
     mb_endLine b \<le> length all \<and>
     mb_startOffset b = length (concat (take (mb_startLine b - 1) all)) \<and>
     mb_endOffset b = length (concat (take (mb_endLine b) all)) \<and>
     mb_allTokens b = js_slice (mb_startLine b - 1) (mb_endLine b) all \<and>
     mb_theirsTokens b = js_slice (mb_separatorLine b) (mb_endLine b - 1) all \<and>
     is_marker ''<<<<<<<'' (all ! (mb_startLine b - 1)) \<and>
     is_marker ''======='' (all ! (mb_separatorLine b - 1)) \<and>
     is_marker ''>>>>>>>'' (all ! (mb_endLine b - 1))"

text \<open>The blocks follow each other without overlap.\<close>

definition blocks_ok :: "js_text list \<Rightarrow> marker_block list \<Rightarrow> bool" where
  "blocks_ok all bs \<longleftrightarrow> list_all (block_ok all) bs \<and> sorted_wrt (\<lambda>a b. mb_endLine a < mb_startLine b) bs"

definition open_block_ok :: "js_text list \<Rightarrow> nat \<Rightarrow> marker_scan \<Rightarrow> bool" where
  "open_block_ok all k st \<longleftrightarrow>
     1 \<le> ms_startLine st \<and> ms_startLine st \<le> k \<and>
     is_marker ''<<<<<<<'' (all ! (ms_startLine st - 1)) \<and>
     ms_blockOffset st = length (concat (take (ms_startLine st - 1) all)) \<and>
     list_all (\<lambda>b. mb_endLine b < ms_startLine st) (ms_blocks st) \<and>
     (case ms_sep st of
        None \<Rightarrow> True
      | Some s \<Rightarrow> ms_startLine st < s \<and> s \<le> k \<and> is_marker ''======='' (all ! (s - 1)))"

definition scan_inv :: "js_text list \<Rightarrow> nat \<Rightarrow> marker_scan \<Rightarrow> bool" where
  "scan_inv all k st \<longleftrightarrow>
     ms_offset st = length (concat (take k all)) \<and> blocks_ok all (ms_blocks st) \<and>
     list_all (\<lambda>b. mb_endLine b \<le> k) (ms_blocks st) \<and> (ms_inConflict st \<longrightarrow> open_block_ok all k st)"

lemma concat_take_Suc: "k < length all \<Longrightarrow> length (concat (take (Suc k) all)) = length (concat (take k all)) + length (all ! k)"
  by (simp add: take_Suc_conv_app_nth)

lemma later_blocks: "list_all (\<lambda>b. mb_endLine b \<le> k) bs \<Longrightarrow> list_all (\<lambda>b. mb_endLine b \<le> Suc k) bs"
  by (auto simp: list_all_iff)

lemma open_block_later: "open_block_ok all k st \<Longrightarrow> open_block_ok all (Suc k) st"
  by (auto simp: open_block_ok_def split: option.splits)

lemma close_block_ok:
  assumes "open_block_ok all k st" and "ms_sep st = Some sep" and "k < length all"
    and "ms_offset st = length (concat (take k all))" and "is_marker ''>>>>>>>'' (all ! k)"
  shows "block_ok all (close_block all (Suc k) (all ! k) sep st)"
  using assms concat_take_Suc [OF assms(3)]
  by (simp add: block_ok_def close_block_def open_block_ok_def)

text \<open>One line: the offset advances, and the blocks and the open block are those of the new state.\<close>

lemma advance_scan:
  assumes "ms_offset st = length (concat (take k all))" and "k < length all"
    and "blocks_ok all (ms_blocks st)" and "list_all (\<lambda>b. mb_endLine b \<le> Suc k) (ms_blocks st)"
    and "ms_inConflict st \<Longrightarrow> open_block_ok all (Suc k) st"
  shows "scan_inv all (Suc k) (st\<lparr>ms_offset := ms_offset st + length (all ! k)\<rparr>)"
  using assms by (auto simp: scan_inv_def concat_take_Suc open_block_ok_def split: option.splits)

lemma scan_line_inv:
  assumes inv: "scan_inv all k st" and k: "k < length all"
  defines "st' \<equiv> scan_marker_line all (Suc k) (all ! k) st"
  shows "scan_inv all (Suc k) (st'\<lparr>ms_offset := ms_offset st' + length (all ! k)\<rparr>)"
proof -
  have off: "ms_offset st = length (concat (take k all))" and bl: "blocks_ok all (ms_blocks st)"
    and le: "list_all (\<lambda>b. mb_endLine b \<le> k) (ms_blocks st)" and op: "ms_inConflict st \<Longrightarrow> open_block_ok all k st"
    using inv by (simp_all add: scan_inv_def)
  have same: ?thesis if "st' = st" using that off bl le k op by (intro advance_scan) (simp_all add: later_blocks open_block_later)
  note step = st'_def scan_marker_line_def
  show ?thesis
  proof (cases "ms_inConflict st")
    case False
    show ?thesis
    proof (cases "is_marker ''<<<<<<<'' (all ! k)")
      case True
      with False have "st' = st\<lparr>ms_inConflict := True, ms_startLine := Suc k, ms_blockOffset := ms_offset st,
          ms_baseSep := None, ms_sep := None, ms_style := NormalStyle\<rparr>" by (simp add: step)
      then show ?thesis
        using True off bl le k by (intro advance_scan) (simp_all add: open_block_ok_def list_all_iff le_imp_less_Suc le_SucI)
    qed (use False same in \<open>simp add: step\<close>)
  next
    case op': True
    note op = op [OF op']
    consider (base) "is_marker ''|||||||'' (all ! k)"
      | (sep) "\<not> is_marker ''|||||||'' (all ! k)" "is_marker ''======='' (all ! k)"
      | (close) "\<not> is_marker ''|||||||'' (all ! k)" "\<not> is_marker ''======='' (all ! k)" "is_marker ''>>>>>>>'' (all ! k)"
      | (skip) "\<not> is_marker ''|||||||'' (all ! k)" "\<not> is_marker ''======='' (all ! k)" "\<not> is_marker ''>>>>>>>'' (all ! k)"
      by blast
    then show ?thesis
    proof cases
      case base
      with op' have "st' = st\<lparr>ms_baseSep := Some (Suc k), ms_style := Diff3\<rparr>" by (simp add: step)
      then show ?thesis
        using off bl le k open_block_later [OF op]
        by (intro advance_scan) (simp_all add: open_block_ok_def later_blocks cong: option.case_cong)
    next
      case sep
      with op' have "st' = st\<lparr>ms_sep := Some (Suc k)\<rparr>" by (simp add: step)
      then show ?thesis
        using off bl le k op sep(2) by (intro advance_scan) (simp_all add: open_block_ok_def later_blocks)
    next
      case close
      show ?thesis
      proof (cases "ms_sep st")
        case None
        with close op' have "st' = st\<lparr>ms_inConflict := False\<rparr>" by (simp add: step)
        then show ?thesis using off bl le k by (intro advance_scan) (simp_all add: later_blocks)
      next
        case (Some s)
        with close op' have "st' = st\<lparr>ms_blocks := ms_blocks st @ [close_block all (Suc k) (all ! k) s st], ms_inConflict := False\<rparr>"
          by (simp add: step)
        moreover have "block_ok all (close_block all (Suc k) (all ! k) s st)"
          by (rule close_block_ok [OF op Some k off close(3)])
        moreover have "list_all (\<lambda>b. mb_endLine b < ms_startLine st) (ms_blocks st)"
          using op by (simp add: open_block_ok_def)
        moreover have "mb_startLine (close_block all (Suc k) (all ! k) s st) = ms_startLine st"
          "mb_endLine (close_block all (Suc k) (all ! k) s st) = Suc k" by (simp_all add: close_block_def)
        ultimately show ?thesis
          using off bl le k by (intro advance_scan) (simp_all add: blocks_ok_def sorted_wrt_append list_all_iff le_SucI)
      qed
    next
      case skip
      with op' same show ?thesis by (simp add: step)
    qed
  qed
qed

lemma scan_markers_inv:
  "scan_inv all k st \<Longrightarrow> drop k all = rest \<Longrightarrow> scan_inv all (k + length rest) (scan_markers all (Suc k) rest st)"
proof (induction rest arbitrary: k st)
  case (Cons line rest)
  have k: "k < length all" "line = all ! k" "drop (Suc k) all = rest"
    using Cons.prems(2) by (metis drop_eq_Nil list.simps(3) not_le, metis nth_via_drop, metis drop_Suc list.sel(3) tl_drop)
  from Cons.IH [OF scan_line_inv [OF Cons.prems(1) k(1)] k(3)] show ?case
    by (simp add: k(2) Let_def)
qed simp

lemma init_scan_inv: "scan_inv all 0 init_scan"
  by (simp add: scan_inv_def init_scan_def blocks_ok_def)

theorem parsed_blocks_ok: "blocks_ok (tokenizeLosslessLines s) (parseResultMarkerBlocks s)"
  using scan_markers_inv [OF init_scan_inv, of "tokenizeLosslessLines s"]
  by (simp add: parseResultMarkerBlocks_def scan_inv_def Let_def)

text \<open>Offsets of lines: the text between two line offsets is the lines between them.\<close>

definition line_offset :: "js_text list \<Rightarrow> nat \<Rightarrow> nat" where
  "line_offset ls k = length (concat (take k ls))"

lemma split_lines:
  assumes "a \<le> b"
  shows "concat ls = concat (take a ls) @ concat (js_slice a b ls) @ concat (drop b ls)"
proof -
  have "ls = take a ls @ js_slice a b ls @ drop b ls"
    using assms by (simp add: js_slice_def) (metis append_take_drop_id drop_drop le_add_diff_inverse2)
  then show ?thesis by (metis concat_append)
qed

lemma take_lines: "a \<le> b \<Longrightarrow> concat (take b ls) = concat (take a ls) @ concat (js_slice a b ls)"
  by (simp add: js_slice_def) (metis concat_append le_add_diff_inverse take_add)

lemma slice_at_lines:
  assumes "a \<le> b"
  shows "take (line_offset ls a) (concat ls) = concat (take a ls)"
    and "js_slice (line_offset ls a) (line_offset ls b) (concat ls) = concat (js_slice a b ls)"
    and "drop (line_offset ls b) (concat ls) = concat (drop b ls)"
proof -
  have len: "line_offset ls b = line_offset ls a + length (concat (js_slice a b ls))"
    by (simp add: line_offset_def take_lines [OF assms])
  show "take (line_offset ls a) (concat ls) = concat (take a ls)"
    "js_slice (line_offset ls a) (line_offset ls b) (concat ls) = concat (js_slice a b ls)"
    "drop (line_offset ls b) (concat ls) = concat (drop b ls)"
    unfolding split_lines [OF assms, of ls] js_slice_def [of "line_offset ls a"] len
    by (simp_all add: line_offset_def)
qed

text \<open>The text at a block's offsets is the block.\<close>

lemma block_text:
  assumes "b \<in> set (parseResultMarkerBlocks s)"
  shows "js_slice (mb_startOffset b) (mb_endOffset b) s = concat (mb_allTokens b)"
proof -
  have "block_ok (tokenizeLosslessLines s) b"
    using assms parsed_blocks_ok [of s] by (auto simp: blocks_ok_def list_all_iff)
  then show ?thesis
    using slice_at_lines(2) [of "mb_startLine b - 1" "mb_endLine b" "tokenizeLosslessLines s"]
    by (auto simp: block_ok_def line_offset_def)
qed

section \<open>Byte order marks\<close>

lemma strip_apply: "applyBOM (fst (stripBOM s)) (snd (stripBOM s)) = s \<or> detectBOM (fst (stripBOM s))"
  by (cases s) (auto simp: stripBOM_def applyBOM_def detectBOM_def)

lemma apply_strip: "\<not> detectBOM s \<Longrightarrow> stripBOM (applyBOM s b) = (s, b)"
  by (auto simp: stripBOM_def applyBOM_def detectBOM_def split: list.splits)

end
