(* ===== verification/Merge_Regions.thy ===== *)
theory Merge_Regions
  imports Merge_Text
begin

text \<open>
  The regions of a three-way merge and where they are found in the result text,
  \<^verbatim>\<open>packages/ui/src/lib/conflict-merge-types.ts\<close> and \<^verbatim>\<open>conflict-region-mapper.ts\<close>. The merge itself is
  the package \<^verbatim>\<open>node-diff3\<close>, a parameter of \<open>buildSourceRegions\<close>. Decisions are copied wherever the
  code copies them, and no operation changes a decision that another object shares, so values stand
  for objects.
\<close>

section \<open>Regions and decisions\<close>

datatype buffer_name = BufO | BufA | BufB

datatype raw_region =
    RawStable buffer_name nat nat "js_text list"
  | RawConflict nat nat "js_text list" nat nat "js_text list" nat nat "js_text list"

text \<open>The fields of a conflict: start, length and content of \<open>a\<close> (ours), \<open>o\<close> (base) and \<open>b\<close> (theirs).\<close>

record line_range =
  lr_start :: nat
  lr_end :: nat

record offset_range =
  or_start :: nat
  or_end :: nat

datatype region_decision = PendingDecision | Accepted | Ignored
datatype both_order = OursThenTheirs | TheirsThenOurs
datatype manual_review = NoReview | NeedsReview | Reviewed
datatype mapping_confidence = Exact | Ambiguous | Unmapped
datatype side = Ours | Theirs

record source_region =
  sr_id :: string
  sr_index :: nat
  sr_stable :: bool
  sr_oursTokens :: "js_text list"
  sr_oursRange :: line_range
  sr_theirsTokens :: "js_text list"
  sr_theirsRange :: line_range
  sr_baseTokens :: "js_text list"
  sr_baseRange :: line_range
  sr_stableSource :: "buffer_name option"

record region_mapping =
  rm_confidence :: mapping_confidence
  rm_resultRange :: "line_range option"
  rm_resultOffset :: "offset_range option"
  rm_hasConflictMarkers :: bool
  rm_markerStyle :: "marker_style option"

record decision_state =
  ds_ours :: region_decision
  ds_theirs :: region_decision
  ds_bothOrder :: "both_order option"
  ds_review :: manual_review

record merge_region = source_region +
  mr_mapping :: region_mapping
  mr_decision :: decision_state

definition pending_decision :: decision_state where
  "pending_decision =
     \<lparr>ds_ours = PendingDecision, ds_theirs = PendingDecision, ds_bothOrder = None, ds_review = NoReview\<rparr>"

definition region_range :: "nat \<Rightarrow> nat \<Rightarrow> line_range" where
  "region_range start len =
     \<lparr>lr_start = (if len > 0 then start + 1 else start), lr_end = (if len > 0 then start + len else start)\<rparr>"

text \<open>The loop of \<open>buildSourceRegions\<close>; \<open>idx\<close> counts all regions, \<open>conflictIndex\<close> the conflicts before.\<close>

fun source_regions :: "nat \<Rightarrow> nat \<Rightarrow> raw_region list \<Rightarrow> source_region list" where
  "source_regions idx conflictIndex [] = []"
| "source_regions idx conflictIndex (RawStable buf start len content # raws) =
     \<lparr>sr_id = ''stable-'' @ nat_dec (idx + 1), sr_index = idx + 1, sr_stable = True,
      sr_oursTokens = (if buf = BufA then content else []), sr_oursRange = region_range start len,
      sr_theirsTokens = (if buf = BufB then content else []), sr_theirsRange = region_range start len,
      sr_baseTokens = (if buf = BufO then content else []), sr_baseRange = region_range start len,
      sr_stableSource = Some buf\<rparr> # source_regions (idx + 1) conflictIndex raws"
| "source_regions idx conflictIndex (RawConflict aStart aLength aContent oStart oLength oContent bStart bLength bContent # raws) =
     \<lparr>sr_id = ''conflict-'' @ nat_dec (conflictIndex + 1), sr_index = idx + 1, sr_stable = False,
      sr_oursTokens = aContent, sr_oursRange = region_range aStart aLength,
      sr_theirsTokens = bContent, sr_theirsRange = region_range bStart bLength,
      sr_baseTokens = oContent, sr_baseRange = region_range oStart oLength,
      sr_stableSource = None\<rparr> # source_regions (idx + 1) (conflictIndex + 1) raws"

type_synonym diff3 = "js_text list \<Rightarrow> js_text list \<Rightarrow> js_text list \<Rightarrow> raw_region list"

definition buildSourceRegions :: "diff3 \<Rightarrow> js_text list \<Rightarrow> js_text list \<Rightarrow> js_text list \<Rightarrow> source_region list" where
  "buildSourceRegions diff3MergeRegions ours base theirs =
     source_regions 0 0 (diff3MergeRegions ours base theirs)"

section \<open>Finding a region in the result text\<close>

text \<open>The loops of \<open>lineRangeToOffsetRange\<close> add the lengths of the lines before and in the range.\<close>

definition lineRangeToOffsetRange :: "js_text list \<Rightarrow> nat \<Rightarrow> nat \<Rightarrow> offset_range" where
  "lineRangeToOffsetRange ls startLine endLine =
     (let startOffset = sum_list (map length (take (startLine - 1) ls))
      in \<lparr>or_start = startOffset,
          or_end = startOffset + sum_list (map length (js_slice (startLine - 1) endLine ls))\<rparr>)"

definition block_matches :: "marker_block \<Rightarrow> source_region \<Rightarrow> bool" where
  "block_matches b r \<longleftrightarrow>
     concat (mb_oursTokens b) = concat (sr_oursTokens r) \<and> concat (mb_theirsTokens b) = concat (sr_theirsTokens r)"

text \<open>Strategy 1A: as many blocks as conflicts, and the block at the conflict's position fits.\<close>

definition aligned_block :: "marker_block list \<Rightarrow> source_region list \<Rightarrow> nat list \<Rightarrow> source_region \<Rightarrow> nat option" where
  "aligned_block blocks conflicts used r =
     (if length blocks = length conflicts
      then (case find (\<lambda>i. sr_id (conflicts ! i) = sr_id r) [0..<length conflicts] of
              Some i \<Rightarrow> if i \<notin> set used \<and> block_matches (blocks ! i) r then Some i else None
            | None \<Rightarrow> None)
      else None)"

text \<open>Strategy 1B: exactly one unused block fits.\<close>

definition unique_block :: "marker_block list \<Rightarrow> nat list \<Rightarrow> source_region \<Rightarrow> nat option" where
  "unique_block blocks used r =
     (case filter (\<lambda>i. i \<notin> set used \<and> block_matches (blocks ! i) r) [0..<length blocks] of
        [i] \<Rightarrow> Some i
      | _ \<Rightarrow> None)"

definition matched_block :: "marker_block list \<Rightarrow> source_region list \<Rightarrow> nat list \<Rightarrow> source_region \<Rightarrow> nat option" where
  "matched_block blocks conflicts used r =
     (case aligned_block blocks conflicts used r of Some i \<Rightarrow> Some i | None \<Rightarrow> unique_block blocks used r)"

definition range_overlaps :: "line_range list \<Rightarrow> line_range \<Rightarrow> bool" where
  "range_overlaps claimed c \<longleftrightarrow>
     list_ex (\<lambda>r. \<not> (lr_end r < lr_start c \<or> lr_start r > lr_end c)) claimed"

definition search_targets :: "source_region \<Rightarrow> decision_state \<Rightarrow> js_text list" where
  "search_targets r d =
     (let oursStr = concat (sr_oursTokens r); theirsStr = concat (sr_theirsTokens r)
      in filter (\<lambda>s. s \<noteq> [])
           ((case ds_bothOrder d of
               Some OursThenTheirs \<Rightarrow> [oursStr @ theirsStr]
             | Some TheirsThenOurs \<Rightarrow> [theirsStr @ oursStr]
             | None \<Rightarrow> []) @
            (if ds_ours d = Accepted then [oursStr] else []) @
            (if ds_theirs d = Accepted then [theirsStr] else []) @
            [oursStr, theirsStr]))"

text \<open>The positions where the lines of a text occur.\<close>

definition occurrences :: "js_text list \<Rightarrow> js_text list \<Rightarrow> nat list" where
  "occurrences resultLines targetLines =
     filter (\<lambda>i. js_slice i (i + length targetLines) resultLines = targetLines)
       (if length targetLines \<le> length resultLines then [0..<length resultLines - length targetLines + 1] else [])"

text \<open>The loop over the texts to search for: the range found, and whether the search was ambiguous.\<close>

fun search_loop :: "js_text list \<Rightarrow> line_range list \<Rightarrow> js_text list \<Rightarrow> bool \<Rightarrow> line_range option \<times> bool" where
  "search_loop resultLines claimed [] ambiguous = (None, ambiguous)"
| "search_loop resultLines claimed (target # targets) ambiguous =
     (let targetLines = tokenizeLosslessLines target in
      if targetLines = [] then search_loop resultLines claimed targets ambiguous
      else
        (case occurrences resultLines targetLines of
           [] \<Rightarrow> search_loop resultLines claimed targets ambiguous
         | [i] \<Rightarrow>
             (let candidate = \<lparr>lr_start = i + 1, lr_end = i + length targetLines\<rparr> in
              if range_overlaps claimed candidate then search_loop resultLines claimed targets True
              else (Some candidate, ambiguous))
         | _ \<Rightarrow> search_loop resultLines claimed targets True))"

record map_state =
  mp_claimed :: "line_range list"
  mp_used :: "nat list"

definition with_mapping :: "source_region \<Rightarrow> region_mapping \<Rightarrow> decision_state \<Rightarrow> merge_region" where
  "with_mapping r m d =
     \<lparr>sr_id = sr_id r, sr_index = sr_index r, sr_stable = sr_stable r,
      sr_oursTokens = sr_oursTokens r, sr_oursRange = sr_oursRange r,
      sr_theirsTokens = sr_theirsTokens r, sr_theirsRange = sr_theirsRange r,
      sr_baseTokens = sr_baseTokens r, sr_baseRange = sr_baseRange r,
      sr_stableSource = sr_stableSource r, mr_mapping = m, mr_decision = d\<rparr>"

definition no_place :: "mapping_confidence \<Rightarrow> region_mapping" where
  "no_place c = \<lparr>rm_confidence = c, rm_resultRange = None, rm_resultOffset = None, rm_hasConflictMarkers = False,
     rm_markerStyle = None\<rparr>"

definition block_range :: "marker_block \<Rightarrow> line_range" where
  "block_range b = \<lparr>lr_start = mb_startLine b, lr_end = mb_endLine b\<rparr>"

definition block_mapping :: "marker_block \<Rightarrow> region_mapping" where
  "block_mapping b =
     \<lparr>rm_confidence = Exact, rm_resultRange = Some (block_range b),
      rm_resultOffset = Some \<lparr>or_start = mb_startOffset b, or_end = mb_endOffset b\<rparr>,
      rm_hasConflictMarkers = True, rm_markerStyle = Some (mb_style b)\<rparr>"

text \<open>Step 2, when no block was matched: search for the text of a side.\<close>

definition map_by_text :: "js_text list \<Rightarrow> source_region \<Rightarrow> decision_state \<Rightarrow> map_state \<Rightarrow> merge_region \<times> map_state" where
  "map_by_text resultLines r d st =
     (case search_loop resultLines (mp_claimed st) (search_targets r d) False of
        (found, ambiguous) \<Rightarrow>
          let st' = (case found of Some c \<Rightarrow> st\<lparr>mp_claimed := mp_claimed st @ [c]\<rparr> | None \<Rightarrow> st)
          in case (found, ambiguous) of
               (Some c, False) \<Rightarrow>
                 (with_mapping r
                    \<lparr>rm_confidence = Exact, rm_resultRange = Some c,
                     rm_resultOffset = Some (lineRangeToOffsetRange resultLines (lr_start c) (lr_end c)),
                     rm_hasConflictMarkers = False, rm_markerStyle = None\<rparr> d, st')
             | _ \<Rightarrow>
                 (with_mapping r (no_place (if ambiguous then Ambiguous else Unmapped))
                    (d\<lparr>ds_review := (if ds_review d = Reviewed then Reviewed else NeedsReview)\<rparr>), st'))"

definition map_region ::
  "js_text list \<Rightarrow> marker_block list \<Rightarrow> source_region list \<Rightarrow> decision_state js_record \<Rightarrow> source_region \<Rightarrow> map_state
     \<Rightarrow> merge_region \<times> map_state"
where
  "map_region resultLines blocks conflicts decisions r st =
     (let d = (case rec_get decisions (sr_id r) of Some d \<Rightarrow> d | None \<Rightarrow> pending_decision) in
      if sr_stable r then (with_mapping r (no_place Exact) d, st)
      else
        (case matched_block blocks conflicts (mp_used st) r of
           Some i \<Rightarrow>
             if range_overlaps (mp_claimed st) (block_range (blocks ! i)) then map_by_text resultLines r d st
             else
               (with_mapping r (block_mapping (blocks ! i)) d,
                \<lparr>mp_claimed = mp_claimed st @ [block_range (blocks ! i)], mp_used = mp_used st @ [i]\<rparr>)
         | None \<Rightarrow> map_by_text resultLines r d st))"

fun map_regions ::
  "js_text list \<Rightarrow> marker_block list \<Rightarrow> source_region list \<Rightarrow> decision_state js_record \<Rightarrow> source_region list \<Rightarrow> map_state
     \<Rightarrow> merge_region list"
where
  "map_regions resultLines blocks conflicts decisions [] st = []"
| "map_regions resultLines blocks conflicts decisions (r # rs) st =
     (case map_region resultLines blocks conflicts decisions r st of
        (m, st') \<Rightarrow> m # map_regions resultLines blocks conflicts decisions rs st')"

definition mapRegionsToResultText :: "source_region list \<Rightarrow> js_text \<Rightarrow> decision_state js_record \<Rightarrow> merge_region list" where
  "mapRegionsToResultText sources resultText decisions =
     map_regions (tokenizeLosslessLines resultText) (parseResultMarkerBlocks resultText)
       (filter (\<lambda>r. \<not> sr_stable r) sources) decisions sources \<lparr>mp_claimed = [], mp_used = []\<rparr>"

section \<open>Readiness\<close>

datatype unresolved_reason =
    MarkerBlocksLeft nat
  | AmbiguousMapping string
  | RawMarkersLeft string
  | ManualReviewNeeded string
  | NoDecision string

record readiness =
  rd_isReady :: bool
  rd_totalConflicts :: nat
  rd_resolvedConflicts :: nat
  rd_unresolvedConflicts :: nat
  rd_needsReviewConflicts :: nat
  rd_ambiguousRegions :: nat
  rd_hasMarkers :: bool
  rd_unresolvedReasons :: "unresolved_reason list"

definition decided :: "decision_state \<Rightarrow> bool" where
  "decided d \<longleftrightarrow> ds_review d = Reviewed \<or> ds_ours d = Accepted \<or> ds_theirs d = Accepted \<or>
     (ds_ours d = Ignored \<and> ds_theirs d = Ignored)"

definition count_region :: "merge_region \<Rightarrow> readiness \<Rightarrow> readiness" where
  "count_region cr rd =
     (let d = mr_decision cr;
          rd1 = (if rm_confidence (mr_mapping cr) = Ambiguous \<and> ds_review d \<noteq> Reviewed
                 then rd\<lparr>rd_ambiguousRegions := rd_ambiguousRegions rd + 1,
                         rd_unresolvedReasons := rd_unresolvedReasons rd @ [AmbiguousMapping (sr_id cr)]\<rparr>
                 else rd)
      in if decided d
         then (if ds_review d = Reviewed \<or> \<not> rm_hasConflictMarkers (mr_mapping cr)
               then rd1\<lparr>rd_resolvedConflicts := rd_resolvedConflicts rd1 + 1\<rparr>
               else rd1\<lparr>rd_unresolvedConflicts := rd_unresolvedConflicts rd1 + 1,
                        rd_unresolvedReasons := rd_unresolvedReasons rd1 @ [RawMarkersLeft (sr_id cr)]\<rparr>)
         else if ds_review d = NeedsReview
         then rd1\<lparr>rd_needsReviewConflicts := rd_needsReviewConflicts rd1 + 1,
                  rd_unresolvedConflicts := rd_unresolvedConflicts rd1 + 1,
                  rd_unresolvedReasons := rd_unresolvedReasons rd1 @ [ManualReviewNeeded (sr_id cr)]\<rparr>
         else rd1\<lparr>rd_unresolvedConflicts := rd_unresolvedConflicts rd1 + 1,
                  rd_unresolvedReasons := rd_unresolvedReasons rd1 @ [NoDecision (sr_id cr)]\<rparr>)"

definition computeConflictReadiness :: "merge_region list \<Rightarrow> js_text \<Rightarrow> readiness" where
  "computeConflictReadiness regions resultText =
     (let conflicts = filter (\<lambda>r. \<not> sr_stable r) regions;
          blocks = parseResultMarkerBlocks resultText;
          hasMarkers = (blocks \<noteq> []);
          start = \<lparr>rd_isReady = False, rd_totalConflicts = length conflicts, rd_resolvedConflicts = 0,
                   rd_unresolvedConflicts = 0, rd_needsReviewConflicts = 0, rd_ambiguousRegions = 0,
                   rd_hasMarkers = hasMarkers,
                   rd_unresolvedReasons = (if hasMarkers then [MarkerBlocksLeft (length blocks)] else [])\<rparr>;
          rd = fold count_region conflicts start
      in rd\<lparr>rd_isReady :=
              rd_unresolvedConflicts rd = 0 \<and> rd_ambiguousRegions rd = 0 \<and>
              (\<not> hasMarkers \<or> list_all (\<lambda>r. ds_review (mr_decision r) = Reviewed) conflicts)\<rparr>)"

section \<open>Where regions are placed\<close>

lemma truncate_with_mapping [simp]: "source_region.truncate (with_mapping r m d) = r"
  by (simp add: with_mapping_def source_region.defs)

lemma with_mapping_simps [simp]:
  "mr_mapping (with_mapping r m d) = m" "mr_decision (with_mapping r m d) = d"
  "sr_stable (with_mapping r m d) = sr_stable r" "sr_id (with_mapping r m d) = sr_id r"
  "sr_oursTokens (with_mapping r m d) = sr_oursTokens r" "sr_theirsTokens (with_mapping r m d) = sr_theirsTokens r"
  by (simp_all add: with_mapping_def)

lemma map_by_text_source: "source_region.truncate (fst (map_by_text ls r d st)) = r"
  by (auto simp: map_by_text_def Let_def split: prod.split option.split bool.split)

lemma map_region_source: "source_region.truncate (fst (map_region ls bs cs ds r st)) = r"
  by (auto simp: map_region_def Let_def map_by_text_source split: option.split)

lemma map_regions_source: "map source_region.truncate (map_regions ls bs cs ds rs st) = rs"
proof (induction rs arbitrary: st)
  case (Cons r rs)
  then show ?case using map_region_source [of ls bs cs ds r st] by (auto split: prod.split)
qed simp

lemma mapped_sources [simp]: "map source_region.truncate (mapRegionsToResultText rs s ds) = rs"
  by (simp add: mapRegionsToResultText_def map_regions_source)

definition disjoint_ranges :: "line_range \<Rightarrow> line_range \<Rightarrow> bool" where
  "disjoint_ranges a b \<longleftrightarrow> lr_end a < lr_start b \<or> lr_start a > lr_end b"

lemma not_overlaps: "\<not> range_overlaps claimed c \<longleftrightarrow> (\<forall>r \<in> set claimed. disjoint_ranges r c)"
  by (auto simp: range_overlaps_def disjoint_ranges_def list_ex_iff)

text \<open>The texts that may stand for a region.\<close>

definition region_texts :: "source_region \<Rightarrow> js_text set" where
  "region_texts r =
     (let a = concat (sr_oursTokens r); b = concat (sr_theirsTokens r) in {a, b, a @ b, b @ a})"

lemma search_targets_texts: "t \<in> set (search_targets r d) \<Longrightarrow> t \<in> region_texts r \<and> t \<noteq> []"
  by (auto simp: search_targets_def region_texts_def Let_def split: option.splits both_order.splits if_splits)
    (metis both_order.exhaust)

text \<open>A range of lines inside the text, with its offsets.\<close>

definition place_at :: "js_text list \<Rightarrow> line_range \<Rightarrow> offset_range \<Rightarrow> bool" where
  "place_at ls c p \<longleftrightarrow>
     1 \<le> lr_start c \<and> lr_start c \<le> lr_end c \<and> lr_end c \<le> length ls \<and>
     or_start p = line_offset ls (lr_start c - 1) \<and> or_end p = line_offset ls (lr_end c)"

definition lines_of :: "js_text list \<Rightarrow> line_range \<Rightarrow> js_text" where
  "lines_of ls c = concat (js_slice (lr_start c - 1) (lr_end c) ls)"

text \<open>What the mapping of a conflict promises: without a place it has no range; with one, the range
  holds a marker block with the region's sides, or one of the texts of the region.\<close>

definition mapping_ok :: "js_text list \<Rightarrow> marker_block list \<Rightarrow> source_region \<Rightarrow> region_mapping \<Rightarrow> bool" where
  "mapping_ok ls bs r m \<longleftrightarrow>
     (case rm_resultRange m of
        None \<Rightarrow> rm_resultOffset m = None \<and> rm_confidence m \<noteq> Exact \<and> \<not> rm_hasConflictMarkers m
      | Some c \<Rightarrow>
          rm_confidence m = Exact \<and> (\<exists>p. rm_resultOffset m = Some p \<and> place_at ls c p) \<and>
          (if rm_hasConflictMarkers m then (\<exists>b \<in> set bs. block_range b = c \<and> block_matches b r)
           else lines_of ls c \<in> region_texts r))"

lemma sum_lengths: "sum_list (map length xs) = length (concat xs)"
  by (simp add: length_concat)

lemma offsets_of_range:
  assumes "1 \<le> a" "a \<le> b" "b \<le> length ls"
  shows "place_at ls \<lparr>lr_start = a, lr_end = b\<rparr> (lineRangeToOffsetRange ls a b)"
  using assms take_lines [of "a - 1" b ls]
  by (simp add: place_at_def lineRangeToOffsetRange_def Let_def sum_lengths line_offset_def)

lemma occurrence_place:
  assumes "i \<in> set (occurrences ls ts)" and "ts \<noteq> []"
  shows "place_at ls \<lparr>lr_start = i + 1, lr_end = i + length ts\<rparr> (lineRangeToOffsetRange ls (i + 1) (i + length ts))"
    and "lines_of ls \<lparr>lr_start = i + 1, lr_end = i + length ts\<rparr> = concat ts"
proof -
  have "i + length ts \<le> length ls" "js_slice i (i + length ts) ls = ts"
    using assms(1) by (auto simp: occurrences_def split: if_splits)
  moreover have "1 \<le> length ts" using assms(2) by (cases ts) auto
  ultimately show "place_at ls \<lparr>lr_start = i + 1, lr_end = i + length ts\<rparr> (lineRangeToOffsetRange ls (i + 1) (i + length ts))"
    "lines_of ls \<lparr>lr_start = i + 1, lr_end = i + length ts\<rparr> = concat ts"
    by (simp_all add: offsets_of_range lines_of_def)
qed

lemma search_loop_found:
  assumes "search_loop ls claimed targets amb = (Some c, amb')"
  shows "place_at ls c (lineRangeToOffsetRange ls (lr_start c) (lr_end c)) \<and> lines_of ls c \<in> set targets \<and>
    \<not> range_overlaps claimed c"
  using assms
proof (induction targets arbitrary: amb)
  case (Cons target targets)
  let ?ts = "tokenizeLosslessLines target"
  consider "search_loop ls claimed targets amb = (Some c, amb')" | "search_loop ls claimed targets True = (Some c, amb')"
    | i where "?ts \<noteq> []" "occurrences ls ?ts = [i]" "c = \<lparr>lr_start = i + 1, lr_end = i + length ?ts\<rparr>" "\<not> range_overlaps claimed c"
    using Cons.prems by (auto simp: Let_def split: if_splits list.splits)
  then show ?case
  proof cases
    case 3
    then show ?thesis using occurrence_place [of i ls ?ts] by simp
  qed (use Cons.IH in auto)
qed simp

lemma map_by_text_ok:
  fixes ls r d st
  defines "m \<equiv> mr_mapping (fst (map_by_text ls r d st))" and "st' \<equiv> snd (map_by_text ls r d st)"
  shows "mapping_ok ls bs r m"
    and "rm_resultRange m = Some c \<Longrightarrow> c \<in> set (mp_claimed st') \<and> \<not> range_overlaps (mp_claimed st) c"
    and "set (mp_claimed st) \<subseteq> set (mp_claimed st')"
proof -
  obtain found amb where s: "search_loop ls (mp_claimed st) (search_targets r d) False = (found, amb)"
    by (cases "search_loop ls (mp_claimed st) (search_targets r d) False")
  show "mapping_ok ls bs r m"
  proof (cases "found \<noteq> None \<and> \<not> amb")
    case True
    then obtain c where c: "found = Some c" by auto
    show ?thesis
      using search_loop_found [OF s [unfolded c]] True search_targets_texts [of "lines_of ls c" r d] c
      by (simp add: m_def map_by_text_def s mapping_ok_def)
  next
    case False
    then show ?thesis
      by (auto simp: m_def map_by_text_def s mapping_ok_def no_place_def split: option.split bool.split)
  qed
  show "set (mp_claimed st) \<subseteq> set (mp_claimed st')"
    by (auto simp: st'_def map_by_text_def s Let_def split: option.split bool.split)
  show "c \<in> set (mp_claimed st') \<and> \<not> range_overlaps (mp_claimed st) c" if "rm_resultRange m = Some c"
  proof -
    have "found = Some c" "\<not> amb"
      using that by (auto simp: m_def map_by_text_def s Let_def no_place_def split: option.splits bool.splits)
    then show ?thesis
      using search_loop_found [OF s [unfolded \<open>found = Some c\<close>]] by (simp add: st'_def map_by_text_def s)
  qed
qed

lemma aligned_block_in: "aligned_block bs cs used r = Some i \<Longrightarrow> i < length bs \<and> block_matches (bs ! i) r"
  by (auto simp: aligned_block_def find_Some_iff split: if_splits option.splits)

lemma unique_block_in: "unique_block bs used r = Some i \<Longrightarrow> i < length bs \<and> block_matches (bs ! i) r"
proof -
  assume "unique_block bs used r = Some i"
  then have "filter (\<lambda>i. i \<notin> set used \<and> block_matches (bs ! i) r) [0..<length bs] = [i]"
    by (auto simp: unique_block_def split: list.splits)
  then have "i \<in> set (filter (\<lambda>i. i \<notin> set used \<and> block_matches (bs ! i) r) [0..<length bs])" by simp
  then show ?thesis by auto
qed

lemma matched_block_in: "matched_block bs cs used r = Some i \<Longrightarrow> i < length bs \<and> block_matches (bs ! i) r"
  by (auto simp: matched_block_def aligned_block_in unique_block_in split: option.splits)

lemma block_mapping_ok:
  assumes "blocks_ok ls bs" and "b \<in> set bs" and "block_matches b r"
  shows "mapping_ok ls bs r (block_mapping b)"
proof -
  have "block_ok ls b" using assms by (auto simp: blocks_ok_def list_all_iff)
  then have "place_at ls (block_range b) \<lparr>or_start = mb_startOffset b, or_end = mb_endOffset b\<rparr>"
    by (auto simp: block_ok_def place_at_def block_range_def line_offset_def)
  with assms show ?thesis by (auto simp: mapping_ok_def block_mapping_def)
qed

lemma map_region_ok:
  fixes ls bs cs ds r st
  assumes bs: "blocks_ok ls bs" and conflict: "\<not> sr_stable r"
  defines "m \<equiv> mr_mapping (fst (map_region ls bs cs ds r st))" and "st' \<equiv> snd (map_region ls bs cs ds r st)"
  shows "mapping_ok ls bs r m"
    and "rm_resultRange m = Some c \<Longrightarrow> c \<in> set (mp_claimed st') \<and> \<not> range_overlaps (mp_claimed st) c"
    and "set (mp_claimed st) \<subseteq> set (mp_claimed st')"
proof -
  let ?d = "case rec_get ds (sr_id r) of Some d \<Rightarrow> d | None \<Rightarrow> pending_decision"
  consider (bytext) "map_region ls bs cs ds r st = map_by_text ls r ?d st"
    | (block) i where "i < length bs" "block_matches (bs ! i) r" "\<not> range_overlaps (mp_claimed st) (block_range (bs ! i))"
      "map_region ls bs cs ds r st = (with_mapping r (block_mapping (bs ! i)) ?d,
         \<lparr>mp_claimed = mp_claimed st @ [block_range (bs ! i)], mp_used = mp_used st @ [i]\<rparr>)"
    using conflict matched_block_in [of bs cs "mp_used st" r]
    by (cases "matched_block bs cs (mp_used st) r";
        cases "range_overlaps (mp_claimed st) (block_range (bs ! the (matched_block bs cs (mp_used st) r)))")
      (auto simp: map_region_def)
  note alt = this
  from alt show "mapping_ok ls bs r m"
  proof cases
    case bytext
    then show ?thesis by (simp add: m_def map_by_text_ok(1))
  next
    case block
    then show ?thesis using block_mapping_ok [OF bs, of "bs ! i" r] by (simp add: m_def)
  qed
  from alt show "set (mp_claimed st) \<subseteq> set (mp_claimed st')"
    by cases (auto simp: st'_def map_by_text_ok(3))
  assume c: "rm_resultRange m = Some c"
  from alt show "c \<in> set (mp_claimed st') \<and> \<not> range_overlaps (mp_claimed st) c"
  proof cases
    case bytext
    then show ?thesis using c map_by_text_ok(2) by (simp add: m_def st'_def)
  next
    case block
    then show ?thesis using c by (simp add: m_def st'_def block_mapping_def)
  qed
qed

lemma map_region_stable:
  "sr_stable r \<Longrightarrow> map_region ls bs cs ds r st =
     (with_mapping r (no_place Exact) (case rec_get ds (sr_id r) of Some d \<Rightarrow> d | None \<Rightarrow> pending_decision), st)"
  by (simp add: map_region_def Let_def)

abbreviation place_of :: "merge_region \<Rightarrow> line_range option" where
  "place_of m \<equiv> rm_resultRange (mr_mapping m)"

definition places_disjoint :: "merge_region \<Rightarrow> merge_region \<Rightarrow> bool" where
  "places_disjoint a b \<longleftrightarrow> (\<forall>c d. place_of a = Some c \<longrightarrow> place_of b = Some d \<longrightarrow> disjoint_ranges c d)"

text \<open>Every conflict keeps what its mapping promises, and later regions avoid the claimed ranges.\<close>

lemma map_regions_ok:
  assumes "blocks_ok ls bs" and "m \<in> set (map_regions ls bs cs ds rs st)"
  shows "sr_stable m \<and> place_of m = None \<or> \<not> sr_stable m \<and> mapping_ok ls bs (source_region.truncate m) (mr_mapping m)"
    and "place_of m = Some c \<Longrightarrow> \<forall>x \<in> set (mp_claimed st). disjoint_ranges x c"
proof -
  have "(sr_stable m \<and> place_of m = None \<or> \<not> sr_stable m \<and> mapping_ok ls bs (source_region.truncate m) (mr_mapping m)) \<and>
      (\<forall>c. place_of m = Some c \<longrightarrow> (\<forall>x \<in> set (mp_claimed st). disjoint_ranges x c))"
    using assms(2)
  proof (induction rs arbitrary: st)
    case (Cons r rs)
    obtain m0 st' where s: "map_region ls bs cs ds r st = (m0, st')" by (cases "map_region ls bs cs ds r st")
    have src: "source_region.truncate m0 = r" using map_region_source [of ls bs cs ds r st] by (simp add: s)
    have stable: "sr_stable m0 = sr_stable r" unfolding src [symmetric] by (simp add: source_region.truncate_def)
    from Cons.prems s consider "m = m0" | "m \<in> set (map_regions ls bs cs ds rs st')" by auto
    then show ?case
    proof cases
      case 1
      show ?thesis
      proof (cases "sr_stable r")
        case True
        then show ?thesis using 1 s stable by (auto simp: map_region_stable no_place_def)
      next
        case False
        then show ?thesis
          using map_region_ok [OF assms(1) False, where cs = cs and ds = ds and st = st] 1 s stable src by (simp add: not_overlaps)
      qed
    next
      case 2
      have "set (mp_claimed st) \<subseteq> set (mp_claimed st')"
        using map_region_ok(3) [OF assms(1), where r = r and cs = cs and ds = ds and st = st] s by (cases "sr_stable r") (auto simp: map_region_stable)
      with Cons.IH [OF 2] show ?thesis by blast
    qed
  qed simp
  then show "sr_stable m \<and> place_of m = None \<or> \<not> sr_stable m \<and> mapping_ok ls bs (source_region.truncate m) (mr_mapping m)"
    "place_of m = Some c \<Longrightarrow> \<forall>x \<in> set (mp_claimed st). disjoint_ranges x c" by auto
qed

lemma map_regions_disjoint:
  assumes "blocks_ok ls bs"
  shows "sorted_wrt places_disjoint (map_regions ls bs cs ds rs st)"
proof (induction rs arbitrary: st)
  case (Cons r rs)
  obtain m0 st' where s: "map_region ls bs cs ds r st = (m0, st')" by (cases "map_region ls bs cs ds r st")
  have "places_disjoint m0 m" if m: "m \<in> set (map_regions ls bs cs ds rs st')" for m
  proof (cases "sr_stable r")
    case True
    then show ?thesis using s by (auto simp: map_region_stable no_place_def places_disjoint_def)
  next
    case False
    then show ?thesis
      using map_region_ok(2) [OF assms False, where cs = cs and ds = ds and st = st] map_regions_ok(2) [OF assms m] s
      by (auto simp: places_disjoint_def)
  qed
  with Cons.IH s show ?case by simp
qed simp

text \<open>The places of the conflicts in a result text: disjoint, in range, holding their text.\<close>

lemma mapped_regions_ok:
  assumes "m \<in> set (mapRegionsToResultText rs s ds)"
  shows "sr_stable m \<and> place_of m = None \<or> \<not> sr_stable m \<and>
    mapping_ok (tokenizeLosslessLines s) (parseResultMarkerBlocks s) (source_region.truncate m) (mr_mapping m)"
  using map_regions_ok(1) [OF parsed_blocks_ok] assms unfolding mapRegionsToResultText_def by blast

lemma mapped_regions_disjoint: "sorted_wrt places_disjoint (mapRegionsToResultText rs s ds)"
  unfolding mapRegionsToResultText_def by (rule map_regions_disjoint [OF parsed_blocks_ok])

section \<open>What readiness means\<close>

definition region_resolved :: "merge_region \<Rightarrow> bool" where
  "region_resolved m \<longleftrightarrow>
     decided (mr_decision m) \<and> (ds_review (mr_decision m) = Reviewed \<or> \<not> rm_hasConflictMarkers (mr_mapping m))"

definition open_ambiguity :: "merge_region \<Rightarrow> bool" where
  "open_ambiguity m \<longleftrightarrow> rm_confidence (mr_mapping m) = Ambiguous \<and> ds_review (mr_decision m) \<noteq> Reviewed"

lemma count_region_fields:
  "rd_resolvedConflicts (count_region m rd) = rd_resolvedConflicts rd + (if region_resolved m then 1 else 0)"
  "rd_unresolvedConflicts (count_region m rd) = rd_unresolvedConflicts rd + (if region_resolved m then 0 else 1)"
  "rd_ambiguousRegions (count_region m rd) = rd_ambiguousRegions rd + (if open_ambiguity m then 1 else 0)"
  "rd_totalConflicts (count_region m rd) = rd_totalConflicts rd"
  by (auto simp: count_region_def region_resolved_def open_ambiguity_def Let_def)

lemma fold_count:
  "rd_resolvedConflicts (fold count_region ms rd) = rd_resolvedConflicts rd + length (filter region_resolved ms)"
  "rd_unresolvedConflicts (fold count_region ms rd) = rd_unresolvedConflicts rd + length (filter (Not \<circ> region_resolved) ms)"
  "rd_ambiguousRegions (fold count_region ms rd) = rd_ambiguousRegions rd + length (filter open_ambiguity ms)"
  "rd_totalConflicts (fold count_region ms rd) = rd_totalConflicts rd"
  by (induction ms arbitrary: rd) (simp_all add: count_region_fields)

lemma readiness_counts:
  fixes ms s
  defines "rd \<equiv> computeConflictReadiness ms s"
  shows "rd_resolvedConflicts rd + rd_unresolvedConflicts rd = rd_totalConflicts rd"
    and "rd_totalConflicts rd = length (filter (\<lambda>m. \<not> sr_stable m) ms)"
  using sum_length_filter_compl [of region_resolved "filter (\<lambda>m. \<not> sr_stable m) ms"]
  by (simp_all add: rd_def computeConflictReadiness_def Let_def fold_count comp_def del: filter_filter)

text \<open>A merge is ready exactly if every conflict is resolved, no ambiguity is open, and marker blocks
  are left only where every conflict was reviewed.\<close>

lemma ready_iff:
  "rd_isReady (computeConflictReadiness ms s) \<longleftrightarrow>
     (\<forall>m \<in> set ms. \<not> sr_stable m \<longrightarrow> region_resolved m \<and> \<not> open_ambiguity m) \<and>
     (parseResultMarkerBlocks s = [] \<or> (\<forall>m \<in> set ms. \<not> sr_stable m \<longrightarrow> ds_review (mr_decision m) = Reviewed))"
  by (auto simp: computeConflictReadiness_def Let_def fold_count list_all_iff filter_empty_conv comp_def)

section \<open>Region ids\<close>

lemma conflict_id_inj [simp]: "''conflict-'' @ nat_dec m = ''conflict-'' @ nat_dec n \<longleftrightarrow> m = n"
  by simp

lemma source_region_ids:
  "r \<in> set (source_regions i c raws) \<Longrightarrow>
     (\<exists>k > i. sr_id r = ''stable-'' @ nat_dec k \<and> sr_stable r) \<or> (\<exists>k > c. sr_id r = ''conflict-'' @ nat_dec k \<and> \<not> sr_stable r)"
proof (induction i c raws rule: source_regions.induct)
  case (2 i c buf start len content raws)
  then show ?case by (auto intro: exI [of _ "i + 1"] dest: Suc_lessD) 
next
  case (3 i c aS aL aC oS oL oC bS bL bC raws)
  then show ?case by (auto intro: exI [of _ "c + 1"] dest: Suc_lessD)
qed simp

lemma distinct_source_ids: "distinct (map sr_id (source_regions i c raws))"
proof (induction i c raws rule: source_regions.induct)
  case (2 i c buf start len content raws)
  then show ?case by (auto dest!: source_region_ids)
next
  case (3 i c aS aL aC oS oL oC bS bL bC raws)
  then show ?case by (auto dest!: source_region_ids)
qed simp

end
