(* ===== verification/Merge_Actions.thy ===== *)
theory Merge_Actions
  imports Merge_Regions
begin

text \<open>
  The merge model of a conflict and the decisions on it,
  \<^verbatim>\<open>packages/ui/src/lib/conflict-merge-actions.ts\<close>. A thrown error is a value of \<open>merge_error\<close>.
\<close>

section \<open>The model\<close>

record stage_content =
  sc_content :: js_text
  sc_present :: bool
  sc_tokens :: "js_text list"

record merge_model =
  mm_base :: stage_content
  mm_ours :: stage_content
  mm_theirs :: stage_content
  mm_eol :: line_ending
  mm_hasBom :: bool
  mm_regions :: "merge_region list"
  mm_resultText :: js_text
  mm_resultRevision :: nat
  mm_readiness :: readiness

record create_options =
  co_baseContent :: js_text
  co_basePresent :: bool
  co_oursContent :: js_text
  co_oursPresent :: bool
  co_theirsContent :: js_text
  co_theirsPresent :: bool
  co_worktreeContent :: js_text

datatype merge_error =
    RegionNotFound string
  | StableRegion string
  | NoExactMapping string mapping_confidence
  | NoResultOffset string
  | RevisionDrifted nat nat

definition stage_tokens :: "bool \<Rightarrow> js_text \<Rightarrow> js_text list" where
  "stage_tokens present content = (if present then tokenizeLosslessLines (fst (stripBOM content)) else [])"

definition createConflictMergeModel :: "diff3 \<Rightarrow> create_options \<Rightarrow> merge_model" where
  "createConflictMergeModel diff3MergeRegions opts =
     (let cleanWorktree = fst (stripBOM (co_worktreeContent opts));
          baseTokens = stage_tokens (co_basePresent opts) (co_baseContent opts);
          oursTokens = stage_tokens (co_oursPresent opts) (co_oursContent opts);
          theirsTokens = stage_tokens (co_theirsPresent opts) (co_theirsContent opts);
          mapped = mapRegionsToResultText (buildSourceRegions diff3MergeRegions oursTokens baseTokens theirsTokens)
                     cleanWorktree []
      in \<lparr>mm_base = \<lparr>sc_content = co_baseContent opts, sc_present = co_basePresent opts, sc_tokens = baseTokens\<rparr>,
          mm_ours = \<lparr>sc_content = co_oursContent opts, sc_present = co_oursPresent opts, sc_tokens = oursTokens\<rparr>,
          mm_theirs = \<lparr>sc_content = co_theirsContent opts, sc_present = co_theirsPresent opts, sc_tokens = theirsTokens\<rparr>,
          mm_eol = detectLineEnding cleanWorktree, mm_hasBom = snd (stripBOM (co_worktreeContent opts)),
          mm_regions = mapped, mm_resultText = cleanWorktree, mm_resultRevision = 1,
          mm_readiness = computeConflictReadiness mapped cleanWorktree\<rparr>)"

definition replaceRegionTextInResult :: "js_text \<Rightarrow> merge_region \<Rightarrow> js_text \<Rightarrow> merge_error + js_text" where
  "replaceRegionTextInResult resultText region replacement =
     (case rm_resultOffset (mr_mapping region) of
        None \<Rightarrow> Inl (NoResultOffset (sr_id region))
      | Some p \<Rightarrow> Inr (take (or_start p) resultText @ replacement @ drop (or_end p) resultText))"

definition extractSourceRegions :: "merge_region list \<Rightarrow> source_region list" where
  "extractSourceRegions regions = map source_region.truncate regions"

text \<open>The loops that collect a decision for every region.\<close>

definition collect_decisions :: "(merge_region \<Rightarrow> decision_state) \<Rightarrow> merge_region list \<Rightarrow> decision_state js_record" where
  "collect_decisions f regions = fold (\<lambda>r m. rec_set (sr_id r) (f r) m) regions []"

text \<open>The common end of the actions: map the regions again and recompute the readiness.\<close>

definition remap_model :: "merge_model \<Rightarrow> js_text \<Rightarrow> decision_state js_record \<Rightarrow> merge_model" where
  "remap_model model newText decisions =
     (let mapped = mapRegionsToResultText (extractSourceRegions (mm_regions model)) newText decisions
      in model\<lparr>mm_regions := mapped, mm_resultText := newText, mm_readiness := computeConflictReadiness mapped newText\<rparr>)"

definition next_revision :: "merge_model \<Rightarrow> merge_model" where
  "next_revision model = model\<lparr>mm_resultRevision := mm_resultRevision model + 1\<rparr>"

definition find_region :: "merge_model \<Rightarrow> string \<Rightarrow> merge_region option" where
  "find_region model regionId = find (\<lambda>r. sr_id r = regionId) (mm_regions model)"

text \<open>The guards of a decision that replaces text.\<close>

definition decidable_region :: "merge_model \<Rightarrow> string \<Rightarrow> merge_error + merge_region" where
  "decidable_region model regionId =
     (case find_region model regionId of
        None \<Rightarrow> Inl (RegionNotFound regionId)
      | Some region \<Rightarrow>
          if sr_stable region then Inl (StableRegion regionId)
          else if rm_confidence (mr_mapping region) \<noteq> Exact \<or> rm_resultOffset (mr_mapping region) = None
          then Inl (NoExactMapping regionId (rm_confidence (mr_mapping region)))
          else Inr region)"

definition decide_region :: "merge_model \<Rightarrow> string \<Rightarrow> (merge_region \<Rightarrow> js_text) \<Rightarrow> decision_state \<Rightarrow> merge_error + merge_model" where
  "decide_region model regionId replacement decision =
     (case decidable_region model regionId of
        Inl e \<Rightarrow> Inl e
      | Inr region \<Rightarrow>
          (case replaceRegionTextInResult (mm_resultText model) region (replacement region) of
             Inl e \<Rightarrow> Inl e
           | Inr newText \<Rightarrow>
               Inr (next_revision (remap_model model newText
                 (collect_decisions (\<lambda>r. if sr_id r = regionId then decision else mr_decision r) (mm_regions model))))))"

definition acceptRegionSide :: "merge_model \<Rightarrow> string \<Rightarrow> side \<Rightarrow> merge_error + merge_model" where
  "acceptRegionSide model regionId s =
     decide_region model regionId
       (\<lambda>region. concat (if s = Ours then sr_oursTokens region else sr_theirsTokens region))
       \<lparr>ds_ours = (if s = Ours then Accepted else Ignored), ds_theirs = (if s = Theirs then Accepted else Ignored),
        ds_bothOrder = None, ds_review = Reviewed\<rparr>"

definition eol_text :: "merge_model \<Rightarrow> js_text" where
  "eol_text model = (if mm_eol model = Crlf then [CR, LF] else [LF])"

definition lacks_terminator :: "js_text \<Rightarrow> bool" where
  "lacks_terminator s \<longleftrightarrow> s \<noteq> [] \<and> \<not> ends_with_unit LF s \<and> \<not> ends_with_unit CR s"

definition both_text :: "merge_model \<Rightarrow> both_order \<Rightarrow> merge_region \<Rightarrow> js_text" where
  "both_text model order region =
     (let firstStr = concat (if order = OursThenTheirs then sr_oursTokens region else sr_theirsTokens region);
          secondStr = concat (if order = OursThenTheirs then sr_theirsTokens region else sr_oursTokens region)
      in if lacks_terminator firstStr \<and> secondStr \<noteq> [] then firstStr @ eol_text model @ secondStr
         else firstStr @ secondStr)"

definition acceptRegionBoth :: "merge_model \<Rightarrow> string \<Rightarrow> both_order \<Rightarrow> merge_error + merge_model" where
  "acceptRegionBoth model regionId order =
     decide_region model regionId (both_text model order)
       \<lparr>ds_ours = Accepted, ds_theirs = Accepted, ds_bothOrder = Some order, ds_review = Reviewed\<rparr>"

definition ignored_side :: "side \<Rightarrow> decision_state \<Rightarrow> decision_state" where
  "ignored_side s current =
     (let newOurs = (if s = Ours then Ignored else ds_ours current);
          newTheirs = (if s = Theirs then Ignored else ds_theirs current)
      in \<lparr>ds_ours = newOurs, ds_theirs = newTheirs, ds_bothOrder = None,
          ds_review = (if newOurs = Ignored \<and> newTheirs = Ignored then Reviewed else ds_review current)\<rparr>)"

definition ignoreRegionSide :: "merge_model \<Rightarrow> string \<Rightarrow> side \<Rightarrow> merge_error + merge_model" where
  "ignoreRegionSide model regionId s =
     (case find_region model regionId of
        None \<Rightarrow> Inl (RegionNotFound regionId)
      | Some region \<Rightarrow>
          if sr_stable region then Inl (StableRegion regionId)
          else Inr (next_revision (remap_model model (mm_resultText model)
                 (collect_decisions (\<lambda>r. if sr_id r = regionId then ignored_side s (mr_decision r) else mr_decision r)
                   (mm_regions model)))))"

definition markRegionReviewed :: "merge_model \<Rightarrow> string \<Rightarrow> merge_error + merge_model" where
  "markRegionReviewed model regionId =
     (case find_region model regionId of
        None \<Rightarrow> Inl (RegionNotFound regionId)
      | Some region \<Rightarrow>
          Inr (next_revision (remap_model model (mm_resultText model)
            (collect_decisions (\<lambda>r. if sr_id r = regionId then (mr_decision r)\<lparr>ds_review := Reviewed\<rparr> else mr_decision r)
              (mm_regions model)))))"

section \<open>Whole-file actions\<close>

datatype whole_file_action = AcceptAllOurs | AcceptAllTheirs | RebuildClean

record whole_file_preview =
  wp_action :: whole_file_action
  wp_draftKey :: "string option"
  wp_previewText :: js_text
  wp_targetRevision :: nat
  wp_affectedRegions :: nat
  wp_newDecisions :: "decision_state js_record"

definition stable_text :: "merge_region \<Rightarrow> js_text" where
  "stable_text r =
     (case sr_stableSource r of
        Some BufA \<Rightarrow> concat (sr_oursTokens r)
      | Some BufB \<Rightarrow> concat (sr_theirsTokens r)
      | _ \<Rightarrow> concat (sr_baseTokens r))"

definition preview_of ::
  "merge_model \<Rightarrow> whole_file_action \<Rightarrow> (merge_region \<Rightarrow> js_text) \<Rightarrow> decision_state \<Rightarrow> whole_file_preview"
where
  "preview_of model action conflictText decision =
     \<lparr>wp_action = action, wp_draftKey = None,
      wp_previewText = concat (map (\<lambda>r. if sr_stable r then stable_text r else conflictText r) (mm_regions model)),
      wp_targetRevision = mm_resultRevision model,
      wp_affectedRegions = length (filter (\<lambda>r. \<not> sr_stable r) (mm_regions model)),
      wp_newDecisions = collect_decisions (\<lambda>r. if sr_stable r then mr_decision r else decision) (mm_regions model)\<rparr>"

definition previewAcceptAllOurs :: "merge_model \<Rightarrow> whole_file_preview" where
  "previewAcceptAllOurs model =
     preview_of model AcceptAllOurs (\<lambda>r. concat (sr_oursTokens r))
       \<lparr>ds_ours = Accepted, ds_theirs = Ignored, ds_bothOrder = None, ds_review = Reviewed\<rparr>"

definition previewAcceptAllTheirs :: "merge_model \<Rightarrow> whole_file_preview" where
  "previewAcceptAllTheirs model =
     preview_of model AcceptAllTheirs (\<lambda>r. concat (sr_theirsTokens r))
       \<lparr>ds_ours = Ignored, ds_theirs = Accepted, ds_bothOrder = None, ds_review = Reviewed\<rparr>"

definition terminated :: "js_text \<Rightarrow> js_text \<Rightarrow> js_text" where
  "terminated eol s = (if lacks_terminator s then s @ eol else s)"

definition marked_text :: "js_text \<Rightarrow> merge_region \<Rightarrow> js_text" where
  "marked_text eol r =
     lit ''<<<<<<< ours'' @ eol @ terminated eol (concat (sr_oursTokens r)) @
     (if sr_baseTokens r \<noteq> [] then lit ''||||||| base'' @ eol @ terminated eol (concat (sr_baseTokens r)) else []) @
     lit ''======='' @ eol @ terminated eol (concat (sr_theirsTokens r)) @
     lit ''>>>>>>> theirs'' @ eol"

definition previewRebuildClean :: "merge_model \<Rightarrow> whole_file_preview" where
  "previewRebuildClean model = preview_of model RebuildClean (marked_text (eol_text model)) pending_decision"

definition confirmWholeFileAction :: "merge_model \<Rightarrow> whole_file_preview \<Rightarrow> merge_error + merge_model" where
  "confirmWholeFileAction model preview =
     (if mm_resultRevision model \<noteq> wp_targetRevision preview
      then Inl (RevisionDrifted (wp_targetRevision preview) (mm_resultRevision model))
      else Inr (next_revision (remap_model model (fst (stripBOM (wp_previewText preview))) (wp_newDecisions preview))))"

section \<open>Editing and navigation\<close>

text \<open>The loop that invalidates the decisions on conflicts without an exact place.\<close>

definition invalidate_region :: "merge_region \<Rightarrow> merge_region" where
  "invalidate_region r =
     (if \<not> sr_stable r \<and> rm_confidence (mr_mapping r) \<noteq> Exact
      then r\<lparr>mr_decision := \<lparr>ds_ours = PendingDecision, ds_theirs = PendingDecision, ds_bothOrder = None,
               ds_review = NeedsReview\<rparr>\<rparr>
      else r)"

definition applyManualResultTextEdit :: "merge_model \<Rightarrow> js_text \<Rightarrow> merge_model" where
  "applyManualResultTextEdit model newResultText =
     (let cleanNewText = fst (stripBOM newResultText) in
      if mm_resultText model = cleanNewText then model
      else
        let mapped = map invalidate_region
              (mapRegionsToResultText (extractSourceRegions (mm_regions model)) cleanNewText
                (collect_decisions mr_decision (mm_regions model)))
        in model\<lparr>mm_regions := mapped, mm_resultText := cleanNewText,
                 mm_hasBom := (mm_hasBom model \<or> snd (stripBOM newResultText)),
                 mm_resultRevision := mm_resultRevision model + 1,
                 mm_readiness := computeConflictReadiness mapped cleanNewText\<rparr>)"

definition unresolved_region :: "merge_region \<Rightarrow> bool" where
  "unresolved_region r \<longleftrightarrow>
     \<not> sr_stable r \<and>
     (ds_review (mr_decision r) = NeedsReview \<or>
      ds_ours (mr_decision r) = PendingDecision \<and> ds_theirs (mr_decision r) = PendingDecision \<and>
      ds_review (mr_decision r) \<noteq> Reviewed)"

definition findNextUnresolvedRegion :: "merge_model \<Rightarrow> nat \<Rightarrow> merge_region option" where
  "findNextUnresolvedRegion model currentLine =
     (let unresolved = filter unresolved_region (mm_regions model) in
      case find (\<lambda>r. case rm_resultRange (mr_mapping r) of Some c \<Rightarrow> lr_start c > currentLine | None \<Rightarrow> False) unresolved of
        Some r \<Rightarrow> Some r
      | None \<Rightarrow> js_first unresolved)"

definition findPreviousUnresolvedRegion :: "merge_model \<Rightarrow> nat \<Rightarrow> merge_region option" where
  "findPreviousUnresolvedRegion model currentLine =
     (let unresolved = filter unresolved_region (mm_regions model) in
      case find (\<lambda>r. case rm_resultRange (mr_mapping r) of Some c \<Rightarrow> lr_start c < currentLine | None \<Rightarrow> False) (rev unresolved) of
        Some r \<Rightarrow> Some r
      | None \<Rightarrow> js_last unresolved)"

definition getBaseComparisonForRegion :: "merge_model \<Rightarrow> string \<Rightarrow> merge_error + (js_text \<times> line_range \<times> bool)" where
  "getBaseComparisonForRegion model regionId =
     (case find_region model regionId of
        None \<Rightarrow> Inl (RegionNotFound regionId)
      | Some r \<Rightarrow> Inr (concat (sr_baseTokens r), sr_baseRange r, sc_present (mm_base model)))"

definition extractModelDecisions :: "merge_model \<Rightarrow> decision_state js_record" where
  "extractModelDecisions model = collect_decisions mr_decision (mm_regions model)"

definition restoreModelDecisions :: "merge_model \<Rightarrow> decision_state js_record \<Rightarrow> merge_model" where
  "restoreModelDecisions model decisions = remap_model model (mm_resultText model) decisions"

definition getModelSerializedResult :: "merge_model \<Rightarrow> js_text" where
  "getModelSerializedResult model = applyBOM (mm_resultText model) (mm_hasBom model)"

section \<open>The invariant of a model\<close>

definition region_placed :: "js_text \<Rightarrow> merge_region \<Rightarrow> bool" where
  "region_placed s m \<longleftrightarrow>
     sr_stable m \<and> place_of m = None \<or>
     \<not> sr_stable m \<and> mapping_ok (tokenizeLosslessLines s) (parseResultMarkerBlocks s) (source_region.truncate m) (mr_mapping m)"

definition model_ok :: "merge_model \<Rightarrow> bool" where
  "model_ok model \<longleftrightarrow>
     distinct (map sr_id (mm_regions model)) \<and>
     list_all (region_placed (mm_resultText model)) (mm_regions model) \<and>
     sorted_wrt places_disjoint (mm_regions model) \<and>
     mm_readiness model = computeConflictReadiness (mm_regions model) (mm_resultText model)"

lemma id_truncate [simp]: "sr_id (source_region.truncate m) = sr_id m"
  by (simp add: source_region.truncate_def)

lemma mapped_ids: "map sr_id (mapRegionsToResultText rs s ds) = map sr_id rs"
proof -
  have "map sr_id rs = map (sr_id \<circ> source_region.truncate) (mapRegionsToResultText rs s ds)"
    by (metis map_map mapped_sources)
  then show ?thesis by (simp add: comp_def)
qed

lemma mapped_model_ok:
  assumes "distinct (map sr_id rs)"
  shows "distinct (map sr_id (mapRegionsToResultText rs s ds))"
    and "list_all (region_placed s) (mapRegionsToResultText rs s ds)"
    and "sorted_wrt places_disjoint (mapRegionsToResultText rs s ds)"
  using assms mapped_regions_ok mapped_regions_disjoint
  by (simp_all add: mapped_ids list_all_iff region_placed_def)

lemma model_okI:
  assumes "distinct (map sr_id rs)" and "mm_regions model = mapRegionsToResultText rs (mm_resultText model) ds"
    and "mm_readiness model = computeConflictReadiness (mm_regions model) (mm_resultText model)"
  shows "model_ok model"
  using mapped_model_ok [OF assms(1)] assms(2,3) by (simp add: model_ok_def)

lemma distinct_extract: "model_ok model \<Longrightarrow> distinct (map sr_id (extractSourceRegions (mm_regions model)))"
  by (simp add: model_ok_def extractSourceRegions_def comp_def)

lemma remap_ok: "model_ok model \<Longrightarrow> model_ok (next_revision (remap_model model s ds))"
  and restore_ok: "model_ok model \<Longrightarrow> model_ok (remap_model model s ds)"
  by (rule model_okI [OF distinct_extract], assumption, simp_all add: remap_model_def next_revision_def Let_def)+

lemma create_ok: "model_ok (createConflictMergeModel diff3MergeRegions opts)"
  by (rule model_okI [where rs = "buildSourceRegions diff3MergeRegions (stage_tokens (co_oursPresent opts) (co_oursContent opts))
        (stage_tokens (co_basePresent opts) (co_baseContent opts)) (stage_tokens (co_theirsPresent opts) (co_theirsContent opts))"])
    (simp_all add: buildSourceRegions_def distinct_source_ids createConflictMergeModel_def Let_def)

lemma invalidate_simps [simp]:
  "sr_id (invalidate_region m) = sr_id m" "sr_stable (invalidate_region m) = sr_stable m"
  "mr_mapping (invalidate_region m) = mr_mapping m"
  "source_region.truncate (invalidate_region m) = source_region.truncate m"
  by (simp_all add: invalidate_region_def source_region.defs)

lemma manual_edit_ok:
  assumes "model_ok model"
  shows "model_ok (applyManualResultTextEdit model s)"
proof -
  let ?s = "fst (stripBOM s)"
  let ?ms = "mapRegionsToResultText (extractSourceRegions (mm_regions model)) ?s (collect_decisions mr_decision (mm_regions model))"
  note ok = mapped_model_ok [OF distinct_extract [OF assms], of ?s "collect_decisions mr_decision (mm_regions model)"]
  have "distinct (map sr_id (map invalidate_region ?ms))" using ok(1) by (simp add: comp_def)
  moreover have "list_all (region_placed ?s) (map invalidate_region ?ms)"
    using ok(2) by (simp add: list_all_iff region_placed_def)
  moreover have "sorted_wrt places_disjoint (map invalidate_region ?ms)"
    using ok(3) by (simp add: sorted_wrt_map places_disjoint_def [abs_def])
  ultimately have "model_ok (model\<lparr>mm_regions := map invalidate_region ?ms, mm_resultText := ?s,
      mm_hasBom := (mm_hasBom model \<or> snd (stripBOM s)), mm_resultRevision := mm_resultRevision model + 1,
      mm_readiness := computeConflictReadiness (map invalidate_region ?ms) ?s\<rparr>)"
    by (simp add: model_ok_def)
  with assms show ?thesis by (simp add: applyManualResultTextEdit_def Let_def)
qed

section \<open>Histories of a model\<close>

datatype merge_event =
    AcceptSide string side
  | AcceptBoth string both_order
  | IgnoreSide string side
  | MarkReviewed string
  | ConfirmWholeFile whole_file_preview
  | ManualEdit js_text
  | RestoreDecisions "decision_state js_record"

definition or_keep :: "merge_model \<Rightarrow> merge_error + merge_model \<Rightarrow> merge_model" where
  "or_keep model res = (case res of Inl e \<Rightarrow> model | Inr model' \<Rightarrow> model')"

fun merge_step :: "merge_model \<Rightarrow> merge_event \<Rightarrow> merge_model" where
  "merge_step model (AcceptSide i s) = or_keep model (acceptRegionSide model i s)"
| "merge_step model (AcceptBoth i order) = or_keep model (acceptRegionBoth model i order)"
| "merge_step model (IgnoreSide i s) = or_keep model (ignoreRegionSide model i s)"
| "merge_step model (MarkReviewed i) = or_keep model (markRegionReviewed model i)"
| "merge_step model (ConfirmWholeFile p) = or_keep model (confirmWholeFileAction model p)"
| "merge_step model (ManualEdit s) = applyManualResultTextEdit model s"
| "merge_step model (RestoreDecisions ds) = restoreModelDecisions model ds"

lemma decide_region_ok: "model_ok model \<Longrightarrow> decide_region model i f d = Inr model' \<Longrightarrow> model_ok model'"
  by (auto simp: decide_region_def intro: remap_ok split: sum.splits)

lemma whole_file_ok: "model_ok model \<Longrightarrow> confirmWholeFileAction model p = Inr model' \<Longrightarrow> model_ok model'"
  by (auto simp: confirmWholeFileAction_def intro: remap_ok split: if_splits)

lemma ignore_ok: "model_ok model \<Longrightarrow> ignoreRegionSide model i s = Inr model' \<Longrightarrow> model_ok model'"
  and reviewed_ok: "model_ok model \<Longrightarrow> markRegionReviewed model i = Inr model' \<Longrightarrow> model_ok model'"
  by (auto simp: ignoreRegionSide_def markRegionReviewed_def intro: remap_ok split: option.splits if_splits)

lemma or_keep_ok: "model_ok model \<Longrightarrow> (\<And>m. res = Inr m \<Longrightarrow> model_ok m) \<Longrightarrow> model_ok (or_keep model res)"
  by (simp add: or_keep_def split: sum.split)

interpretation merging: event_machine merge_step "\<lambda>_ _. True" model_ok
proof
  fix model e
  assume ok: "model_ok model"
  show "model_ok (merge_step model e)"
    using decide_region_ok [OF ok] whole_file_ok [OF ok] ignore_ok [OF ok] reviewed_ok [OF ok] manual_edit_ok [OF ok] restore_ok [OF ok]
    by (cases e) (auto simp: acceptRegionSide_def acceptRegionBoth_def restoreModelDecisions_def intro!: or_keep_ok [OF ok])
qed

lemma reachable_model_ok: "model_ok (run_events merge_step (createConflictMergeModel diff3MergeRegions opts) es)"
  by (rule merging.run_inv) (simp_all add: create_ok run_allowed_True)

section \<open>What a decision changes\<close>

lemma collect_other: "i \<notin> sr_id ` set ms \<Longrightarrow> rec_get (fold (\<lambda>r m. rec_set (sr_id r) (f r) m) ms acc) i = rec_get acc i"
  by (induction ms arbitrary: acc) (auto simp: rec_get_set)

lemma collect_get:
  "distinct (map sr_id ms) \<Longrightarrow> m \<in> set ms \<Longrightarrow> rec_get (collect_decisions f ms) (sr_id m) = Some (f m)"
proof -
  have "distinct (map sr_id ms) \<Longrightarrow> m \<in> set ms \<Longrightarrow>
      rec_get (fold (\<lambda>r m. rec_set (sr_id r) (f r) m) ms acc) (sr_id m) = Some (f m)" for acc
    by (induction ms arbitrary: acc) (auto simp: collect_other rec_get_set)
  then show "distinct (map sr_id ms) \<Longrightarrow> m \<in> set ms \<Longrightarrow> ?thesis" by (simp add: collect_decisions_def)
qed

definition decision_in :: "decision_state js_record \<Rightarrow> string \<Rightarrow> decision_state" where
  "decision_in ds i = (case rec_get ds i of Some d \<Rightarrow> d | None \<Rightarrow> pending_decision)"

text \<open>Mapping keeps a decision, or asks for a review of a conflict without an exact place.\<close>

definition kept_decision :: "decision_state \<Rightarrow> merge_region \<Rightarrow> bool" where
  "kept_decision d m \<longleftrightarrow>
     mr_decision m = d \<or>
     mr_decision m = d\<lparr>ds_review := NeedsReview\<rparr> \<and> ds_review d \<noteq> Reviewed \<and> rm_confidence (mr_mapping m) \<noteq> Exact"

lemma map_by_text_decision: "kept_decision d (fst (map_by_text ls r d st))"
proof -
  have "d\<lparr>ds_review := Reviewed\<rparr> = d" if "ds_review d = Reviewed" using that by (cases d) simp
  then show ?thesis
    by (auto simp: kept_decision_def map_by_text_def Let_def no_place_def split: prod.split option.split bool.split)
qed

lemma map_region_decision: "kept_decision (decision_in ds (sr_id r)) (fst (map_region ls bs cs ds r st))"
  using map_by_text_decision
  by (auto simp: map_region_def Let_def decision_in_def split: option.split)
    (simp_all add: kept_decision_def)

lemma map_regions_decision:
  "m \<in> set (map_regions ls bs cs ds rs st) \<Longrightarrow> kept_decision (decision_in ds (sr_id m)) m"
proof (induction rs arbitrary: st)
  case (Cons r rs)
  have "sr_id (fst (map_region ls bs cs ds r st)) = sr_id r"
    using map_region_source [of ls bs cs ds r st] by (metis id_truncate)
  then show ?case
    using Cons map_region_decision [of ds r ls bs cs st] by (cases "map_region ls bs cs ds r st") auto
qed simp

lemma mapped_decision: "m \<in> set (mapRegionsToResultText rs s ds) \<Longrightarrow> kept_decision (decision_in ds (sr_id m)) m"
  unfolding mapRegionsToResultText_def by (rule map_regions_decision)

lemma find_region_Some: "find_region model i = Some r \<Longrightarrow> r \<in> set (mm_regions model) \<and> sr_id r = i"
  by (auto simp: find_region_def find_Some_iff)

text \<open>A decision that replaces text replaces exactly the lines of its region.\<close>

lemma decide_region_text:
  assumes ok: "model_ok model" and dec: "decide_region model i f d = Inr model'"
  obtains r c where "r \<in> set (mm_regions model)" "sr_id r = i" "\<not> sr_stable r" "place_of r = Some c"
    "mm_resultText model =
       concat (take (lr_start c - 1) (tokenizeLosslessLines (mm_resultText model))) @
       lines_of (tokenizeLosslessLines (mm_resultText model)) c @
       concat (drop (lr_end c) (tokenizeLosslessLines (mm_resultText model)))"
    "mm_resultText model' =
       concat (take (lr_start c - 1) (tokenizeLosslessLines (mm_resultText model))) @ f r @
       concat (drop (lr_end c) (tokenizeLosslessLines (mm_resultText model)))"
proof -
  let ?s = "mm_resultText model" let ?ls = "tokenizeLosslessLines ?s"
  obtain r p where r: "find_region model i = Some r" "\<not> sr_stable r" "rm_confidence (mr_mapping r) = Exact"
      "rm_resultOffset (mr_mapping r) = Some p"
    and m: "model' = next_revision (remap_model model (take (or_start p) ?s @ f r @ drop (or_end p) ?s)
        (collect_decisions (\<lambda>r. if sr_id r = i then d else mr_decision r) (mm_regions model)))"
    using dec by (auto simp: decide_region_def decidable_region_def replaceRegionTextInResult_def
        split: option.splits if_splits)
  have in_model: "r \<in> set (mm_regions model)" "sr_id r = i" using find_region_Some [OF r(1)] by auto
  have "mapping_ok ?ls (parseResultMarkerBlocks ?s) (source_region.truncate r) (mr_mapping r)"
    using ok in_model(1) r(2) by (auto simp: model_ok_def list_all_iff region_placed_def)
  then obtain c where c: "place_of r = Some c" "place_at ?ls c p"
    using r(3,4) by (auto simp: mapping_ok_def split: option.splits)
  have le: "lr_start c - 1 \<le> lr_end c" using c(2) by (auto simp: place_at_def)
  have "?s = concat (take (lr_start c - 1) ?ls) @ lines_of ?ls c @ concat (drop (lr_end c) ?ls)"
    using split_lines [OF le, of ?ls] by (simp add: lines_of_def)
  moreover have "mm_resultText model' = concat (take (lr_start c - 1) ?ls) @ f r @ concat (drop (lr_end c) ?ls)"
    using slice_at_lines(1,3) [OF le, of ?ls] c(2)
    by (simp add: m next_revision_def remap_model_def Let_def place_at_def)
  ultimately show thesis using that in_model r(2) c(1) by blast
qed

lemma places_apart:
  assumes "model_ok model" and "r \<in> set (mm_regions model)" "r' \<in> set (mm_regions model)" "sr_id r \<noteq> sr_id r'"
    and "place_of r = Some c" "place_of r' = Some c'"
  shows "disjoint_ranges c c'"
proof -
  have wrt: "sorted_wrt places_disjoint (mm_regions model)" using assms(1) by (simp add: model_ok_def)
  obtain i j where ij: "i < length (mm_regions model)" "j < length (mm_regions model)" "mm_regions model ! i = r" "mm_regions model ! j = r'"
    using assms(2,3) by (auto simp: in_set_conv_nth)
  then have "i < j \<or> j < i" using assms(4) by (metis linorder_neqE_nat)
  then have "places_disjoint r r' \<or> places_disjoint r' r"
    using sorted_wrt_nth_less [OF wrt] ij by blast
  then show ?thesis using assms(5,6) by (auto simp: places_disjoint_def disjoint_ranges_def)
qed

text \<open>The decisions after the action: the one given for the region, the old ones for all others.\<close>

lemma decide_region_decisions:
  assumes ok: "model_ok model" and dec: "decide_region model i f d = Inr model'"
  shows "map source_region.truncate (mm_regions model') = map source_region.truncate (mm_regions model)"
    and "r \<in> set (mm_regions model) \<Longrightarrow> m \<in> set (mm_regions model') \<Longrightarrow> sr_id m = sr_id r \<Longrightarrow>
      kept_decision (if sr_id r = i then d else mr_decision r) m"
proof -
  obtain s where m: "model' = next_revision (remap_model model s
        (collect_decisions (\<lambda>r. if sr_id r = i then d else mr_decision r) (mm_regions model)))"
    using dec by (auto simp: decide_region_def split: sum.splits)
  show "map source_region.truncate (mm_regions model') = map source_region.truncate (mm_regions model)"
    by (simp add: m next_revision_def remap_model_def Let_def extractSourceRegions_def)
  assume "r \<in> set (mm_regions model)" "m \<in> set (mm_regions model')" "sr_id m = sr_id r"
  then show "kept_decision (if sr_id r = i then d else mr_decision r) m"
    using mapped_decision [of m "extractSourceRegions (mm_regions model)" s
        "collect_decisions (\<lambda>r. if sr_id r = i then d else mr_decision r) (mm_regions model)"]
      collect_get [of "mm_regions model" r "\<lambda>r. if sr_id r = i then d else mr_decision r"] ok
    by (simp add: m next_revision_def remap_model_def Let_def decision_in_def model_ok_def)
qed

end
