(* ===== verification/Merge_Rebuild.thy ===== *)
theory Merge_Rebuild
  imports Merge_Actions
begin

text \<open>
  Rebuilding a result text with conflict markers (\<^verbatim>\<open>previewRebuildClean\<close>) and reading it back: the
  parser finds one block per conflict, in order and with the sides of the conflict, so that every
  conflict is mapped exactly. The lines of the stages must be terminated by a line feed and must not
  be marker lines themselves.
\<close>

section \<open>Lines of the rebuilt text\<close>

definition lf_line :: "js_text \<Rightarrow> bool" where
  "lf_line l \<longleftrightarrow> full_line l \<and> last l = LF"

lemma lf_line_code [code]:
  "lf_line l \<longleftrightarrow> l \<noteq> [] \<and> last l = LF \<and>
     (plain_line (butlast l) \<or> butlast l \<noteq> [] \<and> last (butlast l) = CR \<and> plain_line (butlast (butlast l)))"
proof
  assume "lf_line l"
  then show "l \<noteq> [] \<and> last l = LF \<and>
      (plain_line (butlast l) \<or> butlast l \<noteq> [] \<and> last (butlast l) = CR \<and> plain_line (butlast (butlast l)))"
    by (auto simp: lf_line_def full_line_def butlast_append)
next
  assume r: "l \<noteq> [] \<and> last l = LF \<and>
      (plain_line (butlast l) \<or> butlast l \<noteq> [] \<and> last (butlast l) = CR \<and> plain_line (butlast (butlast l)))"
  then have "l = butlast l @ [LF]" by (metis append_butlast_last_id)
  moreover have "butlast l = butlast (butlast l) @ [CR]" if "butlast l \<noteq> []" "last (butlast l) = CR"
    using that by (metis append_butlast_last_id)
  ultimately show "lf_line l"
    using r unfolding lf_line_def full_line_def by (metis append.assoc append_Cons append_Nil)
qed

lemma lf_line_nonempty: "lf_line l \<Longrightarrow> l \<noteq> []"
  by (auto simp: lf_line_def full_line_def)

lemma tokenize_lf_lines: "list_all lf_line ls \<Longrightarrow> tokenizeLosslessLines (concat ls) = ls"
proof (induction ls)
  case (Cons l ls)
  then show ?case by (simp add: tokenize_line lf_line_def)
qed (simp add: tokenizeLosslessLines_def)

lemma terminated_lines: "list_all lf_line ls \<Longrightarrow> terminated eol (concat ls) = concat ls"
proof (cases ls rule: rev_cases)
  case (snoc ls' l)
  assume "list_all lf_line ls"
  then have "l \<noteq> []" "last l = LF" using snoc by (auto simp: lf_line_nonempty lf_line_def)
  then show ?thesis by (simp add: snoc terminated_def lacks_terminator_def ends_with_unit_def)
qed (simp add: terminated_def lacks_terminator_def)

definition eol_ok :: "js_text \<Rightarrow> bool" where
  "eol_ok eol \<longleftrightarrow> eol = [LF] \<or> eol = [CR, LF]"

text \<open>The lines of a conflict with markers, and of all regions.\<close>

definition marked_lines :: "js_text \<Rightarrow> source_region \<Rightarrow> js_text list" where
  "marked_lines eol r =
     (lit ''<<<<<<< ours'' @ eol) # sr_oursTokens r @
     (if sr_baseTokens r \<noteq> [] then (lit ''||||||| base'' @ eol) # sr_baseTokens r else []) @
     (lit ''======='' @ eol) # sr_theirsTokens r @ [lit ''>>>>>>> theirs'' @ eol]"

definition stable_lines :: "source_region \<Rightarrow> js_text list" where
  "stable_lines r =
     (case sr_stableSource r of Some BufA \<Rightarrow> sr_oursTokens r | Some BufB \<Rightarrow> sr_theirsTokens r | _ \<Rightarrow> sr_baseTokens r)"

definition rebuilt_lines :: "js_text \<Rightarrow> source_region \<Rightarrow> js_text list" where
  "rebuilt_lines eol r = (if sr_stable r then stable_lines r else marked_lines eol r)"

definition is_any_marker :: "js_text \<Rightarrow> bool" where
  "is_any_marker l \<longleftrightarrow>
     is_marker ''<<<<<<<'' l \<or> is_marker ''|||||||'' l \<or> is_marker ''======='' l \<or> is_marker ''>>>>>>>'' l"

definition clean_line :: "js_text \<Rightarrow> bool" where
  "clean_line l \<longleftrightarrow> lf_line l \<and> \<not> is_any_marker l"

definition clean_region :: "source_region \<Rightarrow> bool" where
  "clean_region r \<longleftrightarrow>
     list_all clean_line (sr_oursTokens r) \<and> list_all clean_line (sr_theirsTokens r) \<and> list_all clean_line (sr_baseTokens r)"

lemma clean_lf: "list_all clean_line ls \<Longrightarrow> list_all lf_line ls"
  by (auto simp: list_all_iff clean_line_def)

lemma marker_start:
  assumes "p \<noteq> []" and "\<not> unit_space (last (lit p))"
  shows "is_marker p l \<longleftrightarrow> starts_with l (lit p)"
  using assms by (simp add: is_marker_def starts_trim_end_iff lit_def)

lemma marker_lines:
  assumes "eol_ok eol"
  shows "is_marker ''<<<<<<<'' (lit ''<<<<<<< ours'' @ eol)"
    and "is_marker ''|||||||'' (lit ''||||||| base'' @ eol)"
    and "\<not> is_marker ''|||||||'' (lit ''======='' @ eol)" "is_marker ''======='' (lit ''======='' @ eol)"
    and "\<not> is_marker ''|||||||'' (lit ''>>>>>>> theirs'' @ eol)" "\<not> is_marker ''======='' (lit ''>>>>>>> theirs'' @ eol)"
    and "is_marker ''>>>>>>>'' (lit ''>>>>>>> theirs'' @ eol)"
  by (simp_all add: marker_start unit_space_def lit_def starts_with_def)

lemma lf_marker_line:
  assumes "eol_ok eol" and "plain_line p"
  shows "lf_line (p @ eol)"
  using assms by (auto simp: eol_ok_def lf_line_def full_line_def)

lemma marked_lines_lf:
  assumes "eol_ok eol" and "clean_region r"
  shows "list_all lf_line (marked_lines eol r)"
proof -
  have "plain_line (lit ''<<<<<<< ours'')" "plain_line (lit ''||||||| base'')" "plain_line (lit ''======='')"
    "plain_line (lit ''>>>>>>> theirs'')" by (simp_all add: plain_line_def lit_def)
  with assms show ?thesis
    by (simp add: marked_lines_def lf_marker_line clean_region_def clean_lf)
qed

lemma rebuilt_lines_lf:
  assumes "eol_ok eol" and "clean_region r"
  shows "list_all lf_line (rebuilt_lines eol r)"
proof -
  have "list_all lf_line (stable_lines r)"
    using assms(2) clean_lf by (simp add: stable_lines_def clean_region_def split: option.split buffer_name.split)
  with marked_lines_lf [OF assms] show ?thesis by (simp add: rebuilt_lines_def)
qed

lemma rebuilt_text:
  assumes "clean_region (source_region.truncate m)"
  shows "(if sr_stable m then stable_text m else marked_text eol m) = concat (rebuilt_lines eol (source_region.truncate m))"
proof -
  have "list_all lf_line (sr_oursTokens m)" "list_all lf_line (sr_theirsTokens m)" "list_all lf_line (sr_baseTokens m)"
    using assms by (simp_all add: clean_region_def clean_lf source_region.defs)
  then show ?thesis
    by (simp add: rebuilt_lines_def stable_lines_def stable_text_def marked_lines_def marked_text_def terminated_lines
        source_region.defs split: option.split buffer_name.split)
qed

section \<open>Reading the rebuilt text\<close>

lemma scan_quiet:
  "list_all (\<lambda>l. \<not> is_marker ''<<<<<<<'' l) seg \<Longrightarrow> \<not> ms_inConflict st \<Longrightarrow>
     scan_markers all k (seg @ rest) st =
       scan_markers all (k + length seg) rest (st\<lparr>ms_offset := ms_offset st + length (concat seg)\<rparr>)"
  by (induction seg arbitrary: k st) (simp_all add: scan_marker_line_def add.assoc)

lemma scan_inner:
  "list_all clean_line seg \<Longrightarrow> ms_inConflict st \<Longrightarrow>
     scan_markers all k (seg @ rest) st =
       scan_markers all (k + length seg) rest (st\<lparr>ms_offset := ms_offset st + length (concat seg)\<rparr>)"
  by (induction seg arbitrary: k st) (simp_all add: scan_marker_line_def clean_line_def is_any_marker_def add.assoc)

lemma scan_opening:
  "\<not> ms_inConflict st \<Longrightarrow> is_marker ''<<<<<<<'' l \<Longrightarrow>
     scan_markers all k (l # rest) st = scan_markers all (k + 1) rest
       (st\<lparr>ms_inConflict := True, ms_startLine := k, ms_blockOffset := ms_offset st,
           ms_baseSep := None, ms_sep := None, ms_style := NormalStyle, ms_offset := ms_offset st + length l\<rparr>)"
  by (simp add: scan_marker_line_def)

lemma scan_base:
  "ms_inConflict st \<Longrightarrow> is_marker ''|||||||'' l \<Longrightarrow>
     scan_markers all k (l # rest) st = scan_markers all (k + 1) rest
       (st\<lparr>ms_baseSep := Some k, ms_style := Diff3, ms_offset := ms_offset st + length l\<rparr>)"
  by (simp add: scan_marker_line_def)

lemma scan_separator:
  "ms_inConflict st \<Longrightarrow> \<not> is_marker ''|||||||'' l \<Longrightarrow> is_marker ''======='' l \<Longrightarrow>
     scan_markers all k (l # rest) st = scan_markers all (k + 1) rest
       (st\<lparr>ms_sep := Some k, ms_offset := ms_offset st + length l\<rparr>)"
  by (simp add: scan_marker_line_def)

lemma scan_closing:
  "ms_inConflict st \<Longrightarrow> ms_sep st = Some s \<Longrightarrow>
     \<not> is_marker ''|||||||'' l \<Longrightarrow> \<not> is_marker ''======='' l \<Longrightarrow> is_marker ''>>>>>>>'' l \<Longrightarrow>
     scan_markers all k (l # rest) st = scan_markers all (k + 1) rest
       (st\<lparr>ms_blocks := ms_blocks st @ [close_block all k l s st], ms_inConflict := False,
           ms_offset := ms_offset st + length l\<rparr>)"
  by (simp add: scan_marker_line_def)

declare scan_markers.simps(2) [simp del]

lemma js_slice_middle: "js_slice (length a) (length a + length b) (a @ b @ c) = b"
  by (simp add: js_slice_def)

lemma scan_marked:
  assumes eol: "eol_ok eol" and clean: "clean_region r"
    and all: "all = pre @ marked_lines eol r @ post" and quiet: "\<not> ms_inConflict st"
  obtains st' b where "scan_markers all (length pre + 1) (marked_lines eol r @ rest) st =
      scan_markers all (length pre + length (marked_lines eol r) + 1) rest st'"
    "\<not> ms_inConflict st'" "ms_blocks st' = ms_blocks st @ [b]"
    "mb_oursTokens b = sr_oursTokens r" "mb_theirsTokens b = sr_theirsTokens r"
proof -
  let ?o = "sr_oursTokens r" and ?t = "sr_theirsTokens r"
  define h1 h2 h3 h4 where "h1 = lit ''<<<<<<< ours'' @ eol" and "h2 = lit ''||||||| base'' @ eol"
    and "h3 = lit ''======='' @ eol" and "h4 = lit ''>>>>>>> theirs'' @ eol"
  define base where "base = (if sr_baseTokens r \<noteq> [] then h2 # sr_baseTokens r else [])"
  have lines: "marked_lines eol r = h1 # ?o @ base @ h3 # ?t @ [h4]"
    by (simp add: marked_lines_def base_def h1_def h2_def h3_def h4_def)
  have cl: "list_all clean_line ?o" "list_all clean_line ?t" "list_all clean_line (sr_baseTokens r)"
    using clean by (simp_all add: clean_region_def)
  note marks = marker_lines [OF eol, folded h1_def h2_def h3_def h4_def]
  let ?k = "length pre + 1" let ?b = "?k + 1 + length ?o" let ?s = "?b + length base" let ?e = "?s + 1 + length ?t"
  let ?off = "ms_offset st + length h1 + length (concat ?o) + length (concat base)"
  let ?sep = "if sr_baseTokens r \<noteq> [] then Some ?b else None"
  let ?style = "if sr_baseTokens r \<noteq> [] then Diff3 else NormalStyle"
  define mid where "mid = st\<lparr>ms_inConflict := True, ms_startLine := ?k, ms_blockOffset := ms_offset st,
      ms_baseSep := ?sep, ms_sep := None, ms_style := ?style, ms_offset := ?off\<rparr>"
  have upto_base: "scan_markers all ?k ((h1 # ?o @ base) @ more) st = scan_markers all ?s more mid" for more
    using quiet marks(1,2) cl(1,3)
    by (cases st; cases "sr_baseTokens r = []")
      (simp_all add: scan_opening scan_inner scan_base base_def mid_def add.assoc add.left_commute)
  define fin where "fin = mid\<lparr>ms_sep := Some ?s, ms_offset := ?off + length h3 + length (concat ?t)\<rparr>"
  have rest: "scan_markers all ?s (h3 # ?t @ [h4] @ rest) mid = scan_markers all (?e + 1) rest
      (fin\<lparr>ms_blocks := ms_blocks fin @ [close_block all ?e h4 ?s fin], ms_inConflict := False,
           ms_offset := ms_offset fin + length h4\<rparr>)"
    using marks cl by (simp add: scan_separator scan_inner scan_closing mid_def fin_def add.assoc add.left_commute)
  have len: "length pre + length (marked_lines eol r) + 1 = ?e + 1" by (simp add: lines)
  have "mb_oursTokens (close_block all ?e h4 ?s fin) = js_slice (length (pre @ [h1])) (length (pre @ [h1]) + length ?o) all"
    by (simp add: close_block_def fin_def mid_def base_def)
  also have "\<dots> = ?o" using js_slice_middle [of "pre @ [h1]" ?o "base @ h3 # ?t @ [h4] @ post"] by (simp add: all lines)
  finally have ours: "mb_oursTokens (close_block all ?e h4 ?s fin) = ?o" .
  have "mb_theirsTokens (close_block all ?e h4 ?s fin) =
      js_slice (length (pre @ h1 # ?o @ base @ [h3])) (length (pre @ h1 # ?o @ base @ [h3]) + length ?t) all"
    by (simp add: close_block_def add.assoc)
  also have "\<dots> = ?t" using js_slice_middle [of "pre @ h1 # ?o @ base @ [h3]" ?t "[h4] @ post"] by (simp add: all lines)
  finally have theirs: "mb_theirsTokens (close_block all ?e h4 ?s fin) = ?t" .
  show thesis
  proof (rule that)
    show "scan_markers all (length pre + 1) (marked_lines eol r @ rest) st =
        scan_markers all (length pre + length (marked_lines eol r) + 1) rest
        (fin\<lparr>ms_blocks := ms_blocks fin @ [close_block all ?e h4 ?s fin], ms_inConflict := False,
           ms_offset := ms_offset fin + length h4\<rparr>)"
      using upto_base [of "h3 # ?t @ [h4] @ rest"] rest unfolding len by (simp add: lines)
    show "ms_blocks (fin\<lparr>ms_blocks := ms_blocks fin @ [close_block all ?e h4 ?s fin], ms_inConflict := False,
           ms_offset := ms_offset fin + length h4\<rparr>) = ms_blocks st @ [close_block all ?e h4 ?s fin]"
      by (simp add: fin_def mid_def)
  qed (use ours theirs in simp_all)
qed

lemma stable_quiet: "clean_region r \<Longrightarrow> list_all (\<lambda>l. \<not> is_marker ''<<<<<<<'' l) (stable_lines r)"
  by (auto simp: stable_lines_def clean_region_def list_all_iff clean_line_def is_any_marker_def
      split: option.splits buffer_name.splits)

lemma scan_rebuilt:
  assumes "eol_ok eol" and "list_all clean_region rs" and "\<not> ms_inConflict st"
    and "all = pre @ concat (map (rebuilt_lines eol) rs)"
  shows "\<exists>bs. ms_blocks (scan_markers all (length pre + 1) (concat (map (rebuilt_lines eol) rs)) st) = ms_blocks st @ bs \<and>
    list_all2 block_matches bs (filter (\<lambda>r. \<not> sr_stable r) rs)"
  using assms(2-)
proof (induction rs arbitrary: pre st)
  case (Cons r rs)
  let ?rest = "concat (map (rebuilt_lines eol) rs)"
  show ?case
  proof (cases "sr_stable r")
    case True
    then have r: "rebuilt_lines eol r = stable_lines r" by (simp add: rebuilt_lines_def)
    have "scan_markers all (length pre + 1) (stable_lines r @ ?rest) st =
        scan_markers all (length (pre @ stable_lines r) + 1) ?rest (st\<lparr>ms_offset := ms_offset st + length (concat (stable_lines r))\<rparr>)"
      using Cons.prems(1,2) by (simp add: scan_quiet stable_quiet)
    then show ?thesis
      using True Cons.IH [of "st\<lparr>ms_offset := ms_offset st + length (concat (stable_lines r))\<rparr>" "pre @ stable_lines r"] Cons.prems
      by (simp add: r)
  next
    case False
    then have r: "rebuilt_lines eol r = marked_lines eol r" by (simp add: rebuilt_lines_def)
    have "clean_region r" using Cons.prems(1) by simp
    then obtain st' b where b: "scan_markers all (length pre + 1) (marked_lines eol r @ ?rest) st =
        scan_markers all (length pre + length (marked_lines eol r) + 1) ?rest st'"
      "\<not> ms_inConflict st'" "ms_blocks st' = ms_blocks st @ [b]"
      "mb_oursTokens b = sr_oursTokens r" "mb_theirsTokens b = sr_theirsTokens r"
      using scan_marked [OF assms(1) _ _ Cons.prems(2), of r all pre ?rest ?rest] Cons.prems(3)
      by (auto simp: r)
    obtain bs where "ms_blocks (scan_markers all (length (pre @ marked_lines eol r) + 1) ?rest st') = ms_blocks st' @ bs"
      "list_all2 block_matches bs (filter (\<lambda>r. \<not> sr_stable r) rs)"
      using Cons.IH [OF _ b(2), of "pre @ marked_lines eol r"] Cons.prems by (auto simp: r)
    moreover have "block_matches b r" using b by (simp add: block_matches_def)
    ultimately show ?thesis
      using b(1,3) False by (intro exI [of _ "b # bs"]) (simp add: r)
  qed
qed (simp add: scan_markers.simps)

text \<open>One block per conflict, in the order of the conflicts.\<close>

lemma parse_rebuilt:
  assumes "eol_ok eol" and "list_all clean_region rs"
  shows "list_all2 block_matches (parseResultMarkerBlocks (concat (concat (map (rebuilt_lines eol) rs)))) (filter (\<lambda>r. \<not> sr_stable r) rs)"
proof -
  let ?ls = "concat (map (rebuilt_lines eol) rs)"
  have "list_all lf_line ?ls"
    using assms rebuilt_lines_lf by (auto simp: list_all_iff)
  then have tok: "tokenizeLosslessLines (concat ?ls) = ?ls" by (rule tokenize_lf_lines)
  have "\<not> ms_inConflict init_scan" "ms_blocks init_scan = []" by (simp_all add: init_scan_def)
  then show ?thesis
    using scan_rebuilt [OF assms, of init_scan ?ls "[]"] by (auto simp: parseResultMarkerBlocks_def tok Let_def)
qed

text \<open>When every conflict has its block, mapping assigns the blocks in order.\<close>

lemma find_position:
  assumes "distinct (map sr_id cs)" and "k < length cs"
  shows "find (\<lambda>i. sr_id (cs ! i) = sr_id (cs ! k)) [0..<length cs] = Some k"
proof -
  have "sr_id (cs ! i) \<noteq> sr_id (cs ! k)" if "i < k" for i
    using assms that nth_eq_iff_index_eq [of "map sr_id cs" i k] by simp
  then show ?thesis
    using assms(2) by (auto simp: find_Some_iff intro!: exI [of _ k])
qed

lemma map_regions_aligned:
  assumes "list_all2 block_matches bs cs" and "distinct (map sr_id cs)" and "blocks_ok ls bs"
    and "cs = before @ filter (\<lambda>r. \<not> sr_stable r) rs"
    and "mp_used st = [0..<length before]" and "mp_claimed st = map block_range (take (length before) bs)"
    and "m \<in> set (map_regions ls bs cs ds rs st)" and "\<not> sr_stable m"
  shows "\<exists>b \<in> set bs. mr_mapping m = block_mapping b \<and> block_matches b (source_region.truncate m)"
  using assms(4-)
proof (induction rs arbitrary: before st)
  case (Cons r rs)
  show ?case
  proof (cases "sr_stable r")
    case True
    then show ?thesis using Cons by (auto simp: map_region_stable)
  next
    case False
    let ?k = "length before"
    have k: "?k < length cs" "cs ! ?k = r" "length bs = length cs"
      using Cons.prems(1) False list_all2_lengthD [OF assms(1)] by simp_all
    have match: "block_matches (bs ! ?k) r" using list_all2_nthD2 [OF assms(1) k(1)] k(2) by simp
    have al: "aligned_block bs cs (mp_used st) r = Some ?k"
      using find_position [OF assms(2) k(1)] k match Cons.prems(2) by (simp add: aligned_block_def)
    have "mb_endLine (bs ! i) < mb_startLine (bs ! ?k)" if "i < ?k" for i
      using sorted_wrt_nth_less [of "\<lambda>a b. mb_endLine a < mb_startLine b" bs i ?k] assms(3) that k by (simp add: blocks_ok_def)
    then have "\<not> range_overlaps (mp_claimed st) (block_range (bs ! ?k))"
      by (auto simp: not_overlaps Cons.prems(3) in_set_conv_nth disjoint_ranges_def block_range_def)
    then obtain d where d: "map_region ls bs cs ds r st = (with_mapping r (block_mapping (bs ! ?k)) d,
        \<lparr>mp_claimed = mp_claimed st @ [block_range (bs ! ?k)], mp_used = mp_used st @ [?k]\<rparr>)"
      using False al by (simp add: map_region_def matched_block_def)
    consider "m = with_mapping r (block_mapping (bs ! ?k)) d"
      | "m \<in> set (map_regions ls bs cs ds rs \<lparr>mp_claimed = mp_claimed st @ [block_range (bs ! ?k)], mp_used = mp_used st @ [?k]\<rparr>)"
      using Cons.prems(4) d by auto
    then show ?thesis
    proof cases
      case 1
      then show ?thesis using match k by (intro bexI [of _ "bs ! ?k"]) simp_all
    next
      case 2
      show ?thesis
      proof (rule Cons.IH [OF _ _ _ 2 Cons.prems(5)])
        show "cs = (before @ [r]) @ filter (\<lambda>r. \<not> sr_stable r) rs" using Cons.prems(1) False by simp
      qed (use Cons.prems(2,3) k in \<open>simp_all add: take_Suc_conv_app_nth\<close>)
    qed
  qed
qed simp

section \<open>The round trip\<close>

lemma concat_concat: "concat (map (\<lambda>x. concat (f x)) xs) = concat (concat (map f xs))"
  by (induction xs) simp_all

lemma eol_text_ok: "eol_ok (eol_text model)"
  by (simp add: eol_ok_def eol_text_def)

lemma preview_text:
  assumes "list_all clean_region (extractSourceRegions (mm_regions model))"
  shows "wp_previewText (previewRebuildClean model) =
    concat (concat (map (rebuilt_lines (eol_text model)) (extractSourceRegions (mm_regions model))))"
proof -
  have "map (\<lambda>r. if sr_stable r then stable_text r else marked_text (eol_text model) r) (mm_regions model) =
      map (\<lambda>r. concat (rebuilt_lines (eol_text model) (source_region.truncate r))) (mm_regions model)"
    using assms by (intro map_cong [OF refl] rebuilt_text) (auto simp: extractSourceRegions_def list_all_iff)
  moreover have "wp_previewText (previewRebuildClean model) =
      concat (map (\<lambda>r. if sr_stable r then stable_text r else marked_text (eol_text model) r) (mm_regions model))"
    by (simp add: previewRebuildClean_def preview_of_def)
  ultimately have "wp_previewText (previewRebuildClean model) =
      concat (map (\<lambda>r. concat (rebuilt_lines (eol_text model) (source_region.truncate r))) (mm_regions model))" by metis
  then show ?thesis by (simp add: extractSourceRegions_def concat_concat comp_def)
qed

lemma rebuild_maps_all:
  assumes ok: "model_ok model" and clean: "list_all clean_region (extractSourceRegions (mm_regions model))"
    and bom: "\<not> detectBOM (wp_previewText (previewRebuildClean model))"
    and conf: "confirmWholeFileAction model (previewRebuildClean model) = Inr model'"
    and m: "m \<in> set (mm_regions model')" "\<not> sr_stable m"
  shows "\<exists>b \<in> set (parseResultMarkerBlocks (mm_resultText model')).
    mr_mapping m = block_mapping b \<and> block_matches b (source_region.truncate m)"
proof -
  let ?rs = "extractSourceRegions (mm_regions model)" and ?s = "wp_previewText (previewRebuildClean model)"
  have "model' = next_revision (remap_model model ?s (wp_newDecisions (previewRebuildClean model)))"
    using conf bom by (auto simp: confirmWholeFileAction_def stripBOM_def split: if_splits)
  then have r: "mm_regions model' = mapRegionsToResultText ?rs ?s (wp_newDecisions (previewRebuildClean model))"
    and s: "mm_resultText model' = ?s" by (simp_all add: next_revision_def remap_model_def Let_def)
  have "list_all2 block_matches (parseResultMarkerBlocks ?s) (filter (\<lambda>r. \<not> sr_stable r) ?rs)"
    using parse_rebuilt [OF eol_text_ok clean, of model] preview_text [OF clean] by simp
  then show ?thesis
    unfolding s using m distinct_extract [OF ok]
    by (intro map_regions_aligned [OF _ _ parsed_blocks_ok, where before = "[]" and rs = ?rs])
      (auto simp: r mapRegionsToResultText_def distinct_map_filter)
qed

end
