(* ===== verification/Joint_History.thy ===== *)
theory Joint_History
  imports Merge_Regions
begin

text \<open>
  The joint undo history of text and decisions, \<^verbatim>\<open>packages/ui/src/lib/joint-history-authority.ts\<close>. The
  text model is Monaco's, a package: what \<^verbatim>\<open>getValue()\<close> returns after \<^verbatim>\<open>setValue(v)\<close> is the parameter
  \<open>put v\<close>, since Monaco may change mixed line endings. Setting the value calls the listener of
  \<^verbatim>\<open>onDidChangeContent\<close> at once. The callbacks for decisions are recorded in \<open>jh_calls\<close>; the keyboard
  commands and menu actions only call \<open>undo\<close> and \<open>redo\<close>. The top of a stack is its last element.
\<close>

section \<open>State and operations\<close>

datatype transaction_type = TextTransaction | MetadataTransaction | AtomicTransaction

record joint_transaction =
  jt_type :: transaction_type
  jt_description :: "string option"
  jt_timestamp :: nat
  jt_beforeValue :: js_text
  jt_afterValue :: js_text
  jt_beforeDecisions :: "decision_state js_record option"
  jt_afterDecisions :: "decision_state js_record option"
  jt_blockId :: "string option"
  jt_beforeDecision :: "string option"
  jt_afterDecision :: "string option"

record joint_snapshot =
  js_undoStack :: "joint_transaction list"
  js_redoStack :: "joint_transaction list"
  js_lastValue :: js_text

datatype history_call = DecisionsChanged "decision_state js_record" | MetadataChanged string string

record joint_history =
  jh_undoStack :: "joint_transaction list"
  jh_redoStack :: "joint_transaction list"
  jh_isApplying :: bool
  jh_lastValue :: js_text
  jh_value :: js_text
  jh_maxDepth :: nat
  jh_onMetadata :: bool
  jh_onDecisions :: bool
  jh_calls :: "history_call list"

definition new_history :: "js_text \<Rightarrow> nat \<Rightarrow> bool \<Rightarrow> bool \<Rightarrow> joint_history" where
  "new_history v maxDepth onMetadata onDecisions =
     \<lparr>jh_undoStack = [], jh_redoStack = [], jh_isApplying = False, jh_lastValue = v, jh_value = v,
      jh_maxDepth = maxDepth, jh_onMetadata = onMetadata, jh_onDecisions = onDecisions, jh_calls = []\<rparr>"

definition pushUndo :: "joint_transaction \<Rightarrow> joint_history \<Rightarrow> joint_history" where
  "pushUndo tx h =
     (let pushed = jh_undoStack h @ [tx]
      in h\<lparr>jh_undoStack := (if length pushed > jh_maxDepth h then tl pushed else pushed)\<rparr>)"

definition text_transaction :: "nat \<Rightarrow> js_text \<Rightarrow> js_text \<Rightarrow> joint_transaction" where
  "text_transaction now a b =
     \<lparr>jt_type = TextTransaction, jt_description = None, jt_timestamp = now, jt_beforeValue = a, jt_afterValue = b,
      jt_beforeDecisions = None, jt_afterDecisions = None, jt_blockId = None, jt_beforeDecision = None, jt_afterDecision = None\<rparr>"

text \<open>The listener of content changes.\<close>

definition content_changed :: "nat \<Rightarrow> joint_history \<Rightarrow> joint_history" where
  "content_changed now h =
     (if jh_isApplying h then h\<lparr>jh_lastValue := jh_value h\<rparr>
      else (pushUndo (text_transaction now (jh_lastValue h) (jh_value h)) h)\<lparr>jh_redoStack := [], jh_lastValue := jh_value h\<rparr>)"

definition user_edit :: "js_text \<Rightarrow> nat \<Rightarrow> joint_history \<Rightarrow> joint_history" where
  "user_edit v now h = content_changed now (h\<lparr>jh_value := v\<rparr>)"

definition set_value :: "(js_text \<Rightarrow> js_text) \<Rightarrow> js_text \<Rightarrow> nat \<Rightarrow> joint_history \<Rightarrow> joint_history" where
  "set_value put v now h = content_changed now (h\<lparr>jh_value := put v\<rparr>)"

definition recordMetadataAction :: "string \<Rightarrow> string \<Rightarrow> string \<Rightarrow> nat \<Rightarrow> joint_history \<Rightarrow> joint_history" where
  "recordMetadataAction blockId beforeDecision afterDecision now h =
     (pushUndo
        \<lparr>jt_type = MetadataTransaction, jt_description = None, jt_timestamp = now,
         jt_beforeValue = jh_lastValue h, jt_afterValue = jh_lastValue h,
         jt_beforeDecisions = None, jt_afterDecisions = None, jt_blockId = Some blockId,
         jt_beforeDecision = Some beforeDecision, jt_afterDecision = Some afterDecision\<rparr> h)\<lparr>jh_redoStack := []\<rparr>"

definition recordAtomicAction ::
  "(js_text \<Rightarrow> js_text) \<Rightarrow> string \<Rightarrow> js_text \<Rightarrow> js_text \<Rightarrow> decision_state js_record \<Rightarrow> decision_state js_record \<Rightarrow> nat
     \<Rightarrow> joint_history \<Rightarrow> joint_history"
where
  "recordAtomicAction put description beforeValue afterValue beforeDecisions afterDecisions now h =
     (let h1 = (pushUndo
            \<lparr>jt_type = AtomicTransaction, jt_description = Some description, jt_timestamp = now,
             jt_beforeValue = beforeValue, jt_afterValue = afterValue,
             jt_beforeDecisions = Some beforeDecisions, jt_afterDecisions = Some afterDecisions, jt_blockId = None,
             jt_beforeDecision = None, jt_afterDecision = None\<rparr> h)\<lparr>jh_redoStack := [], jh_isApplying := True\<rparr>;
          h2 = (if jh_value h1 \<noteq> afterValue then set_value put afterValue now h1 else h1)
      in h2\<lparr>jh_isApplying := False, jh_lastValue := afterValue\<rparr>)"

definition history_snapshot :: "joint_history \<Rightarrow> joint_snapshot" where
  "history_snapshot h =
     \<lparr>js_undoStack = jh_undoStack h, js_redoStack = jh_redoStack h, js_lastValue = jh_lastValue h\<rparr>"

definition restoreSnapshot :: "joint_snapshot \<Rightarrow> joint_history \<Rightarrow> joint_history" where
  "restoreSnapshot s h =
     h\<lparr>jh_undoStack := js_undoStack s, jh_redoStack := js_redoStack s, jh_lastValue := js_lastValue s\<rparr>"

definition canUndo :: "joint_history \<Rightarrow> bool" where
  "canUndo h \<longleftrightarrow> length (jh_undoStack h) > 0"

definition canRedo :: "joint_history \<Rightarrow> bool" where
  "canRedo h \<longleftrightarrow> length (jh_redoStack h) > 0"

text \<open>The calls of the callbacks; an empty string is falsy.\<close>

definition call_back :: "decision_state js_record option \<Rightarrow> string option \<Rightarrow> string option \<Rightarrow> joint_history \<Rightarrow> joint_history" where
  "call_back decisions blockId decision h =
     h\<lparr>jh_calls := jh_calls h @
         (case decisions of Some ds \<Rightarrow> if jh_onDecisions h then [DecisionsChanged ds] else [] | None \<Rightarrow> []) @
         (case (blockId, decision) of
            (Some b, Some d) \<Rightarrow> if b \<noteq> '''' \<and> d \<noteq> '''' \<and> jh_onMetadata h then [MetadataChanged b d] else []
          | _ \<Rightarrow> [])\<rparr>"

text \<open>The common body of undo and redo: tell the decisions, set the text, remember the value.\<close>

definition apply_value ::
  "(js_text \<Rightarrow> js_text) \<Rightarrow> joint_transaction \<Rightarrow> js_text \<Rightarrow> decision_state js_record option \<Rightarrow> string option \<Rightarrow> nat
     \<Rightarrow> joint_history \<Rightarrow> joint_history"
where
  "apply_value put tx v decisions decision now h =
     (let h1 = call_back decisions (jt_blockId tx) decision (h\<lparr>jh_isApplying := True\<rparr>);
          h2 = (if jt_beforeValue tx \<noteq> jt_afterValue tx then set_value put v now h1 else h1)
      in h2\<lparr>jh_isApplying := False, jh_lastValue := jh_value h2\<rparr>)"

definition undo_history :: "(js_text \<Rightarrow> js_text) \<Rightarrow> nat \<Rightarrow> joint_history \<Rightarrow> bool \<times> joint_history" where
  "undo_history put now h =
     (if jh_undoStack h = [] then (False, h)
      else
        let tx = last (jh_undoStack h);
            h1 = apply_value put tx (jt_beforeValue tx) (jt_beforeDecisions tx) (jt_beforeDecision tx) now
                   (h\<lparr>jh_undoStack := butlast (jh_undoStack h)\<rparr>)
        in (True, h1\<lparr>jh_redoStack := jh_redoStack h1 @ [tx]\<rparr>))"

definition redo_history :: "(js_text \<Rightarrow> js_text) \<Rightarrow> nat \<Rightarrow> joint_history \<Rightarrow> bool \<times> joint_history" where
  "redo_history put now h =
     (if jh_redoStack h = [] then (False, h)
      else
        let tx = last (jh_redoStack h);
            h1 = apply_value put tx (jt_afterValue tx) (jt_afterDecisions tx) (jt_afterDecision tx) now
                   (h\<lparr>jh_redoStack := butlast (jh_redoStack h)\<rparr>)
        in (True, h1\<lparr>jh_undoStack := jh_undoStack h1 @ [tx]\<rparr>))"

definition getUndoCount :: "joint_history \<Rightarrow> nat" where
  "getUndoCount h = length (jh_undoStack h)"

definition getRedoCount :: "joint_history \<Rightarrow> nat" where
  "getRedoCount h = length (jh_redoStack h)"

section \<open>The invariant\<close>

text \<open>A path of transactions from one text to another.\<close>

fun leads :: "js_text \<Rightarrow> joint_transaction list \<Rightarrow> js_text \<Rightarrow> bool" where
  "leads v [] w \<longleftrightarrow> v = w"
| "leads v (tx # txs) w \<longleftrightarrow> jt_beforeValue tx = v \<and> leads (jt_afterValue tx) txs w"

lemma leads_append: "leads v (xs @ ys) w \<longleftrightarrow> (\<exists>u. leads v xs u \<and> leads u ys w)"
  by (induction xs arbitrary: v) auto

text \<open>The undo stack leads from \<open>origin\<close> to the present text, the redo stack on to \<open>target\<close>, and
  both together stay within the depth. All texts are ones the editor keeps as they are.\<close>

definition history_ok :: "(js_text \<Rightarrow> js_text) \<Rightarrow> js_text \<Rightarrow> js_text \<Rightarrow> joint_history \<Rightarrow> bool" where
  "history_ok put origin goal h \<longleftrightarrow>
     \<not> jh_isApplying h \<and> jh_lastValue h = jh_value h \<and> put (jh_value h) = jh_value h \<and>
     leads origin (jh_undoStack h) (jh_value h) \<and> leads (jh_value h) (rev (jh_redoStack h)) goal \<and>
     length (jh_undoStack h) + length (jh_redoStack h) \<le> jh_maxDepth h \<and>
     (\<forall>tx \<in> set (jh_undoStack h) \<union> set (jh_redoStack h). put (jt_beforeValue tx) = jt_beforeValue tx \<and>
        put (jt_afterValue tx) = jt_afterValue tx)"

lemma apply_value_fields:
  assumes "put v = v" and "jt_beforeValue tx = jt_afterValue tx \<Longrightarrow> jh_value h = v"
  shows "jh_value (apply_value put tx v ds d now h) = v" "jh_lastValue (apply_value put tx v ds d now h) = v"
    "\<not> jh_isApplying (apply_value put tx v ds d now h)"
    "jh_undoStack (apply_value put tx v ds d now h) = jh_undoStack h" "jh_redoStack (apply_value put tx v ds d now h) = jh_redoStack h"
    "jh_maxDepth (apply_value put tx v ds d now h) = jh_maxDepth h"
  using assms by (auto simp: apply_value_def call_back_def set_value_def content_changed_def Let_def)

lemma undo_keeps:
  assumes ok: "history_ok put a b h" and ne: "jh_undoStack h \<noteq> []"
  obtains h' where "undo_history put now h = (True, h')" "history_ok put a b h'"
    "jh_undoStack h' = butlast (jh_undoStack h)" "jh_redoStack h' = jh_redoStack h @ [last (jh_undoStack h)]"
    "jh_value h' = jt_beforeValue (last (jh_undoStack h))"
proof -
  obtain txs tx where s: "jh_undoStack h = txs @ [tx]" using ne by (cases "jh_undoStack h" rule: rev_cases) auto
  have path: "leads a txs (jt_beforeValue tx)" "jt_afterValue tx = jh_value h" and put: "put (jt_beforeValue tx) = jt_beforeValue tx"
    using ok by (auto simp: history_ok_def s leads_append)
  let ?h = "h\<lparr>jh_undoStack := txs\<rparr>"
  note f = apply_value_fields [where put = put and v = "jt_beforeValue tx" and tx = tx and h = ?h, OF put]
  let ?h1 = "apply_value put tx (jt_beforeValue tx) (jt_beforeDecisions tx) (jt_beforeDecision tx) now ?h"
  have fields: "jh_value ?h1 = jt_beforeValue tx" "jh_lastValue ?h1 = jt_beforeValue tx" "\<not> jh_isApplying ?h1"
    "jh_undoStack ?h1 = txs" "jh_redoStack ?h1 = jh_redoStack h" "jh_maxDepth ?h1 = jh_maxDepth h"
    using f path(2) by simp_all
  show thesis
  proof (rule that)
    show "undo_history put now h = (True, ?h1\<lparr>jh_redoStack := jh_redoStack ?h1 @ [tx]\<rparr>)"
      by (simp add: undo_history_def s Let_def)
    show "history_ok put a b (?h1\<lparr>jh_redoStack := jh_redoStack ?h1 @ [tx]\<rparr>)"
      using ok path by (auto simp: history_ok_def fields s leads_append)
  qed (simp_all add: fields s)
qed

lemma redo_keeps:
  assumes ok: "history_ok put a b h" and ne: "jh_redoStack h \<noteq> []"
  obtains h' where "redo_history put now h = (True, h')" "history_ok put a b h'"
    "jh_redoStack h' = butlast (jh_redoStack h)" "jh_undoStack h' = jh_undoStack h @ [last (jh_redoStack h)]"
    "jh_value h' = jt_afterValue (last (jh_redoStack h))"
proof -
  obtain txs tx where s: "jh_redoStack h = txs @ [tx]" using ne by (cases "jh_redoStack h" rule: rev_cases) auto
  have path: "jt_beforeValue tx = jh_value h" "leads (jt_afterValue tx) (rev txs) b" and put: "put (jt_afterValue tx) = jt_afterValue tx"
    using ok by (auto simp: history_ok_def s)
  let ?h = "h\<lparr>jh_redoStack := txs\<rparr>"
  note f = apply_value_fields [where put = put and v = "jt_afterValue tx" and tx = tx and h = ?h, OF put]
  let ?h1 = "apply_value put tx (jt_afterValue tx) (jt_afterDecisions tx) (jt_afterDecision tx) now ?h"
  have fields: "jh_value ?h1 = jt_afterValue tx" "jh_lastValue ?h1 = jt_afterValue tx" "\<not> jh_isApplying ?h1"
    "jh_undoStack ?h1 = jh_undoStack h" "jh_redoStack ?h1 = txs" "jh_maxDepth ?h1 = jh_maxDepth h"
    using f path(1) by simp_all
  show thesis
  proof (rule that)
    show "redo_history put now h = (True, ?h1\<lparr>jh_undoStack := jh_undoStack ?h1 @ [tx]\<rparr>)"
      by (simp add: redo_history_def s Let_def)
    show "history_ok put a b (?h1\<lparr>jh_undoStack := jh_undoStack ?h1 @ [tx]\<rparr>)"
      using ok path by (auto simp: history_ok_def fields s leads_append)
  qed (simp_all add: fields s)
qed

section \<open>Histories of edits\<close>

datatype history_event =
    UserEdit js_text nat
  | AtomicAction string js_text js_text "decision_state js_record" "decision_state js_record" nat
  | MetadataAction string string string nat
  | UndoPressed nat
  | RedoPressed nat

fun history_step :: "(js_text \<Rightarrow> js_text) \<Rightarrow> joint_history \<Rightarrow> history_event \<Rightarrow> joint_history" where
  "history_step put h (UserEdit v now) = user_edit v now h"
| "history_step put h (AtomicAction d a b ds ds' now) = recordAtomicAction put d a b ds ds' now h"
| "history_step put h (MetadataAction b d d' now) = recordMetadataAction b d d' now h"
| "history_step put h (UndoPressed now) = snd (undo_history put now h)"
| "history_step put h (RedoPressed now) = snd (redo_history put now h)"

text \<open>Edits bring texts the editor keeps, an atomic action starts at the present text, and the depth
  is not exceeded.\<close>

fun history_allowed :: "(js_text \<Rightarrow> js_text) \<Rightarrow> joint_history \<Rightarrow> history_event \<Rightarrow> bool" where
  "history_allowed put h (UserEdit v now) \<longleftrightarrow> put v = v \<and> length (jh_undoStack h) < jh_maxDepth h"
| "history_allowed put h (AtomicAction d a b ds ds' now) \<longleftrightarrow>
     a = jh_value h \<and> put b = b \<and> length (jh_undoStack h) < jh_maxDepth h"
| "history_allowed put h (MetadataAction b d d' now) \<longleftrightarrow> length (jh_undoStack h) < jh_maxDepth h"
| "history_allowed put h (UndoPressed now) \<longleftrightarrow> True"
| "history_allowed put h (RedoPressed now) \<longleftrightarrow> True"

text \<open>A new transaction at the end of the undo stack; the redo stack is cleared.\<close>

lemma record_ok:
  assumes "history_ok put a b h" and "length (jh_undoStack h) < jh_maxDepth h"
    and "jt_beforeValue tx = jh_value h" and "put (jt_afterValue tx) = jt_afterValue tx"
    and "\<not> jh_isApplying h'" "jh_value h' = jt_afterValue tx" "jh_lastValue h' = jt_afterValue tx"
    "jh_undoStack h' = jh_undoStack (pushUndo tx h)" "jh_redoStack h' = []" "jh_maxDepth h' = jh_maxDepth h"
  shows "history_ok put a (jh_value h') h'"
  using assms by (auto simp: history_ok_def pushUndo_def leads_append)

lemma pushUndo_fields [simp]:
  "jh_value (pushUndo tx h) = jh_value h" "jh_lastValue (pushUndo tx h) = jh_lastValue h"
  "jh_isApplying (pushUndo tx h) = jh_isApplying h" "jh_maxDepth (pushUndo tx h) = jh_maxDepth h"
  by (simp_all add: pushUndo_def Let_def)

lemma pushUndo_stack: "jh_undoStack (pushUndo tx (h\<lparr>jh_value := v\<rparr>)) = jh_undoStack (pushUndo tx h)"
  by (simp add: pushUndo_def Let_def)

lemma history_step_ok:
  assumes ok: "history_ok put a b h" and al: "history_allowed put h e"
  shows "\<exists>b'. history_ok put a b' (history_step put h e)"
proof (cases e)
  case (UserEdit v now)
  have "history_ok put a (jh_value (user_edit v now h)) (user_edit v now h)"
    using ok al UserEdit
    by (intro record_ok [OF ok, of "text_transaction now (jh_lastValue h) v"])
      (simp_all add: history_ok_def text_transaction_def user_edit_def content_changed_def pushUndo_stack)
  then show ?thesis unfolding UserEdit by auto
next
  case (AtomicAction d x y ds ds' now)
  let ?tx = "\<lparr>jt_type = AtomicTransaction, jt_description = Some d, jt_timestamp = now, jt_beforeValue = x, jt_afterValue = y,
      jt_beforeDecisions = Some ds, jt_afterDecisions = Some ds', jt_blockId = None, jt_beforeDecision = None, jt_afterDecision = None\<rparr>"
  have "history_ok put a (jh_value (recordAtomicAction put d x y ds ds' now h)) (recordAtomicAction put d x y ds ds' now h)"
    using ok al AtomicAction
    by (intro record_ok [OF ok, of ?tx]) (simp_all add: history_ok_def recordAtomicAction_def Let_def set_value_def content_changed_def)
  then show ?thesis unfolding AtomicAction by auto
next
  case (MetadataAction i d d' now)
  let ?tx = "\<lparr>jt_type = MetadataTransaction, jt_description = None, jt_timestamp = now, jt_beforeValue = jh_lastValue h,
      jt_afterValue = jh_lastValue h, jt_beforeDecisions = None, jt_afterDecisions = None, jt_blockId = Some i,
      jt_beforeDecision = Some d, jt_afterDecision = Some d'\<rparr>"
  have "history_ok put a (jh_value (recordMetadataAction i d d' now h)) (recordMetadataAction i d d' now h)"
    using ok al MetadataAction
    by (intro record_ok [OF ok, of ?tx]) (simp_all add: history_ok_def recordMetadataAction_def)
  then show ?thesis unfolding MetadataAction by auto
next
  case (UndoPressed now)
  show ?thesis
  proof (cases "jh_undoStack h = []")
    case True
    with ok show ?thesis by (auto simp: UndoPressed undo_history_def)
  next
    case False
    obtain h' where "undo_history put now h = (True, h')" "history_ok put a b h'"
      by (rule undo_keeps [OF ok False])
    then show ?thesis by (auto simp: UndoPressed)
  qed
next
  case (RedoPressed now)
  show ?thesis
  proof (cases "jh_redoStack h = []")
    case True
    with ok show ?thesis by (auto simp: RedoPressed redo_history_def)
  next
    case False
    obtain h' where "redo_history put now h = (True, h')" "history_ok put a b h'"
      by (rule redo_keeps [OF ok False])
    then show ?thesis by (auto simp: RedoPressed)
  qed
qed

interpretation joint: event_machine "history_step put" "history_allowed put" "\<lambda>h. \<exists>b. history_ok put a b h" for put a
  by unfold_locales (auto intro: history_step_ok)

lemma new_history_ok: "put v = v \<Longrightarrow> history_ok put v v (new_history v d x y)"
  by (simp add: history_ok_def new_history_def)

fun undo_times :: "(js_text \<Rightarrow> js_text) \<Rightarrow> nat \<Rightarrow> nat \<Rightarrow> joint_history \<Rightarrow> joint_history" where
  "undo_times put now 0 h = h"
| "undo_times put now (Suc n) h = undo_times put now n (snd (undo_history put now h))"

fun redo_times :: "(js_text \<Rightarrow> js_text) \<Rightarrow> nat \<Rightarrow> nat \<Rightarrow> joint_history \<Rightarrow> joint_history" where
  "redo_times put now 0 h = h"
| "redo_times put now (Suc n) h = redo_times put now n (snd (redo_history put now h))"

lemma undo_times_keeps:
  "history_ok put a b h \<Longrightarrow> jh_undoStack h = xs @ ys \<Longrightarrow> length ys = n \<Longrightarrow>
     history_ok put a b (undo_times put now n h) \<and> jh_undoStack (undo_times put now n h) = xs \<and>
     jh_redoStack (undo_times put now n h) = jh_redoStack h @ rev ys"
proof (induction n arbitrary: h ys)
  case (Suc n)
  obtain zs tx where ys: "ys = zs @ [tx]" "length zs = n" using Suc.prems(3) by (cases ys rule: rev_cases) auto
  have ne: "jh_undoStack h \<noteq> []" using Suc.prems(2) ys by simp
  obtain h' where h': "undo_history put now h = (True, h')" "history_ok put a b h'"
      "jh_undoStack h' = butlast (jh_undoStack h)" "jh_redoStack h' = jh_redoStack h @ [last (jh_undoStack h)]"
    by (rule undo_keeps [OF Suc.prems(1) ne, of now])
  have st: "jh_undoStack h' = xs @ zs" using h'(3) Suc.prems(2) ys by (simp add: butlast_append)
  from Suc.IH [OF h'(2) st ys(2)] h' ys Suc.prems(2) show ?case by simp
qed simp

lemma redo_times_keeps:
  "history_ok put a b h \<Longrightarrow> jh_redoStack h = xs @ ys \<Longrightarrow> length ys = n \<Longrightarrow>
     history_ok put a b (redo_times put now n h) \<and> jh_redoStack (redo_times put now n h) = xs \<and>
     jh_undoStack (redo_times put now n h) = jh_undoStack h @ rev ys"
proof (induction n arbitrary: h ys)
  case (Suc n)
  obtain zs tx where ys: "ys = zs @ [tx]" "length zs = n" using Suc.prems(3) by (cases ys rule: rev_cases) auto
  have ne: "jh_redoStack h \<noteq> []" using Suc.prems(2) ys by simp
  obtain h' where h': "redo_history put now h = (True, h')" "history_ok put a b h'"
      "jh_redoStack h' = butlast (jh_redoStack h)" "jh_undoStack h' = jh_undoStack h @ [last (jh_redoStack h)]"
    by (rule redo_keeps [OF Suc.prems(1) ne, of now])
  have st: "jh_redoStack h' = xs @ zs" using h'(3) Suc.prems(2) ys by (simp add: butlast_append)
  from Suc.IH [OF h'(2) st ys(2)] h' ys Suc.prems(2) show ?case by simp
qed simp

lemma leads_determines: "leads a txs v \<Longrightarrow> leads a txs w \<Longrightarrow> v = w"
  by (induction txs arbitrary: a) auto

text \<open>Undoing everything gives the first text back, and redoing as often the last one.\<close>

lemma undo_all_redo_all:
  assumes "history_ok put a b h"
  defines "n \<equiv> length (jh_undoStack h)"
  shows "jh_value (undo_times put now n h) = a"
    and "jh_value (redo_times put now n (undo_times put now n h)) = jh_value h"
    and "jh_undoStack (redo_times put now n (undo_times put now n h)) = jh_undoStack h"
    and "jh_redoStack (redo_times put now n (undo_times put now n h)) = jh_redoStack h"
proof -
  have u: "history_ok put a b (undo_times put now n h) \<and> jh_undoStack (undo_times put now n h) = [] \<and>
      jh_redoStack (undo_times put now n h) = jh_redoStack h @ rev (jh_undoStack h)"
    by (rule undo_times_keeps [OF assms(1)]) (simp_all add: n_def)
  then have ok: "history_ok put a b (undo_times put now n h)" and st: "jh_redoStack (undo_times put now n h) = jh_redoStack h @ rev (jh_undoStack h)"
    by auto
  from u show "jh_value (undo_times put now n h) = a" by (auto simp: history_ok_def)
  note r = redo_times_keeps [OF ok st, of n now]
  from r u show "jh_undoStack (redo_times put now n (undo_times put now n h)) = jh_undoStack h"
    "jh_redoStack (redo_times put now n (undo_times put now n h)) = jh_redoStack h" by (auto simp: n_def)
  with r u assms(1) show "jh_value (redo_times put now n (undo_times put now n h)) = jh_value h"
    by (auto simp: history_ok_def n_def intro: leads_determines)
qed

end
