(* ===== verification/Conflict_Properties.thy ===== *)
theory Conflict_Properties
  imports Merge_Rebuild Joint_History "HOL-Library.Code_Target_Nat"
begin

text \<open>
  The properties of the conflict resolver: the merge model of a file and the history of its editor. Each
  is stated for every history of events that starts in the initial state.
\<close>

section \<open>Concrete inputs\<close>

text \<open>A comparison that finds one conflict over the whole file.\<close>

definition demo_diff :: diff3 where
  "demo_diff ours base theirs = [RawConflict 0 (length ours) ours 0 (length base) base 0 (length theirs) theirs]"

definition demo_line :: "string \<Rightarrow> js_text" where
  "demo_line s = lit s @ [LF]"

definition demo_options :: create_options where
  "demo_options =
     \<lparr>co_baseContent = [], co_basePresent = False, co_oursContent = demo_line ''a'', co_oursPresent = True,
      co_theirsContent = demo_line ''b'', co_theirsPresent = True, co_worktreeContent = demo_line ''a''\<rparr>"

definition demo_model :: merge_model where
  "demo_model = createConflictMergeModel demo_diff demo_options"

definition demo_region :: merge_region where
  "demo_region =
     \<lparr>sr_id = ''conflict-1'', sr_index = 1, sr_stable = False, sr_oursTokens = [[0x61, LF]],
      sr_oursRange = \<lparr>lr_start = 1, lr_end = 1\<rparr>, sr_theirsTokens = [[0x62, LF]], sr_theirsRange = \<lparr>lr_start = 1, lr_end = 1\<rparr>,
      sr_baseTokens = [], sr_baseRange = \<lparr>lr_start = 0, lr_end = 0\<rparr>, sr_stableSource = None,
      mr_mapping = \<lparr>rm_confidence = Exact, rm_resultRange = Some \<lparr>lr_start = 1, lr_end = 1\<rparr>,
        rm_resultOffset = Some \<lparr>or_start = 0, or_end = 2\<rparr>, rm_hasConflictMarkers = False, rm_markerStyle = None\<rparr>,
      mr_decision = pending_decision\<rparr>"

lemma demo_regions: "mm_regions demo_model = [demo_region]"
  by code_simp

lemma demo_accepted: "\<exists>model'. acceptRegionSide demo_model ''conflict-1'' Theirs = Inr model'"
  by (simp add: acceptRegionSide_def decide_region_def decidable_region_def find_region_def demo_regions demo_region_def
      replaceRegionTextInResult_def)

lemma demo_clean: "list_all clean_region (extractSourceRegions (mm_regions demo_model))"
  by (simp add: demo_regions demo_region_def extractSourceRegions_def source_region.truncate_def clean_region_def clean_line_def
      lf_line_code plain_line_def is_any_marker_def is_marker_def lit_def starts_with_def
      trim_end_def unit_space_def)

lemma demo_no_bom: "\<not> detectBOM (wp_previewText (previewRebuildClean demo_model))"
  by (simp add: previewRebuildClean_def preview_of_def demo_regions demo_region_def marked_text_def detectBOM_def lit_def)

section \<open>The merge model of a file\<close>

text \<open>The decision of a conflict after one of its sides was accepted.\<close>

definition side_decision :: "side \<Rightarrow> decision_state" where
  "side_decision s =
     \<lparr>ds_ours = (if s = Ours then Accepted else Ignored), ds_theirs = (if s = Theirs then Accepted else Ignored),
      ds_bothOrder = None, ds_review = Reviewed\<rparr>"

text \<open>C13. The merge model keeps its invariant: after every history of decisions, whole-file actions and manual
  edits the regions have distinct ids, a conflict has a place in the result text only if the lines there are a
  marker block with its sides or one of its own texts, no two places overlap, and the readiness shown is the
  one computed from the present regions and text. This holds for every comparison function.\<close>

theorem conflict_places: "model_ok (run_events merge_step (createConflictMergeModel diff3MergeRegions opts) es)"
  by (rule reachable_model_ok)

text \<open>C5. Accepting a side of a conflict replaces exactly the lines of that conflict by the lines of the side: what
  stands before and after it in the result text is untouched, the source regions stay what they were, the decision of
  the conflict becomes the accepted side, reviewed, and every other region keeps its decision, except that a conflict
  that was not reviewed and has lost its exact place is marked for review.\<close>

theorem accept_replaces_region:
  assumes "model = run_events merge_step (createConflictMergeModel diff3MergeRegions opts) es"
    and "acceptRegionSide model i s = Inr model'"
  shows "(\<exists>r c. r \<in> set (mm_regions model) \<and> sr_id r = i \<and> \<not> sr_stable r \<and> place_of r = Some c \<and>
      mm_resultText model =
        concat (take (lr_start c - 1) (tokenizeLosslessLines (mm_resultText model))) @
        lines_of (tokenizeLosslessLines (mm_resultText model)) c @
        concat (drop (lr_end c) (tokenizeLosslessLines (mm_resultText model))) \<and>
      mm_resultText model' =
        concat (take (lr_start c - 1) (tokenizeLosslessLines (mm_resultText model))) @
        concat (if s = Ours then sr_oursTokens r else sr_theirsTokens r) @
        concat (drop (lr_end c) (tokenizeLosslessLines (mm_resultText model)))) \<and>
    extractSourceRegions (mm_regions model') = extractSourceRegions (mm_regions model) \<and>
    (\<forall>r \<in> set (mm_regions model). \<forall>m \<in> set (mm_regions model'). sr_id m = sr_id r \<longrightarrow>
      kept_decision (if sr_id r = i then side_decision s else mr_decision r) m)"
proof (intro conjI ballI impI)
  have ok: "model_ok model" by (simp add: assms(1) reachable_model_ok)
  note dec = assms(2) [unfolded acceptRegionSide_def side_decision_def [symmetric]]
  show "\<exists>r c. r \<in> set (mm_regions model) \<and> sr_id r = i \<and> \<not> sr_stable r \<and> place_of r = Some c \<and>
      mm_resultText model =
        concat (take (lr_start c - 1) (tokenizeLosslessLines (mm_resultText model))) @
        lines_of (tokenizeLosslessLines (mm_resultText model)) c @
        concat (drop (lr_end c) (tokenizeLosslessLines (mm_resultText model))) \<and>
      mm_resultText model' =
        concat (take (lr_start c - 1) (tokenizeLosslessLines (mm_resultText model))) @
        concat (if s = Ours then sr_oursTokens r else sr_theirsTokens r) @
        concat (drop (lr_end c) (tokenizeLosslessLines (mm_resultText model)))"
    by (rule decide_region_text [OF ok dec], intro exI conjI)
  show "extractSourceRegions (mm_regions model') = extractSourceRegions (mm_regions model)"
    using decide_region_decisions(1) [OF ok dec] by (simp add: extractSourceRegions_def)
  show "kept_decision (if sr_id r = i then side_decision s else mr_decision r) m"
    if "r \<in> set (mm_regions model)" "m \<in> set (mm_regions model')" "sr_id m = sr_id r" for r m
    by (rule decide_region_decisions(2) [OF ok dec that])
qed

theorem accept_replaces_region_witness:
  "\<exists>model'. acceptRegionSide demo_model ''conflict-1'' Theirs = Inr model' \<and>
     extractSourceRegions (mm_regions model') = extractSourceRegions (mm_regions demo_model)"
  using demo_accepted accept_replaces_region [of demo_model demo_diff demo_options "[]" "''conflict-1''" Theirs]
  by (auto simp: demo_model_def)

text \<open>C14. Rebuilding a file with clean conflict markers can always be confirmed on the model it was previewed on, and the
  parser reads back what the rebuild wrote: every conflict is mapped exactly onto a marker block of the new text that
  holds the lines of its sides. The lines of the sources end with a line feed and none of them is a marker line, and
  the rebuilt text does not begin with a byte order mark.\<close>

theorem rebuild_reads_back:
  assumes "model = run_events merge_step (createConflictMergeModel diff3MergeRegions opts) es"
    and "list_all clean_region (extractSourceRegions (mm_regions model))"
    and "\<not> detectBOM (wp_previewText (previewRebuildClean model))"
  shows "\<exists>model'. confirmWholeFileAction model (previewRebuildClean model) = Inr model' \<and>
    (\<forall>m \<in> set (mm_regions model'). \<not> sr_stable m \<longrightarrow>
       (\<exists>b \<in> set (parseResultMarkerBlocks (mm_resultText model')).
          mr_mapping m = block_mapping b \<and> block_matches b (source_region.truncate m)))"
proof -
  have ok: "model_ok model" by (simp add: assms(1) reachable_model_ok)
  obtain model' where conf: "confirmWholeFileAction model (previewRebuildClean model) = Inr model'"
    by (simp add: confirmWholeFileAction_def previewRebuildClean_def preview_of_def)
  from rebuild_maps_all [OF ok assms(2,3) conf] conf show ?thesis by blast
qed

theorem rebuild_reads_back_witness:
  "\<exists>model'. confirmWholeFileAction demo_model (previewRebuildClean demo_model) = Inr model' \<and>
    (\<forall>m \<in> set (mm_regions model'). \<not> sr_stable m \<longrightarrow>
       (\<exists>b \<in> set (parseResultMarkerBlocks (mm_resultText model')).
          mr_mapping m = block_mapping b \<and> block_matches b (source_region.truncate m)))"
  by (rule rebuild_reads_back [of _ demo_diff demo_options "[]"]) (simp_all add: demo_clean demo_no_bom demo_model_def [symmetric])

text \<open>C24. The resolver reports a file as ready exactly if every conflict is decided and, where its lines still hold
  markers, reviewed, no ambiguous conflict is left without review, and marker blocks remain in the text only where
  every conflict was reviewed.\<close>

theorem merge_ready_iff:
  assumes "model = run_events merge_step (createConflictMergeModel diff3MergeRegions opts) es"
  shows "rd_isReady (mm_readiness model) \<longleftrightarrow>
     (\<forall>m \<in> set (mm_regions model). \<not> sr_stable m \<longrightarrow> region_resolved m \<and> \<not> open_ambiguity m) \<and>
     (parseResultMarkerBlocks (mm_resultText model) = [] \<or>
      (\<forall>m \<in> set (mm_regions model). \<not> sr_stable m \<longrightarrow> ds_review (mr_decision m) = Reviewed))"
proof -
  have "mm_readiness model = computeConflictReadiness (mm_regions model) (mm_resultText model)"
    using reachable_model_ok [of diff3MergeRegions opts es] by (simp add: assms model_ok_def)
  then show ?thesis by (simp add: ready_iff)
qed

theorem merge_ready_iff_witness: "\<not> rd_isReady (mm_readiness demo_model)"
  using merge_ready_iff [of demo_model demo_diff demo_options "[]"]
  by (simp add: demo_model_def [symmetric] demo_regions demo_region_def region_resolved_def decided_def pending_decision_def)

section \<open>The history of the editor\<close>





end
