(* ===== verification/Draft_Model.thy ===== *)
theory Draft_Model
  imports Merge_Actions Joint_History Launch_Journal
begin

text \<open>
  Drafts of conflict resolutions: \<^verbatim>\<open>conflict-draft-types.ts\<close>, \<^verbatim>\<open>conflict-draft-key.ts\<close>,
  \<^verbatim>\<open>conflict-draft-capacity.ts\<close> and \<^verbatim>\<open>conflict-draft-transitions.ts\<close> of \<^verbatim>\<open>packages/ui/src/lib\<close>, with the
  snapshot types of \<^verbatim>\<open>api/client.ts\<close> and the comparison of server URLs of \<^verbatim>\<open>api/server-config.ts\<close>.
  A draft object that an operation changes in place is passed and returned. Identifiers are strings,
  texts are code units, sizes are bytes of the UTF-8 encoding; times and UUIDs are arguments.
\<close>

section \<open>Data\<close>

record owner_scope =
  os_profileId :: string
  os_generation :: nat
  os_serverUrl :: string
  os_configuredRoot :: "string option"
  os_project :: string
  os_worktreePath :: "string option"
  os_root :: "string option"

record target_identity =
  ti_conflictId :: string
  ti_path :: string
  ti_snapshotVersion :: string

record stage_descriptor =
  sd_stage :: nat
  sd_path :: "string option"
  sd_oid :: "string option"
  sd_mode :: nat
  sd_byteSize :: nat
  sd_kind :: string
  sd_textTokens :: "js_text list option"

text \<open>The code also handles a missing side, so all stages are optional.\<close>

record conflict_stages =
  cs_base :: "stage_descriptor option"
  cs_ours :: "stage_descriptor option"
  cs_theirs :: "stage_descriptor option"

record worktree_descriptor =
  wd_exists :: bool
  wd_kind :: string
  wd_mode :: nat
  wd_byteLength :: nat
  wd_textTokens :: "js_text list option"
  wd_hasConflictMarkers :: bool
  wd_isDirtyVsStages :: bool

record effective_attributes =
  ea_eol :: "string option"
  ea_encoding :: "string option"
  ea_ident :: bool
  ea_filterQualified :: bool

record captured_authority =
  ca_repositoryRoot :: string
  ca_worktreeRoot :: string
  ca_fullIndexFingerprint :: string
  ca_effectiveAttributes :: effective_attributes

record conflict_snapshot =
  sn_conflictId :: string
  sn_path :: string
  sn_repositoryRoot :: string
  sn_worktreeRoot :: string
  sn_snapshotVersion :: string
  sn_fullIndexFingerprint :: string
  sn_status :: string
  sn_unsupportedReason :: "string option"
  sn_stages :: conflict_stages
  sn_worktree :: worktree_descriptor
  sn_effectiveAttributes :: effective_attributes

datatype resolve_action =
    ReviewedText "js_text list" "string option" "bool option"
  | IndexSide side nat
  | DeleteFile

datatype resolve_outcome =
    OutcomeApplied
  | OutcomeStale string
  | OutcomeUnsupported string
  | OutcomeBusy string
  | FailedBeforeWrite string
  | WorktreeChangedStageFailed string
  | OutcomeUnknown string

record memory_metrics =
  mt_sourceBytes :: nat
  mt_resultBytes :: nat
  mt_historyBytes :: nat
  mt_recoveryBytes :: nat
  mt_totalBytes :: nat

record history_entry =
  he_text :: js_text
  he_timestamp :: nat
  he_decisions :: "decision_state js_record option"
  he_description :: "string option"

record resolve_attempt =
  ra_attemptId :: string
  ra_submittedRevision :: nat
  ra_submittedTokens :: "js_text list"
  ra_action :: resolve_action
  ra_dispatchedAt :: nat

record stage_role_labels =
  rl_base :: "string option"
  rl_ours :: string
  rl_theirs :: string

record conflict_draft =
  dr_id :: string
  dr_scope :: owner_scope
  dr_target :: target_identity
  dr_authority :: captured_authority
  dr_stages :: conflict_stages
  dr_worktree :: worktree_descriptor
  dr_status :: string
  dr_unsupportedReason :: "string option"
  dr_stageRoleLabels :: "stage_role_labels option"
  dr_initialResult :: js_text
  dr_result :: js_text
  dr_resultRevision :: nat
  dr_isDirty :: bool
  dr_isResolving :: bool
  dr_isApplied :: bool
  dr_appliedResult :: "js_text option"
  dr_inFlightAttempt :: "resolve_attempt option"
  dr_isRecovery :: bool
  dr_requiresReview :: bool
  dr_recoveryText :: "js_text option"
  dr_recoveryReason :: "string option"
  dr_past :: "history_entry list"
  dr_future :: "history_entry list"
  dr_canCoalesceHistory :: bool
  dr_metrics :: memory_metrics
  dr_mergeModel :: "merge_model option"
  dr_jointHistory :: "joint_snapshot option"
  dr_createdAt :: nat
  dr_updatedAt :: nat

section \<open>Keys and owners\<close>

definition or_empty :: "string option \<Rightarrow> string" where
  "or_empty s = (case s of Some t \<Rightarrow> t | None \<Rightarrow> '''')"

definition createDraftKey :: "owner_scope \<Rightarrow> conflict_snapshot \<Rightarrow> string" where
  "createDraftKey scope snap =
     stringify (JsArr [JsStr (os_profileId scope), JsNat (os_generation scope), JsStr (os_serverUrl scope),
       JsStr (or_empty (os_configuredRoot scope)), JsStr (os_project scope), JsStr (or_empty (os_worktreePath scope)),
       JsStr (or_empty (os_root scope)), JsStr (sn_repositoryRoot snap), JsStr (sn_worktreeRoot snap),
       JsStr (sn_fullIndexFingerprint snap), JsStr (sn_conflictId snap), JsStr (sn_snapshotVersion snap)])"

definition matchesOwnerScope :: "owner_scope \<Rightarrow> owner_scope \<Rightarrow> bool" where
  "matchesOwnerScope a b \<longleftrightarrow>
     os_profileId a = os_profileId b \<and> os_generation a = os_generation b \<and> os_serverUrl a = os_serverUrl b \<and>
     or_empty (os_configuredRoot a) = or_empty (os_configuredRoot b) \<and> os_project a = os_project b \<and>
     or_empty (os_worktreePath a) = or_empty (os_worktreePath b) \<and> or_empty (os_root a) = or_empty (os_root b)"

definition isOwnerActive :: "owner_scope \<Rightarrow> string option \<Rightarrow> nat option \<Rightarrow> bool" where
  "isOwnerActive scope activeProfileId activeGeneration =
     (case (activeProfileId, activeGeneration) of
        (Some p, Some g) \<Rightarrow> p \<noteq> '''' \<and> os_profileId scope = p \<and> os_generation scope = g
      | _ \<Rightarrow> False)"

text \<open>Server URLs are compared after normalization; the regular expressions are written out.\<close>

definition ascii_letter :: "char \<Rightarrow> bool" where
  "ascii_letter c = (let n = (of_char c :: nat) in 65 \<le> n \<and> n \<le> 90 \<or> 97 \<le> n \<and> n \<le> 122)"

definition ascii_digit :: "char \<Rightarrow> bool" where
  "ascii_digit c = (let n = (of_char c :: nat) in 48 \<le> n \<and> n \<le> 57)"

definition lower_char :: "char \<Rightarrow> char" where
  "lower_char c = (let n = (of_char c :: nat) in if 65 \<le> n \<and> n \<le> 90 then char_of (n + 32) else c)"

definition has_http_scheme :: "string \<Rightarrow> bool" where
  "has_http_scheme s = (starts_with (map lower_char s) ''http://'' \<or> starts_with (map lower_char s) ''https://'')"

definition port_follows :: "string \<Rightarrow> bool" where
  "port_follows s =
     (case s of
        c # t \<Rightarrow>
          c = CHR '':'' \<and> takeWhile ascii_digit t \<noteq> [] \<and>
          (case dropWhile ascii_digit t of [] \<Rightarrow> True | d # _ \<Rightarrow> d \<in> {CHR ''/'', CHR ''?'', CHR ''#''})
      | [] \<Rightarrow> False)"

definition has_port :: "string \<Rightarrow> bool" where
  "has_port s =
     (let host = (\<lambda>c. ascii_letter c \<or> ascii_digit c \<or> c = CHR ''.'' \<or> c = CHR ''-'');
          hex = (\<lambda>c. ascii_digit c \<or> lower_char c \<in> set ''abcdef:'')
      in takeWhile host s \<noteq> [] \<and> port_follows (dropWhile host s) \<or>
         (case s of
            c # t \<Rightarrow> c = CHR ''['' \<and> takeWhile hex t \<noteq> [] \<and>
                     (case dropWhile hex t of d # u \<Rightarrow> d = CHR '']'' \<and> port_follows u | [] \<Rightarrow> False)
          | [] \<Rightarrow> False))"

definition hasUnsupportedUrlScheme :: "string \<Rightarrow> bool" where
  "hasUnsupportedUrlScheme url =
     (let s = js_trim url;
          scheme = (\<lambda>c. ascii_letter c \<or> ascii_digit c \<or> c \<in> {CHR ''+'', CHR ''.'', CHR ''-''})
      in (case s of c # _ \<Rightarrow> ascii_letter c | [] \<Rightarrow> False) \<and>
         (case dropWhile scheme s of c # _ \<Rightarrow> c = CHR '':'' | [] \<Rightarrow> False) \<and>
         \<not> has_http_scheme s \<and> \<not> has_port s)"

definition normalizeServerUrl :: "string \<Rightarrow> string" where
  "normalizeServerUrl url =
     (let s = js_trim url in
      if hasUnsupportedUrlScheme s then ''''
      else
        let t = rev (dropWhile (\<lambda>c. c = CHR ''/'') (rev s))
        in if t \<noteq> '''' \<and> \<not> has_http_scheme t then ''http://'' @ t else t)"

definition haveServerUrlsChanged :: "string \<Rightarrow> string \<Rightarrow> bool" where
  "haveServerUrlsChanged previousUrl nextUrl \<longleftrightarrow> normalizeServerUrl previousUrl \<noteq> normalizeServerUrl nextUrl"

section \<open>Capacity\<close>

definition DEFAULT_MAX_TOTAL_BYTES :: nat where "DEFAULT_MAX_TOTAL_BYTES = 10 * 1024 * 1024"
definition DEFAULT_MAX_DRAFT_BYTES :: nat where "DEFAULT_MAX_DRAFT_BYTES = 2 * 1024 * 1024"
definition DEFAULT_MAX_DIRTY_DRAFTS :: nat where "DEFAULT_MAX_DIRTY_DRAFTS = 10"

definition tokens_bytes :: "js_text list option \<Rightarrow> nat" where
  "tokens_bytes ts = (case ts of Some ts \<Rightarrow> sum_list (map byte_length ts) | None \<Rightarrow> 0)"

definition stage_bytes :: "stage_descriptor option \<Rightarrow> nat" where
  "stage_bytes s = (case s of Some d \<Rightarrow> tokens_bytes (sd_textTokens d) | None \<Rightarrow> 0)"

definition measureSourceBytes :: "conflict_stages \<Rightarrow> worktree_descriptor \<Rightarrow> nat" where
  "measureSourceBytes stages worktree =
     stage_bytes (cs_base stages) + stage_bytes (cs_ours stages) + stage_bytes (cs_theirs stages) +
     tokens_bytes (wd_textTokens worktree)"

definition measureHistoryBytes :: "history_entry list \<Rightarrow> nat" where
  "measureHistoryBytes es = sum_list (map (\<lambda>e. byte_length (he_text e)) es)"

definition calculateDraftMetrics ::
  "nat \<Rightarrow> js_text \<Rightarrow> history_entry list \<Rightarrow> history_entry list \<Rightarrow> js_text option \<Rightarrow> memory_metrics"
where
  "calculateDraftMetrics sourceBytes result past future recoveryText =
     (let resultBytes = byte_length result;
          historyBytes = measureHistoryBytes past + measureHistoryBytes future;
          recoveryBytes = (case recoveryText of Some t \<Rightarrow> byte_length t | None \<Rightarrow> 0)
      in \<lparr>mt_sourceBytes = sourceBytes, mt_resultBytes = resultBytes, mt_historyBytes = historyBytes,
          mt_recoveryBytes = recoveryBytes, mt_totalBytes = sourceBytes + resultBytes + historyBytes + recoveryBytes\<rparr>)"

datatype refusal = DraftTooLarge | TooManyDirty | TotalExceeded

definition busy_draft :: "conflict_draft \<Rightarrow> bool" where
  "busy_draft d \<longleftrightarrow> dr_isDirty d \<or> dr_isResolving d \<or> dr_isRecovery d"

definition clean_candidate :: "conflict_draft \<Rightarrow> bool" where
  "clean_candidate d \<longleftrightarrow>
     \<not> dr_isDirty d \<and> \<not> dr_isResolving d \<and> \<not> dr_isRecovery d \<and>
     (dr_isApplied d \<or> dr_past d = [] \<and> dr_future d = [])"

text \<open>The loop that collects candidates until the new draft fits. The running total is an integer.\<close>

fun evict_until :: "conflict_draft list \<Rightarrow> int \<Rightarrow> int \<Rightarrow> int \<Rightarrow> string list \<Rightarrow> string list option" where
  "evict_until [] held new maxTotal ids = None"
| "evict_until (d # ds) held new maxTotal ids =
     (let rest = held - int (mt_totalBytes (dr_metrics d)); ids' = ids @ [dr_id d]
      in if rest + new \<le> maxTotal then Some ids' else evict_until ds rest new maxTotal ids')"

definition total_bytes :: "conflict_draft list \<Rightarrow> nat" where
  "total_bytes ds = sum_list (map (\<lambda>d. mt_totalBytes (dr_metrics d)) ds)"

definition canAdmitDraft :: "conflict_draft list \<Rightarrow> nat \<Rightarrow> nat \<Rightarrow> nat \<Rightarrow> nat \<Rightarrow> refusal + string list" where
  "canAdmitDraft existing newBytes maxTotal maxDraft maxDirty =
     (if newBytes > maxDraft then Inl DraftTooLarge
      else if length (filter busy_draft existing) \<ge> maxDirty then Inl TooManyDirty
      else if total_bytes existing + newBytes \<le> maxTotal then Inr []
      else
        (case evict_until (filter clean_candidate existing) (int (total_bytes existing)) (int newBytes) (int maxTotal) [] of
           Some ids \<Rightarrow> Inr ids
         | None \<Rightarrow> Inl TotalExceeded))"

definition checkProspectiveEditGrowth ::
  "conflict_draft \<Rightarrow> nat \<Rightarrow> js_text \<Rightarrow> nat \<Rightarrow> nat \<Rightarrow> bool \<Rightarrow> refusal + memory_metrics"
where
  "checkProspectiveEditGrowth draft totalRegistryBytes newText maxTotal maxDraft willCreateHistoryEntry =
     (let m = dr_metrics draft;
          newResultBytes = byte_length newText;
          addingHistoryBytes = (if willCreateHistoryEntry \<and> dr_result draft \<noteq> newText then mt_resultBytes m else 0);
          projectedHistoryBytes = mt_historyBytes m + addingHistoryBytes;
          projectedDraftBytes = mt_sourceBytes m + newResultBytes + projectedHistoryBytes + mt_recoveryBytes m;
          budgetDraftBytes = projectedDraftBytes + newResultBytes
      in if budgetDraftBytes > maxDraft then Inl DraftTooLarge
         else if int totalRegistryBytes + (int budgetDraftBytes - int (mt_totalBytes m)) > int maxTotal then Inl TotalExceeded
         else Inr \<lparr>mt_sourceBytes = mt_sourceBytes m, mt_resultBytes = newResultBytes,
                   mt_historyBytes = projectedHistoryBytes, mt_recoveryBytes = mt_recoveryBytes m,
                   mt_totalBytes = projectedDraftBytes\<rparr>)"

section \<open>Transitions of a draft\<close>

definition joined :: "js_text list option \<Rightarrow> js_text option" where
  "joined ts = map_option concat ts"

definition stage_join :: "stage_descriptor option \<Rightarrow> js_text option" where
  "stage_join s = (case s of Some d \<Rightarrow> joined (sd_textTokens d) | None \<Rightarrow> None)"

definition initial_text :: "conflict_snapshot \<Rightarrow> js_text" where
  "initial_text snap =
     (case joined (wd_textTokens (sn_worktree snap)) of
        Some t \<Rightarrow> t
      | None \<Rightarrow> (case stage_join (cs_ours (sn_stages snap)) of Some t \<Rightarrow> t | None \<Rightarrow> []))"

definition text_or_empty :: "js_text option \<Rightarrow> js_text" where
  "text_or_empty t = (case t of Some s \<Rightarrow> s | None \<Rightarrow> [])"

definition snapshot_model :: "diff3 \<Rightarrow> conflict_snapshot \<Rightarrow> merge_model option" where
  "snapshot_model diff3MergeRegions snap =
     (let st = sn_stages snap in
      if cs_ours st \<noteq> None \<or> cs_theirs st \<noteq> None \<or> cs_base st \<noteq> None
      then Some (createConflictMergeModel diff3MergeRegions
             \<lparr>co_baseContent = text_or_empty (stage_join (cs_base st)), co_basePresent = (cs_base st \<noteq> None),
              co_oursContent = text_or_empty (stage_join (cs_ours st)), co_oursPresent = (cs_ours st \<noteq> None),
              co_theirsContent = text_or_empty (stage_join (cs_theirs st)), co_theirsPresent = (cs_theirs st \<noteq> None),
              co_worktreeContent = initial_text snap\<rparr>)
      else None)"

definition createInitialDraft ::
  "diff3 \<Rightarrow> string \<Rightarrow> owner_scope \<Rightarrow> conflict_snapshot \<Rightarrow> stage_role_labels option \<Rightarrow> nat \<Rightarrow> conflict_draft"
where
  "createInitialDraft diff3MergeRegions key scope snap labels now =
     \<lparr>dr_id = key, dr_scope = scope,
      dr_target = \<lparr>ti_conflictId = sn_conflictId snap, ti_path = sn_path snap, ti_snapshotVersion = sn_snapshotVersion snap\<rparr>,
      dr_authority = \<lparr>ca_repositoryRoot = sn_repositoryRoot snap, ca_worktreeRoot = sn_worktreeRoot snap,
        ca_fullIndexFingerprint = sn_fullIndexFingerprint snap, ca_effectiveAttributes = sn_effectiveAttributes snap\<rparr>,
      dr_stages = sn_stages snap, dr_worktree = sn_worktree snap, dr_status = sn_status snap,
      dr_unsupportedReason = sn_unsupportedReason snap, dr_stageRoleLabels = labels,
      dr_initialResult = initial_text snap, dr_result = initial_text snap, dr_resultRevision = 1,
      dr_isDirty = False, dr_isResolving = False, dr_isApplied = False, dr_appliedResult = None,
      dr_inFlightAttempt = None, dr_isRecovery = False, dr_requiresReview = False,
      dr_recoveryText = None, dr_recoveryReason = None, dr_past = [], dr_future = [], dr_canCoalesceHistory = False,
      dr_metrics = calculateDraftMetrics (measureSourceBytes (sn_stages snap) (sn_worktree snap)) (initial_text snap) [] [] None,
      dr_mergeModel = snapshot_model diff3MergeRegions snap, dr_jointHistory = None,
      dr_createdAt = now, dr_updatedAt = now\<rparr>"

definition measured :: "conflict_draft \<Rightarrow> conflict_draft" where
  "measured d = d\<lparr>dr_metrics :=
     calculateDraftMetrics (mt_sourceBytes (dr_metrics d)) (dr_result d) (dr_past d) (dr_future d) (dr_recoveryText d)\<rparr>"

definition retainRecoveryResult :: "conflict_draft \<Rightarrow> conflict_draft" where
  "retainRecoveryResult d =
     (let d1 = (if dr_isApplied d \<and> dr_isDirty d
                then d\<lparr>dr_isRecovery := True,
                       dr_recoveryReason := Some ''Previously applied draft was edited; refresh and import before another Apply''\<rparr>
                else d)
      in if dr_isRecovery d1 then d1\<lparr>dr_recoveryText := Some (dr_result d1)\<rparr> else d1)"

definition reference_result :: "conflict_draft \<Rightarrow> js_text" where
  "reference_result d = (case dr_appliedResult d of Some t \<Rightarrow> t | None \<Rightarrow> dr_initialResult d)"

datatype draft_error =
    DraftNotFound
  | InRecovery
  | CapacityRefused refusal
  | CannotModify
  | NoMergeModel
  | MergeFailed merge_error
  | PreviewMismatch
  | ModifiedAfterPreview
  | SourceNotInRecovery
  | FreshSnapshotRequired
  | DifferentTarget
  | SameSnapshot
  | FreshAlreadyEdited

definition coalescing :: "conflict_draft \<Rightarrow> nat \<Rightarrow> bool" where
  "coalescing d now \<longleftrightarrow>
     dr_canCoalesceHistory d \<and> dr_past d \<noteq> [] \<and> int now - int (he_timestamp (last (dr_past d))) \<le> 500"

definition text_entry :: "js_text \<Rightarrow> nat \<Rightarrow> decision_state js_record option \<Rightarrow> string option \<Rightarrow> history_entry" where
  "text_entry t now ds desc = \<lparr>he_text = t, he_timestamp = now, he_decisions = ds, he_description = desc\<rparr>"

definition model_decisions :: "conflict_draft \<Rightarrow> decision_state js_record option" where
  "model_decisions d = map_option extractModelDecisions (dr_mergeModel d)"

definition next_past :: "conflict_draft \<Rightarrow> nat \<Rightarrow> history_entry list" where
  "next_past draft now =
     (if coalescing draft now
      then butlast (dr_past draft) @ [(last (dr_past draft))\<lparr>he_timestamp := now\<rparr>]
      else dr_past draft @ [text_entry (dr_result draft) now (model_decisions draft) None])"

definition updated_draft :: "conflict_draft \<Rightarrow> js_text \<Rightarrow> nat \<Rightarrow> conflict_draft" where
  "updated_draft draft newText now =
     (measured (retainRecoveryResult
        (draft\<lparr>dr_past := next_past draft now, dr_future := [], dr_canCoalesceHistory := \<not> dr_isApplied draft,
               dr_result := newText, dr_resultRevision := dr_resultRevision draft + 1,
               dr_isDirty := (newText \<noteq> reference_result draft)\<rparr>)))
       \<lparr>dr_updatedAt := now,
        dr_mergeModel := map_option (\<lambda>m. applyManualResultTextEdit m newText) (dr_mergeModel draft)\<rparr>"

definition applyDraftUpdate :: "conflict_draft \<Rightarrow> nat \<Rightarrow> js_text \<Rightarrow> nat \<Rightarrow> (draft_error + unit) \<times> conflict_draft" where
  "applyDraftUpdate draft totalRegistryBytes newText now =
     (if dr_isRecovery draft then (Inl InRecovery, draft)
      else if dr_result draft = newText then (Inr (), draft)
      else
        (case checkProspectiveEditGrowth draft totalRegistryBytes newText DEFAULT_MAX_TOTAL_BYTES DEFAULT_MAX_DRAFT_BYTES
                (\<not> coalescing draft now) of
           Inl e \<Rightarrow> (Inl (CapacityRefused e), draft)
         | Inr _ \<Rightarrow> (Inr (), updated_draft draft newText now)))"

text \<open>The common body of undo and redo: \<open>e\<close> is the entry to go to.\<close>

definition undecided :: "decision_state \<Rightarrow> bool" where
  "undecided d \<longleftrightarrow> ds_ours d = PendingDecision \<and> ds_theirs d = PendingDecision \<and> ds_review d \<noteq> Reviewed"

definition has_decisions :: "merge_model option \<Rightarrow> bool" where
  "has_decisions model =
     (case model of Some m \<Rightarrow> list_ex (\<lambda>(k, x). \<not> undecided x) (extractModelDecisions m) | None \<Rightarrow> False)"

definition entered_model :: "history_entry \<Rightarrow> merge_model \<Rightarrow> merge_model" where
  "entered_model e m =
     (let m1 = applyManualResultTextEdit m (he_text e)
      in case he_decisions e of Some ds \<Rightarrow> restoreModelDecisions m1 ds | None \<Rightarrow> m1)"

definition go_to_entry :: "history_entry \<Rightarrow> nat \<Rightarrow> conflict_draft \<Rightarrow> conflict_draft" where
  "go_to_entry e now d =
     (let model = map_option (entered_model e) (dr_mergeModel d)
      in retainRecoveryResult
           ((measured (d\<lparr>dr_result := he_text e, dr_resultRevision := dr_resultRevision d + 1,
                          dr_canCoalesceHistory := False\<rparr>))
              \<lparr>dr_updatedAt := now, dr_mergeModel := model,
               dr_isDirty := (he_text e \<noteq> reference_result d \<or> has_decisions model)\<rparr>))"

definition applyDraftUndo :: "conflict_draft \<Rightarrow> nat \<Rightarrow> bool \<times> conflict_draft" where
  "applyDraftUndo d now =
     (if dr_past d = [] then (False, d)
      else
        (True, go_to_entry (last (dr_past d)) now
           (d\<lparr>dr_past := butlast (dr_past d),
              dr_future := dr_future d @ [text_entry (dr_result d) now (model_decisions d) None]\<rparr>)))"

definition applyDraftRedo :: "conflict_draft \<Rightarrow> nat \<Rightarrow> bool \<times> conflict_draft" where
  "applyDraftRedo d now =
     (if dr_future d = [] then (False, d)
      else
        (True, go_to_entry (last (dr_future d)) now
           (d\<lparr>dr_future := butlast (dr_future d),
              dr_past := dr_past d @ [text_entry (dr_result d) now (model_decisions d) None]\<rparr>)))"

datatype resolve_error = NeedsFreshSnapshot | AlreadyInFlight | NoSuchDraft

definition startResolveAttempt :: "conflict_draft \<Rightarrow> resolve_action \<Rightarrow> string \<Rightarrow> nat \<Rightarrow> resolve_error + (resolve_attempt \<times> conflict_draft)" where
  "startResolveAttempt d action uuid now =
     (if dr_isRecovery d \<or> dr_requiresReview d \<or> dr_isApplied d then Inl NeedsFreshSnapshot
      else if dr_isResolving d then Inl AlreadyInFlight
      else
        let attempt = \<lparr>ra_attemptId = uuid, ra_submittedRevision = dr_resultRevision d,
              ra_submittedTokens = (case action of ReviewedText ts _ _ \<Rightarrow> ts | _ \<Rightarrow> []),
              ra_action = action, ra_dispatchedAt = now\<rparr>
        in Inr (attempt, d\<lparr>dr_isResolving := True, dr_canCoalesceHistory := False, dr_inFlightAttempt := Some attempt\<rparr>))"

fun outcome_reason :: "resolve_outcome \<Rightarrow> string" where
  "outcome_reason OutcomeApplied = ''''"
| "outcome_reason (OutcomeStale r) = ''[stale] '' @ r"
| "outcome_reason (OutcomeUnsupported r) = ''[unsupported] '' @ r"
| "outcome_reason (OutcomeBusy r) = ''[busy] '' @ r"
| "outcome_reason (FailedBeforeWrite e) = ''[failedBeforeWrite] '' @ e"
| "outcome_reason (WorktreeChangedStageFailed e) = ''[worktreeChangedStageFailed] '' @ e"
| "outcome_reason (OutcomeUnknown e) = ''[outcomeUnknown] '' @ e"

definition is_reviewed_text :: "resolve_action \<Rightarrow> bool" where
  "is_reviewed_text a = (case a of ReviewedText _ _ _ \<Rightarrow> True | _ \<Rightarrow> False)"

definition completeResolveAttempt :: "conflict_draft \<Rightarrow> string \<Rightarrow> resolve_outcome \<Rightarrow> nat \<Rightarrow> conflict_draft" where
  "completeResolveAttempt d attemptId outcome now =
     (case dr_inFlightAttempt d of
        None \<Rightarrow> d
      | Some attempt \<Rightarrow>
          if ra_attemptId attempt \<noteq> attemptId then d
          else
            let d1 = d\<lparr>dr_isResolving := False, dr_canCoalesceHistory := False\<rparr>;
                d2 = (if outcome = OutcomeApplied
                      then
                        let submitted = (if is_reviewed_text (ra_action attempt) then concat (ra_submittedTokens attempt)
                                         else dr_result d1);
                            a1 = d1\<lparr>dr_appliedResult := Some submitted, dr_isApplied := True,
                                    dr_isDirty := (dr_result d1 \<noteq> submitted)\<rparr>
                        in if dr_isDirty a1
                           then a1\<lparr>dr_isRecovery := True, dr_recoveryText := Some (dr_result a1),
                                   dr_recoveryReason :=
                                     Some ''The submitted revision was applied; later typing remains unsent and requires fresh review''\<rparr>
                           else a1
                      else d1\<lparr>dr_isApplied := False, dr_isRecovery := True, dr_recoveryText := Some (dr_result d1),
                              dr_recoveryReason := Some (outcome_reason outcome)\<rparr>)
            in (measured (d2\<lparr>dr_inFlightAttempt := None\<rparr>))\<lparr>dr_updatedAt := now\<rparr>)"

end
