(* ===== verification/Draft_Store.thy ===== *)
theory Draft_Store
  imports Draft_Model
begin

text \<open>
  The registry of conflict drafts, class \<^verbatim>\<open>ConflictDraftRegistry\<close> of
  \<^verbatim>\<open>packages/ui/src/lib/conflict-draft-store.ts\<close>. A method returns its result and the new registry. The
  published snapshot holds references to the draft objects of the map, which are given by their keys;
  listeners are numbers, and \<open>dg_calls\<close> is the log of the calls of listeners.
\<close>

section \<open>State\<close>

record draft_view =
  dv_drafts :: "string list"
  dv_activeDraft :: "string option"
  dv_activeDraftKey :: "string option"
  dv_isPanelVisible :: bool

record draft_registry =
  dg_drafts :: "conflict_draft js_record"
  dg_activeDraftKey :: "string option"
  dg_isPanelVisible :: bool
  dg_listeners :: "nat list"
  dg_snapshot :: draft_view
  dg_calls :: "nat list"

definition new_registry :: draft_registry where
  "new_registry =
     \<lparr>dg_drafts = [], dg_activeDraftKey = None, dg_isPanelVisible = False, dg_listeners = [],
      dg_snapshot = \<lparr>dv_drafts = [], dv_activeDraft = None, dv_activeDraftKey = None, dv_isPanelVisible = False\<rparr>,
      dg_calls = []\<rparr>"

definition store_subscribe :: "draft_registry \<Rightarrow> nat \<Rightarrow> draft_registry" where
  "store_subscribe s l = s\<lparr>dg_listeners := (if l \<in> set (dg_listeners s) then dg_listeners s else dg_listeners s @ [l])\<rparr>"

definition store_unsubscribe :: "draft_registry \<Rightarrow> nat \<Rightarrow> draft_registry" where
  "store_unsubscribe s l = s\<lparr>dg_listeners := filter (\<lambda>k. k \<noteq> l) (dg_listeners s)\<rparr>"

definition current_view :: "draft_registry \<Rightarrow> draft_view" where
  "current_view s =
     \<lparr>dv_drafts = map fst (dg_drafts s),
      dv_activeDraft =
        (case dg_activeDraftKey s of
           Some k \<Rightarrow> if k \<noteq> '''' \<and> rec_get (dg_drafts s) k \<noteq> None then Some k else None
         | None \<Rightarrow> None),
      dv_activeDraftKey = dg_activeDraftKey s,
      dv_isPanelVisible = dg_isPanelVisible s\<rparr>"

definition store_notify :: "draft_registry \<Rightarrow> draft_registry" where
  "store_notify s = s\<lparr>dg_snapshot := current_view s, dg_calls := dg_calls s @ dg_listeners s\<rparr>"

definition with_draft :: "draft_registry \<Rightarrow> string \<Rightarrow> conflict_draft \<Rightarrow> draft_registry" where
  "with_draft s key d = s\<lparr>dg_drafts := rec_set key d (dg_drafts s)\<rparr>"

section \<open>Loading a snapshot\<close>

definition mark_recovery :: "string \<Rightarrow> conflict_draft \<Rightarrow> conflict_draft" where
  "mark_recovery reason d =
     measured (d\<lparr>dr_isRecovery := True, dr_recoveryText := Some (dr_result d), dr_recoveryReason := Some reason\<rparr>)"

definition map_drafts :: "(conflict_draft \<Rightarrow> conflict_draft) \<Rightarrow> draft_registry \<Rightarrow> draft_registry" where
  "map_drafts f s = s\<lparr>dg_drafts := map (\<lambda>(k, d). (k, f d)) (dg_drafts s)\<rparr>"

definition all_drafts :: "draft_registry \<Rightarrow> conflict_draft list" where
  "all_drafts s = map snd (dg_drafts s)"

definition outdated_by :: "owner_scope \<Rightarrow> conflict_snapshot \<Rightarrow> string \<Rightarrow> conflict_draft \<Rightarrow> bool" where
  "outdated_by scope snap key d \<longleftrightarrow>
     ti_conflictId (dr_target d) = sn_conflictId snap \<and> matchesOwnerScope (dr_scope d) scope \<and> dr_id d \<noteq> key \<and>
     busy_draft d"

definition loadSnapshot ::
  "diff3 \<Rightarrow> draft_registry \<Rightarrow> owner_scope \<Rightarrow> conflict_snapshot \<Rightarrow> stage_role_labels option \<Rightarrow> nat \<Rightarrow>
   (refusal + string) \<times> draft_registry"
where
  "loadSnapshot diff3MergeRegions s scope snap roleLabels now =
     (let key = createDraftKey scope snap in
      if rec_get (dg_drafts s) key \<noteq> None then (Inr key, s)
      else
        let stale = outdated_by scope snap key;
            s1 = map_drafts (\<lambda>d. if stale d
                   then mark_recovery ''Conflict snapshot changed; import into a fresh snapshot and review'' d else d) s;
            draft = createInitialDraft diff3MergeRegions key scope snap roleLabels now
        in case canAdmitDraft (all_drafts s1) (mt_totalBytes (dr_metrics draft))
                  DEFAULT_MAX_TOTAL_BYTES DEFAULT_MAX_DRAFT_BYTES DEFAULT_MAX_DIRTY_DRAFTS of
             Inl e \<Rightarrow> (Inl e, if list_ex stale (all_drafts s) then store_notify s1 else s1)
           | Inr ids \<Rightarrow>
               (Inr key, store_notify (with_draft (s1\<lparr>dg_drafts := fold rec_del ids (dg_drafts s1)\<rparr>) key draft)))"

section \<open>Editing\<close>

definition registry_bytes :: "draft_registry \<Rightarrow> string \<Rightarrow> nat" where
  "registry_bytes s key =
     sum_list (map (\<lambda>d. mt_totalBytes (dr_metrics d) +
                        (if dr_id d \<noteq> key \<and> dr_isDirty d then mt_resultBytes (dr_metrics d) else 0)) (all_drafts s))"

definition updateResult :: "draft_registry \<Rightarrow> string \<Rightarrow> js_text \<Rightarrow> nat \<Rightarrow> (draft_error + unit) \<times> draft_registry" where
  "updateResult s key newText now =
     (case rec_get (dg_drafts s) key of
        None \<Rightarrow> (Inl DraftNotFound, s)
      | Some draft \<Rightarrow>
          (case applyDraftUpdate draft (registry_bytes s key) newText now of
             (Inl e, _) \<Rightarrow> (Inl e, s)
           | (Inr _, draft') \<Rightarrow> (Inr (), store_notify (with_draft s key draft'))))"

definition draft_undo :: "draft_registry \<Rightarrow> string \<Rightarrow> nat \<Rightarrow> bool \<times> draft_registry" where
  "draft_undo s key now =
     (case rec_get (dg_drafts s) key of
        None \<Rightarrow> (False, s)
      | Some draft \<Rightarrow>
          (case applyDraftUndo draft now of
             (False, _) \<Rightarrow> (False, s)
           | (True, draft') \<Rightarrow> (True, store_notify (with_draft s key draft'))))"

definition draft_redo :: "draft_registry \<Rightarrow> string \<Rightarrow> nat \<Rightarrow> bool \<times> draft_registry" where
  "draft_redo s key now =
     (case rec_get (dg_drafts s) key of
        None \<Rightarrow> (False, s)
      | Some draft \<Rightarrow>
          (case applyDraftRedo draft now of
             (False, _) \<Rightarrow> (False, s)
           | (True, draft') \<Rightarrow> (True, store_notify (with_draft s key draft'))))"

section \<open>Resolving\<close>

definition beginResolve ::
  "draft_registry \<Rightarrow> string \<Rightarrow> resolve_action \<Rightarrow> string \<Rightarrow> nat \<Rightarrow> (resolve_error + resolve_attempt) \<times> draft_registry"
where
  "beginResolve s key action uuid now =
     (case rec_get (dg_drafts s) key of
        None \<Rightarrow> (Inl NoSuchDraft, s)
      | Some draft \<Rightarrow>
          (case startResolveAttempt draft action uuid now of
             Inl e \<Rightarrow> (Inl e, s)
           | Inr (attempt, draft') \<Rightarrow> (Inr attempt, store_notify (with_draft s key draft'))))"

definition reconcileOutcome :: "draft_registry \<Rightarrow> string \<Rightarrow> string \<Rightarrow> resolve_outcome \<Rightarrow> nat \<Rightarrow> draft_registry" where
  "reconcileOutcome s key attemptId outcome now =
     (case rec_get (dg_drafts s) key of
        None \<Rightarrow> s
      | Some draft \<Rightarrow> store_notify (with_draft s key (completeResolveAttempt draft attemptId outcome now)))"

definition cancelResolve :: "draft_registry \<Rightarrow> string \<Rightarrow> string \<Rightarrow> draft_registry" where
  "cancelResolve s key attemptId =
     (case rec_get (dg_drafts s) key of
        None \<Rightarrow> s
      | Some draft \<Rightarrow>
          if map_option ra_attemptId (dr_inFlightAttempt draft) \<noteq> Some attemptId then s
          else store_notify (with_draft s key (draft\<lparr>dr_isResolving := False, dr_inFlightAttempt := None\<rparr>)))"

definition discardDraft :: "draft_registry \<Rightarrow> string \<Rightarrow> bool \<Rightarrow> bool \<times> draft_registry" where
  "discardDraft s key confirmDirtyLoss =
     (case rec_get (dg_drafts s) key of
        None \<Rightarrow> (False, s)
      | Some draft \<Rightarrow>
          if dr_isResolving draft then (False, s)
          else if \<not> confirmDirtyLoss \<and>
                  (dr_isDirty draft \<or> dr_isRecovery draft \<or> dr_past draft \<noteq> [] \<or> dr_future draft \<noteq> [])
          then (False, s)
          else
            (True, store_notify (s\<lparr>dg_drafts := rec_del key (dg_drafts s),
               dg_activeDraftKey := (if dg_activeDraftKey s = Some key then None else dg_activeDraftKey s)\<rparr>)))"

section \<open>Recovery\<close>

definition same_place :: "conflict_draft \<Rightarrow> conflict_draft \<Rightarrow> bool" where
  "same_place source fresh \<longleftrightarrow>
     os_profileId (dr_scope source) = os_profileId (dr_scope fresh) \<and>
     \<not> haveServerUrlsChanged (os_serverUrl (dr_scope source)) (os_serverUrl (dr_scope fresh)) \<and>
     or_empty (os_configuredRoot (dr_scope source)) = or_empty (os_configuredRoot (dr_scope fresh)) \<and>
     os_project (dr_scope source) = os_project (dr_scope fresh) \<and>
     or_empty (os_worktreePath (dr_scope source)) = or_empty (os_worktreePath (dr_scope fresh)) \<and>
     or_empty (os_root (dr_scope source)) = or_empty (os_root (dr_scope fresh)) \<and>
     ti_path (dr_target source) = ti_path (dr_target fresh) \<and>
     ca_repositoryRoot (dr_authority source) = ca_repositoryRoot (dr_authority fresh) \<and>
     ca_worktreeRoot (dr_authority source) = ca_worktreeRoot (dr_authority fresh)"

text \<open>The guards of an import, in the order of the code; the value is the text to import and the fresh draft.\<close>

definition importable :: "draft_registry \<Rightarrow> string \<Rightarrow> string \<Rightarrow> draft_error + (js_text \<times> conflict_draft)" where
  "importable s recoveryId freshDraftId =
     (case rec_get (dg_drafts s) recoveryId of
        None \<Rightarrow> Inl SourceNotInRecovery
      | Some source \<Rightarrow>
          (case dr_recoveryText source of
             None \<Rightarrow> Inl SourceNotInRecovery
           | Some txt \<Rightarrow>
               if \<not> dr_isRecovery source then Inl SourceNotInRecovery
               else
                 (case rec_get (dg_drafts s) freshDraftId of
                    None \<Rightarrow> Inl FreshSnapshotRequired
                  | Some fresh \<Rightarrow>
                      if dr_requiresReview fresh \<or> dr_isResolving fresh \<or> dr_isApplied fresh then Inl FreshSnapshotRequired
                      else if \<not> same_place source fresh then Inl DifferentTarget
                      else if dr_id source = dr_id fresh then Inl SameSnapshot
                      else if dr_isRecovery fresh \<or> dr_isDirty fresh \<or> dr_past fresh \<noteq> [] \<or> dr_future fresh \<noteq> []
                      then Inl FreshAlreadyEdited
                      else Inr (txt, fresh))))"

definition importRecoveryDraft :: "draft_registry \<Rightarrow> string \<Rightarrow> string \<Rightarrow> nat \<Rightarrow> (draft_error + unit) \<times> draft_registry" where
  "importRecoveryDraft s recoveryId freshDraftId now =
     (case importable s recoveryId freshDraftId of
        Inl e \<Rightarrow> (Inl e, s)
      | Inr (txt, fresh) \<Rightarrow>
          (case updateResult (with_draft s freshDraftId (fresh\<lparr>dr_requiresReview := True\<rparr>)) freshDraftId txt now of
             (Inl e, s1) \<Rightarrow>
               (Inl e, case rec_get (dg_drafts s1) freshDraftId of
                  Some d \<Rightarrow> with_draft s1 freshDraftId (d\<lparr>dr_requiresReview := False\<rparr>) | None \<Rightarrow> s1)
           | (Inr _, s1) \<Rightarrow>
               (Inr (), store_notify (case rec_get (dg_drafts s1) freshDraftId of
                  Some d \<Rightarrow> with_draft s1 freshDraftId (d\<lparr>dr_isApplied := False, dr_canCoalesceHistory := False\<rparr>)
                | None \<Rightarrow> s1))))"

definition confirmFreshReview :: "draft_registry \<Rightarrow> string \<Rightarrow> bool \<times> draft_registry" where
  "confirmFreshReview s key =
     (case rec_get (dg_drafts s) key of
        None \<Rightarrow> (False, s)
      | Some draft \<Rightarrow>
          if dr_isRecovery draft \<or> \<not> dr_requiresReview draft then (False, s)
          else (True, store_notify (with_draft s key
            (measured (draft\<lparr>dr_requiresReview := False, dr_recoveryText := None, dr_recoveryReason := None\<rparr>)))))"

definition settled_recovery :: "string \<Rightarrow> conflict_draft \<Rightarrow> bool" where
  "settled_recovery reason d \<longleftrightarrow>
     dr_isRecovery d \<and> dr_recoveryReason d = Some reason \<and> \<not> dr_isResolving d \<and> dr_inFlightAttempt d = None"

definition markMissingConflicts :: "draft_registry \<Rightarrow> owner_scope \<Rightarrow> string list \<Rightarrow> draft_registry" where
  "markMissingConflicts s scope conflictIds =
     (let reason = ''Conflict disappeared from authoritative inventory; retained as recovery text'';
          skipped = (\<lambda>d. \<not> matchesOwnerScope (dr_scope d) scope \<or> ti_conflictId (dr_target d) \<in> set conflictIds \<or>
                         \<not> busy_draft d \<or> settled_recovery reason d);
          s1 = map_drafts (\<lambda>d. if skipped d then d
                 else (mark_recovery reason d)\<lparr>dr_isResolving := False, dr_inFlightAttempt := None\<rparr>) s
      in if list_ex (\<lambda>d. \<not> skipped d) (all_drafts s) then store_notify s1 else s1)"

definition markAsRecovery :: "draft_registry \<Rightarrow> string \<Rightarrow> string \<Rightarrow> draft_registry" where
  "markAsRecovery s key reason =
     (case rec_get (dg_drafts s) key of
        None \<Rightarrow> s
      | Some draft \<Rightarrow> store_notify (with_draft s key (mark_recovery reason draft)))"

definition retireScope :: "draft_registry \<Rightarrow> string \<Rightarrow> nat \<Rightarrow> draft_registry" where
  "retireScope s profileId generation =
     (let reason = ''Connection retired or server generation changed'';
          skipped = (\<lambda>d. os_profileId (dr_scope d) \<noteq> profileId \<or> os_generation (dr_scope d) \<noteq> generation \<or>
                         settled_recovery reason d);
          s1 = map_drafts (\<lambda>d. if skipped d then d
                 else let d1 = mark_recovery reason d
                      in if dr_isResolving d1 then d1\<lparr>dr_isResolving := False, dr_inFlightAttempt := None\<rparr> else d1) s
      in if list_ex (\<lambda>d. \<not> skipped d) (all_drafts s) then store_notify s1 else s1)"

definition setActiveDraft :: "draft_registry \<Rightarrow> string option \<Rightarrow> draft_registry" where
  "setActiveDraft s key = store_notify (s\<lparr>dg_activeDraftKey := key\<rparr>)"

definition setVisible :: "draft_registry \<Rightarrow> bool \<Rightarrow> draft_registry" where
  "setVisible s visible = store_notify (s\<lparr>dg_isPanelVisible := visible\<rparr>)"

definition hasDirtyDrafts :: "draft_registry \<Rightarrow> bool" where
  "hasDirtyDrafts s = list_ex busy_draft (all_drafts s)"

section \<open>Decisions\<close>

definition side_text :: "side \<Rightarrow> string" where
  "side_text x = (if x = Ours then ''ours'' else ''theirs'')"

definition action_text :: "whole_file_action \<Rightarrow> string" where
  "action_text a = (case a of AcceptAllOurs \<Rightarrow> ''accept-all-ours'' | AcceptAllTheirs \<Rightarrow> ''accept-all-theirs''
     | RebuildClean \<Rightarrow> ''rebuild-clean'')"

definition capped :: "history_entry list \<Rightarrow> history_entry list" where
  "capped past = (if length past > 100 then tl past else past)"

definition push_decision :: "conflict_draft \<Rightarrow> merge_model \<Rightarrow> string \<Rightarrow> nat \<Rightarrow> merge_model \<Rightarrow> conflict_draft" where
  "push_decision draft model description now updatedModel =
     (measured (draft\<lparr>dr_past := capped (dr_past draft @
                  [text_entry (dr_result draft) now (Some (extractModelDecisions model)) (Some description)]),
                dr_future := [], dr_canCoalesceHistory := False, dr_isDirty := True\<rparr>))
       \<lparr>dr_mergeModel := Some updatedModel\<rparr>"

text \<open>The draft and the model a decision applies to, or the reason it is refused.\<close>

definition decidable_draft :: "draft_registry \<Rightarrow> string \<Rightarrow> draft_error + (conflict_draft \<times> merge_model)" where
  "decidable_draft s key =
     (case rec_get (dg_drafts s) key of
        None \<Rightarrow> Inl DraftNotFound
      | Some draft \<Rightarrow>
          if dr_isRecovery draft \<or> dr_isResolving draft \<or> dr_isApplied draft then Inl CannotModify
          else (case dr_mergeModel draft of None \<Rightarrow> Inl NoMergeModel | Some model \<Rightarrow> Inr (draft, model)))"

text \<open>A decision that changed the text goes through \<open>updateResult\<close>; one that did not is recorded directly.\<close>

definition commit_model ::
  "draft_registry \<Rightarrow> string \<Rightarrow> conflict_draft \<Rightarrow> merge_model \<Rightarrow> string \<Rightarrow> nat \<Rightarrow> merge_model \<Rightarrow>
   (draft_error + unit) \<times> draft_registry"
where
  "commit_model s key draft model description now updatedModel =
     (let serialized = getModelSerializedResult updatedModel in
      if dr_result draft = serialized
      then (Inr (), store_notify (with_draft s key
             ((push_decision draft model description now updatedModel)\<lparr>dr_resultRevision := dr_resultRevision draft + 1\<rparr>)))
      else
        (case updateResult (with_draft s key (draft\<lparr>dr_canCoalesceHistory := False\<rparr>)) key serialized now of
           (Inl e, s1) \<Rightarrow> (Inl e, s1)
         | (Inr _, s1) \<Rightarrow>
             (Inr (), store_notify (case rec_get (dg_drafts s1) key of
                Some d \<Rightarrow> with_draft s1 key (d\<lparr>dr_canCoalesceHistory := False, dr_mergeModel := Some updatedModel\<rparr>)
              | None \<Rightarrow> s1))))"

definition store_acceptSide :: "draft_registry \<Rightarrow> string \<Rightarrow> string \<Rightarrow> side \<Rightarrow> nat \<Rightarrow> (draft_error + unit) \<times> draft_registry" where
  "store_acceptSide s key regionId side now =
     (case decidable_draft s key of
        Inl e \<Rightarrow> (Inl e, s)
      | Inr (draft, model) \<Rightarrow>
          (case acceptRegionSide model regionId side of
             Inl e \<Rightarrow> (Inl (MergeFailed e), s)
           | Inr updatedModel \<Rightarrow>
               commit_model s key draft model (''Accept '' @ side_text side @ '' on '' @ regionId) now updatedModel))"

definition store_ignoreSide :: "draft_registry \<Rightarrow> string \<Rightarrow> string \<Rightarrow> side \<Rightarrow> nat \<Rightarrow> (draft_error + unit) \<times> draft_registry" where
  "store_ignoreSide s key regionId side now =
     (case decidable_draft s key of
        Inl e \<Rightarrow> (Inl e, s)
      | Inr (draft, model) \<Rightarrow>
          (case ignoreRegionSide model regionId side of
             Inl e \<Rightarrow> (Inl (MergeFailed e), s)
           | Inr updatedModel \<Rightarrow>
               (Inr (), store_notify (with_draft s key
                  (push_decision draft model (''Ignore '' @ side_text side @ '' on '' @ regionId) now updatedModel)))))"

definition store_acceptBoth :: "draft_registry \<Rightarrow> string \<Rightarrow> string \<Rightarrow> both_order \<Rightarrow> nat \<Rightarrow> (draft_error + unit) \<times> draft_registry" where
  "store_acceptBoth s key regionId order now =
     (case decidable_draft s key of
        Inl e \<Rightarrow> (Inl e, s)
      | Inr (draft, model) \<Rightarrow>
          (case acceptRegionBoth model regionId order of
             Inl e \<Rightarrow> (Inl (MergeFailed e), s)
           | Inr updatedModel \<Rightarrow> commit_model s key draft model (''Accept both on '' @ regionId) now updatedModel))"

definition store_markReviewed :: "draft_registry \<Rightarrow> string \<Rightarrow> string \<Rightarrow> nat \<Rightarrow> (draft_error + unit) \<times> draft_registry" where
  "store_markReviewed s key regionId now =
     (case decidable_draft s key of
        Inl e \<Rightarrow> (Inl e, s)
      | Inr (draft, model) \<Rightarrow>
          (case markRegionReviewed model regionId of
             Inl e \<Rightarrow> (Inl (MergeFailed e), s)
           | Inr updatedModel \<Rightarrow>
               (Inr (), store_notify (with_draft s key
                  (push_decision draft model (''Mark reviewed '' @ regionId) now updatedModel)))))"

definition store_preview :: "(merge_model \<Rightarrow> whole_file_preview) \<Rightarrow> draft_registry \<Rightarrow> string \<Rightarrow> whole_file_preview option" where
  "store_preview preview s key =
     (case rec_get (dg_drafts s) key of
        None \<Rightarrow> None
      | Some draft \<Rightarrow> map_option (\<lambda>m. (preview m)\<lparr>wp_draftKey := Some key\<rparr>) (dr_mergeModel draft))"

definition store_previewAcceptAllOurs :: "draft_registry \<Rightarrow> string \<Rightarrow> whole_file_preview option" where
  "store_previewAcceptAllOurs = store_preview previewAcceptAllOurs"

definition store_previewAcceptAllTheirs :: "draft_registry \<Rightarrow> string \<Rightarrow> whole_file_preview option" where
  "store_previewAcceptAllTheirs = store_preview previewAcceptAllTheirs"

definition store_previewRebuildClean :: "draft_registry \<Rightarrow> string \<Rightarrow> whole_file_preview option" where
  "store_previewRebuildClean = store_preview previewRebuildClean"

definition store_confirmWholeFileAction ::
  "draft_registry \<Rightarrow> string \<Rightarrow> whole_file_preview \<Rightarrow> nat \<Rightarrow> (draft_error + unit) \<times> draft_registry"
where
  "store_confirmWholeFileAction s key preview now =
     (case rec_get (dg_drafts s) key of
        None \<Rightarrow> (Inl DraftNotFound, s)
      | Some draft \<Rightarrow>
          if dr_isRecovery draft \<or> dr_isResolving draft \<or> dr_isApplied draft then (Inl CannotModify, s)
          else if wp_draftKey preview = None \<or> wp_draftKey preview = Some '''' \<or> wp_draftKey preview \<noteq> Some key
          then (Inl PreviewMismatch, s)
          else if wp_targetRevision preview \<noteq> dr_resultRevision draft then (Inl ModifiedAfterPreview, s)
          else
            (case dr_mergeModel draft of
               None \<Rightarrow> (Inl NoMergeModel, s)
             | Some model \<Rightarrow>
                 (case confirmWholeFileAction model preview of
                    Inl e \<Rightarrow> (Inl (MergeFailed e), s)
                  | Inr updatedModel \<Rightarrow>
                      commit_model s key draft model (''Confirm '' @ action_text (wp_action preview)) now updatedModel)))"

definition saveJointHistory :: "draft_registry \<Rightarrow> string \<Rightarrow> joint_snapshot \<Rightarrow> draft_registry" where
  "saveJointHistory s key history =
     (case rec_get (dg_drafts s) key of None \<Rightarrow> s | Some draft \<Rightarrow> with_draft s key (draft\<lparr>dr_jointHistory := Some history\<rparr>))"

definition getJointHistory :: "draft_registry \<Rightarrow> string \<Rightarrow> joint_snapshot option" where
  "getJointHistory s key = (case rec_get (dg_drafts s) key of None \<Rightarrow> None | Some draft \<Rightarrow> dr_jointHistory draft)"

definition resetForTesting :: "draft_registry \<Rightarrow> draft_registry" where
  "resetForTesting s =
     (store_notify (s\<lparr>dg_drafts := [], dg_activeDraftKey := None, dg_isPanelVisible := False\<rparr>))\<lparr>dg_listeners := []\<rparr>"

end
