(* ===== verification/Draft_Laws.thy ===== *)
theory Draft_Laws
  imports Draft_Store
begin

text \<open>
  The laws of drafts: the invariant of one draft, the moves the registry makes on a draft, that every
  event of the registry changes a stored draft by such moves or removes it for a stated reason, and
  what follows over histories of events.
\<close>

section \<open>The invariant of a draft\<close>

definition attempt_ok :: "conflict_draft \<Rightarrow> bool" where
  "attempt_ok d \<longleftrightarrow>
     dr_isResolving d = (dr_inFlightAttempt d \<noteq> None) \<and>
     dr_isApplied d = (dr_appliedResult d \<noteq> None) \<and>
     (dr_isApplied d \<longrightarrow> \<not> dr_isResolving d)"

definition recovery_ok :: "conflict_draft \<Rightarrow> bool" where
  "recovery_ok d \<longleftrightarrow>
     (dr_isRecovery d \<longrightarrow> dr_recoveryText d = Some (dr_result d)) \<and> (\<not> dr_isRecovery d \<longrightarrow> dr_recoveryText d = None)"

definition dirty_ok :: "conflict_draft \<Rightarrow> bool" where
  "dirty_ok d \<longleftrightarrow>
     dr_isDirty d \<or> dr_appliedResult d = Some (dr_result d) \<or>
     dr_appliedResult d = None \<and> dr_result d = dr_initialResult d"

definition metrics_ok :: "conflict_draft \<Rightarrow> bool" where
  "metrics_ok d \<longleftrightarrow>
     (let m = dr_metrics d in
      mt_sourceBytes m = measureSourceBytes (dr_stages d) (dr_worktree d) \<and>
      mt_resultBytes m = byte_length (dr_result d) \<and>
      mt_historyBytes m = measureHistoryBytes (dr_past d) + measureHistoryBytes (dr_future d) \<and>
      mt_totalBytes m = mt_sourceBytes m + mt_resultBytes m + mt_historyBytes m + mt_recoveryBytes m \<and>
      (\<not> dr_isRecovery d \<longrightarrow> mt_recoveryBytes m = 0))"

text \<open>The text of a merge model is the draft's text, up to leading byte order marks.\<close>

definition unmarked :: "js_text \<Rightarrow> js_text" where
  "unmarked s = dropWhile (\<lambda>c. c = BOM) s"

definition model_in_step :: "conflict_draft \<Rightarrow> bool" where
  "model_in_step d \<longleftrightarrow>
     (\<forall>m. dr_mergeModel d = Some m \<longrightarrow> model_ok m \<and> unmarked (mm_resultText m) = unmarked (dr_result d))"

definition draft_ok :: "conflict_draft \<Rightarrow> bool" where
  "draft_ok d \<longleftrightarrow> attempt_ok d \<and> recovery_ok d \<and> dirty_ok d \<and> metrics_ok d \<and> model_in_step d"

lemmas draft_ok_defs = attempt_ok_def recovery_ok_def dirty_ok_def metrics_ok_def model_in_step_def

lemma clean_result: "dirty_ok d \<Longrightarrow> \<not> dr_isDirty d \<Longrightarrow> dr_result d = reference_result d"
  by (auto simp: dirty_ok_def reference_result_def)

lemma unmarked_strip [simp]: "unmarked (fst (stripBOM s)) = unmarked s"
  by (cases s) (auto simp: unmarked_def stripBOM_def detectBOM_def)

lemma unmarked_apply [simp]: "unmarked (applyBOM s b) = unmarked s"
  by (auto simp: unmarked_def applyBOM_def detectBOM_def)

lemma manual_edit_text: "unmarked (mm_resultText (applyManualResultTextEdit m s)) = unmarked s"
  by (auto simp: applyManualResultTextEdit_def Let_def)

lemma history_bytes_append [simp]: "measureHistoryBytes (xs @ ys) = measureHistoryBytes xs + measureHistoryBytes ys"
  and history_bytes_Nil [simp]: "measureHistoryBytes [] = 0"
  by (simp_all add: measureHistoryBytes_def)

lemma metrics_simps [simp]:
  "mt_sourceBytes (calculateDraftMetrics b s p f r) = b"
  "mt_resultBytes (calculateDraftMetrics b s p f r) = byte_length s"
  "mt_historyBytes (calculateDraftMetrics b s p f r) = measureHistoryBytes p + measureHistoryBytes f"
  "mt_recoveryBytes (calculateDraftMetrics b s p f r) = (case r of Some t \<Rightarrow> byte_length t | None \<Rightarrow> 0)"
  "mt_totalBytes (calculateDraftMetrics b s p f r) =
     b + byte_length s + (measureHistoryBytes p + measureHistoryBytes f) + (case r of Some t \<Rightarrow> byte_length t | None \<Rightarrow> 0)"
  by (simp_all add: calculateDraftMetrics_def Let_def)

section \<open>Moves of a draft\<close>

text \<open>The changes that the registry makes to a draft it keeps, the confirmation of a review apart.\<close>

inductive draft_move :: "conflict_draft \<Rightarrow> conflict_draft \<Rightarrow> bool" where
  recover: "draft_move d (mark_recovery reason d)"
| stop: "draft_move d (d\<lparr>dr_isResolving := False, dr_inFlightAttempt := None\<rparr>)"
| update: "applyDraftUpdate d b s now = (Inr (), d') \<Longrightarrow> draft_move d d'"
| undo: "draft_move d (snd (applyDraftUndo d now))"
| redo: "draft_move d (snd (applyDraftRedo d now))"
| start: "startResolveAttempt d a uuid now = Inr (attempt, d') \<Longrightarrow> draft_move d d'"
| complete: "draft_move d (completeResolveAttempt d i outcome now)"
| ask_review: "draft_move d (d\<lparr>dr_requiresReview := True\<rparr>)"
| not_applied: "\<not> dr_isApplied d \<Longrightarrow> draft_move d (d\<lparr>dr_isApplied := False, dr_canCoalesceHistory := False\<rparr>)"
| decide: "\<not> dr_isApplied d \<Longrightarrow> model_ok m' \<Longrightarrow> unmarked (mm_resultText m') = unmarked (dr_result d) \<Longrightarrow>
    draft_move d (push_decision d m s now m')"
| revise: "draft_move d (d\<lparr>dr_resultRevision := dr_resultRevision d + 1\<rparr>)"
| split: "draft_move d (d\<lparr>dr_canCoalesceHistory := False\<rparr>)"
| remodel: "model_ok m' \<Longrightarrow> unmarked (mm_resultText m') = unmarked (dr_result d) \<Longrightarrow>
    draft_move d (d\<lparr>dr_canCoalesceHistory := False, dr_mergeModel := Some m'\<rparr>)"
| remember: "draft_move d (d\<lparr>dr_jointHistory := Some h\<rparr>)"

abbreviation draft_moves :: "conflict_draft \<Rightarrow> conflict_draft \<Rightarrow> bool" where
  "draft_moves \<equiv> draft_move\<^sup>*\<^sup>*"

lemmas transition_defs = measured_def mark_recovery_def retainRecoveryResult_def push_decision_def

lemma update_cases:
  assumes "applyDraftUpdate d b s now = (Inr (), d')" and "s \<noteq> dr_result d"
  obtains mt where "\<not> dr_isRecovery d" and "d' = updated_draft d s now"
    and "checkProspectiveEditGrowth d b s DEFAULT_MAX_TOTAL_BYTES DEFAULT_MAX_DRAFT_BYTES (\<not> coalescing d now) = Inr mt"
proof (cases "checkProspectiveEditGrowth d b s DEFAULT_MAX_TOTAL_BYTES DEFAULT_MAX_DRAFT_BYTES (\<not> coalescing d now)")
  case (Inl e)
  with assms show ?thesis by (simp add: applyDraftUpdate_def split: if_splits)
next
  case (Inr mt)
  have "\<not> dr_isRecovery d" "d' = updated_draft d s now"
    using assms Inr by (auto simp: applyDraftUpdate_def split: if_splits)
  with Inr show ?thesis by (intro that)
qed

lemma draft_okI:
  "attempt_ok d \<Longrightarrow> recovery_ok d \<Longrightarrow> dirty_ok d \<Longrightarrow> metrics_ok d \<Longrightarrow> model_in_step d \<Longrightarrow> draft_ok d"
  by (simp add: draft_ok_def)

lemma draft_okD:
  assumes "draft_ok d"
  shows "attempt_ok d" "recovery_ok d" "dirty_ok d" "metrics_ok d" "model_in_step d"
  using assms by (simp_all add: draft_ok_def)

lemma retain_simps [simp]:
  "dr_result (retainRecoveryResult d) = dr_result d" "dr_past (retainRecoveryResult d) = dr_past d"
  "dr_future (retainRecoveryResult d) = dr_future d" "dr_metrics (retainRecoveryResult d) = dr_metrics d"
  "dr_stages (retainRecoveryResult d) = dr_stages d" "dr_worktree (retainRecoveryResult d) = dr_worktree d"
  "dr_isDirty (retainRecoveryResult d) = dr_isDirty d" "dr_isResolving (retainRecoveryResult d) = dr_isResolving d"
  "dr_isApplied (retainRecoveryResult d) = dr_isApplied d" "dr_appliedResult (retainRecoveryResult d) = dr_appliedResult d"
  "dr_inFlightAttempt (retainRecoveryResult d) = dr_inFlightAttempt d"
  "dr_initialResult (retainRecoveryResult d) = dr_initialResult d"
  "dr_mergeModel (retainRecoveryResult d) = dr_mergeModel d"
  "dr_requiresReview (retainRecoveryResult d) = dr_requiresReview d"
  "dr_id (retainRecoveryResult d) = dr_id d" "dr_scope (retainRecoveryResult d) = dr_scope d"
  "dr_target (retainRecoveryResult d) = dr_target d" "dr_authority (retainRecoveryResult d) = dr_authority d"
  "dr_isRecovery (retainRecoveryResult d) = (dr_isRecovery d \<or> dr_isApplied d \<and> dr_isDirty d)"
  "dr_recoveryText (retainRecoveryResult d) =
     (if dr_isRecovery d \<or> dr_isApplied d \<and> dr_isDirty d then Some (dr_result d) else dr_recoveryText d)"
  by (simp_all add: retainRecoveryResult_def Let_def)

lemma measured_simps [simp]:
  "dr_result (measured d) = dr_result d" "dr_past (measured d) = dr_past d"
  "dr_future (measured d) = dr_future d"
  "dr_stages (measured d) = dr_stages d" "dr_worktree (measured d) = dr_worktree d"
  "dr_isDirty (measured d) = dr_isDirty d" "dr_isResolving (measured d) = dr_isResolving d"
  "dr_isApplied (measured d) = dr_isApplied d" "dr_appliedResult (measured d) = dr_appliedResult d"
  "dr_inFlightAttempt (measured d) = dr_inFlightAttempt d"
  "dr_initialResult (measured d) = dr_initialResult d" "dr_mergeModel (measured d) = dr_mergeModel d"
  "dr_requiresReview (measured d) = dr_requiresReview d"
  "dr_id (measured d) = dr_id d" "dr_scope (measured d) = dr_scope d"
  "dr_target (measured d) = dr_target d" "dr_authority (measured d) = dr_authority d"
  "dr_isRecovery (measured d) = dr_isRecovery d" "dr_recoveryText (measured d) = dr_recoveryText d"
  "dr_metrics (measured d) = calculateDraftMetrics (mt_sourceBytes (dr_metrics d)) (dr_result d) (dr_past d) (dr_future d)
     (dr_recoveryText d)"
  by (simp_all add: measured_def)

lemma updated_ok:
  assumes ok: "draft_ok d" and rec: "\<not> dr_isRecovery d"
  shows "draft_ok (updated_draft d s now)"
proof (rule draft_okI)
  note old = draft_okD [OF ok]
  show "attempt_ok (updated_draft d s now)" using old(1) by (auto simp: updated_draft_def attempt_ok_def)
  show "recovery_ok (updated_draft d s now)" using old(2) rec by (simp add: updated_draft_def recovery_ok_def)
  show "dirty_ok (updated_draft d s now)" by (simp add: updated_draft_def dirty_ok_def reference_result_def split: option.split)
  show "metrics_ok (updated_draft d s now)"
    using old(4) old(2) rec by (simp add: updated_draft_def metrics_ok_def recovery_ok_def Let_def)
  show "model_in_step (updated_draft d s now)" using old(5)
    by (auto simp: updated_draft_def model_in_step_def manual_edit_ok manual_edit_text)
qed

lemma update_ok:
  assumes "applyDraftUpdate d b s now = (Inr (), d')" and ok: "draft_ok d"
  shows "draft_ok d'"
proof (cases "s = dr_result d")
  case True
  with assms show ?thesis by (auto simp: applyDraftUpdate_def split: if_splits)
next
  case False
  show ?thesis by (rule update_cases [OF assms(1) False]) (simp add: updated_ok ok)
qed

lemma entered_model_ok:
  "model_ok m \<Longrightarrow> model_ok (entered_model e m)" "unmarked (mm_resultText (entered_model e m)) = unmarked (he_text e)"
  by (simp add: entered_model_def Let_def restoreModelDecisions_def restore_ok manual_edit_ok split: option.split)
    (simp add: entered_model_def Let_def restoreModelDecisions_def manual_edit_text remap_model_def split: option.split)

lemma go_to_entry_ok:
  assumes ok: "draft_ok d"
  shows "draft_ok (go_to_entry e now (d\<lparr>dr_past := p, dr_future := f\<rparr>))" (is "draft_ok ?d")
proof (rule draft_okI)
  note old = draft_okD [OF ok]
  show "attempt_ok ?d" using old(1) by (auto simp: go_to_entry_def attempt_ok_def Let_def)
  show "recovery_ok ?d" using old(2) by (simp add: go_to_entry_def recovery_ok_def Let_def)
  show "dirty_ok ?d" by (simp add: go_to_entry_def dirty_ok_def reference_result_def Let_def split: option.split)
  show "metrics_ok ?d" using old(4) old(2) by (simp add: go_to_entry_def metrics_ok_def recovery_ok_def Let_def)
  show "model_in_step ?d" using old(5)
    by (auto simp: go_to_entry_def model_in_step_def Let_def entered_model_ok)
qed

lemma undo_ok:
  assumes "draft_ok d"
  shows "draft_ok (snd (applyDraftUndo d now))" and "draft_ok (snd (applyDraftRedo d now))"
proof -
  have swap: "d\<lparr>dr_future := f, dr_past := p\<rparr> = d\<lparr>dr_past := p, dr_future := f\<rparr>" for f p by (cases d) simp
  show "draft_ok (snd (applyDraftUndo d now))" "draft_ok (snd (applyDraftRedo d now))"
    using assms go_to_entry_ok [OF assms] by (simp_all add: applyDraftUndo_def applyDraftRedo_def swap)
qed

lemmas draft_ok_all = draft_ok_def draft_ok_defs Let_def

lemma mark_recovery_ok: "draft_ok d \<Longrightarrow> draft_ok (mark_recovery reason d)"
  by (cases d) (simp add: mark_recovery_def measured_def draft_ok_all)

lemma stop_ok: "draft_ok d \<Longrightarrow> draft_ok (d\<lparr>dr_isResolving := False, dr_inFlightAttempt := None\<rparr>)"
  by (cases d) (simp add: draft_ok_all)

lemma start_ok:
  assumes "startResolveAttempt d a uuid now = Inr (attempt, d')" and "draft_ok d"
  shows "draft_ok d'"
proof -
  have d': "\<not> dr_isApplied d" "d' = d\<lparr>dr_isResolving := True, dr_canCoalesceHistory := False, dr_inFlightAttempt := Some attempt\<rparr>"
    using assms(1) by (auto simp: startResolveAttempt_def Let_def split: if_splits)
  show ?thesis using assms(2) d'(1) unfolding d'(2) by (cases d) (simp add: draft_ok_all)
qed

lemma push_decision_ok:
  assumes "draft_ok d" and "model_ok m'" and "unmarked (mm_resultText m') = unmarked (dr_result d)"
  shows "draft_ok (push_decision d m s now m')"
  using assms by (cases d) (simp add: push_decision_def measured_def draft_ok_all)

text \<open>A completed attempt, by its outcome.\<close>

lemma complete_ok:
  assumes "draft_ok d"
  shows "draft_ok (completeResolveAttempt d i outcome now)"
proof (cases "dr_inFlightAttempt d")
  case None
  with assms show ?thesis by (simp add: completeResolveAttempt_def)
next
  case (Some attempt)
  with assms show ?thesis
    by (cases d; cases "ra_attemptId attempt = i"; cases "outcome = OutcomeApplied"; cases "is_reviewed_text (ra_action attempt)")
      (simp_all add: completeResolveAttempt_def measured_def draft_ok_all)
qed

lemma remodel_ok:
  assumes "draft_ok d" and "model_ok m'" and "unmarked (mm_resultText m') = unmarked (dr_result d)"
  shows "draft_ok (d\<lparr>dr_canCoalesceHistory := False, dr_mergeModel := Some m'\<rparr>)"
  using assms by (cases d) (simp add: draft_ok_all)

lemma flag_ok:
  assumes "draft_ok d"
  shows "draft_ok (d\<lparr>dr_requiresReview := b\<rparr>)" "draft_ok (d\<lparr>dr_canCoalesceHistory := False\<rparr>)"
    "draft_ok (d\<lparr>dr_resultRevision := n\<rparr>)" "draft_ok (d\<lparr>dr_jointHistory := h\<rparr>)"
    "\<not> dr_isApplied d \<Longrightarrow> draft_ok (d\<lparr>dr_isApplied := False, dr_canCoalesceHistory := False\<rparr>)"
  using assms by (cases d; simp add: draft_ok_all)+

lemma move_ok: "draft_move d d' \<Longrightarrow> draft_ok d \<Longrightarrow> draft_ok d'"
  by (erule draft_move.cases)
    (auto intro: mark_recovery_ok stop_ok update_ok undo_ok start_ok complete_ok push_decision_ok remodel_ok flag_ok)

lemma moves_ok: "draft_moves d d' \<Longrightarrow> draft_ok d \<Longrightarrow> draft_ok d'"
  by (induction rule: rtranclp_induct) (auto intro: move_ok)

lemma reviewed_draft_ok:
  assumes "draft_ok d" and "\<not> dr_isRecovery d"
  shows "draft_ok (measured (d\<lparr>dr_requiresReview := False, dr_recoveryText := None, dr_recoveryReason := None\<rparr>))"
  using assms by (cases d) (simp add: measured_def draft_ok_all)

lemma initial_ok: "draft_ok (createInitialDraft diff3MergeRegions key scope snap labels now)"
proof -
  have "model_in_step (createInitialDraft diff3MergeRegions key scope snap labels now)"
    by (auto simp: createInitialDraft_def model_in_step_def snapshot_model_def Let_def create_ok)
      (simp_all add: createConflictMergeModel_def Let_def)
  then show ?thesis
    by (simp add: draft_ok_def createInitialDraft_def attempt_ok_def recovery_ok_def dirty_ok_def reference_result_def
        metrics_ok_def Let_def)
qed

section \<open>Events of the registry\<close>

datatype draft_event =
    DSubscribe nat
  | DUnsubscribe nat
  | DLoad owner_scope conflict_snapshot "stage_role_labels option" nat
  | DEdit string js_text nat
  | DUndo string nat
  | DRedo string nat
  | DBegin string resolve_action string nat
  | DReconcile string string resolve_outcome nat
  | DCancel string string
  | DDiscard string bool
  | DImport string string nat
  | DConfirmReview string
  | DMarkMissing owner_scope "string list"
  | DMarkRecovery string string
  | DRetire string nat
  | DSetActive "string option"
  | DSetVisible bool
  | DAcceptSide string string side nat
  | DIgnoreSide string string side nat
  | DAcceptBoth string string both_order nat
  | DMarkReviewed string string nat
  | DConfirmWholeFile string whole_file_preview nat
  | DSaveHistory string joint_snapshot
  | DReset

fun store_step :: "diff3 \<Rightarrow> draft_registry \<Rightarrow> draft_event \<Rightarrow> draft_registry" where
  "store_step df s (DSubscribe l) = store_subscribe s l"
| "store_step df s (DUnsubscribe l) = store_unsubscribe s l"
| "store_step df s (DLoad scope snap labels now) = snd (loadSnapshot df s scope snap labels now)"
| "store_step df s (DEdit key tx now) = snd (updateResult s key tx now)"
| "store_step df s (DUndo key now) = snd (draft_undo s key now)"
| "store_step df s (DRedo key now) = snd (draft_redo s key now)"
| "store_step df s (DBegin key a uuid now) = snd (beginResolve s key a uuid now)"
| "store_step df s (DReconcile key i outcome now) = reconcileOutcome s key i outcome now"
| "store_step df s (DCancel key i) = cancelResolve s key i"
| "store_step df s (DDiscard key b) = snd (discardDraft s key b)"
| "store_step df s (DImport r f now) = snd (importRecoveryDraft s r f now)"
| "store_step df s (DConfirmReview key) = snd (confirmFreshReview s key)"
| "store_step df s (DMarkMissing scope ids) = markMissingConflicts s scope ids"
| "store_step df s (DMarkRecovery key reason) = markAsRecovery s key reason"
| "store_step df s (DRetire p g) = retireScope s p g"
| "store_step df s (DSetActive k) = setActiveDraft s k"
| "store_step df s (DSetVisible b) = setVisible s b"
| "store_step df s (DAcceptSide key r x now) = snd (store_acceptSide s key r x now)"
| "store_step df s (DIgnoreSide key r x now) = snd (store_ignoreSide s key r x now)"
| "store_step df s (DAcceptBoth key r order now) = snd (store_acceptBoth s key r order now)"
| "store_step df s (DMarkReviewed key r now) = snd (store_markReviewed s key r now)"
| "store_step df s (DConfirmWholeFile key p now) = snd (store_confirmWholeFileAction s key p now)"
| "store_step df s (DSaveHistory key h) = saveJointHistory s key h"
| "store_step df s DReset = resetForTesting s"

abbreviation draft_at :: "draft_registry \<Rightarrow> string \<Rightarrow> conflict_draft option" where
  "draft_at s k \<equiv> rec_get (dg_drafts s) k"

definition published :: "draft_registry \<Rightarrow> bool" where
  "published s \<longleftrightarrow> dg_snapshot s = current_view s"

definition drafts_ok :: "draft_registry \<Rightarrow> bool" where
  "drafts_ok s \<longleftrightarrow>
     rec_wf (dg_drafts s) \<and> (\<forall>k d. draft_at s k = Some d \<longrightarrow> dr_id d = k \<and> draft_ok d) \<and> published s"

text \<open>The registries between which only moves of drafts happened.\<close>

definition moved :: "draft_registry \<Rightarrow> draft_registry \<Rightarrow> bool" where
  "moved s s' \<longleftrightarrow>
     map fst (dg_drafts s') = map fst (dg_drafts s) \<and>
     (\<forall>k d. draft_at s k = Some d \<longrightarrow> (\<exists>d'. draft_at s' k = Some d' \<and> draft_moves d d')) \<and>
     (published s \<longrightarrow> published s')"

lemma notify_simps [simp]:
  "dg_drafts (store_notify s) = dg_drafts s" "dg_activeDraftKey (store_notify s) = dg_activeDraftKey s"
  "dg_isPanelVisible (store_notify s) = dg_isPanelVisible s" "published (store_notify s)"
  by (simp_all add: store_notify_def published_def current_view_def split: option.split)

lemma view_cong:
  assumes "map fst (dg_drafts s') = map fst (dg_drafts s)" "dg_activeDraftKey s' = dg_activeDraftKey s"
    "dg_isPanelVisible s' = dg_isPanelVisible s"
  shows "current_view s' = current_view s"
proof -
  have "rec_get (dg_drafts s') k = None \<longleftrightarrow> rec_get (dg_drafts s) k = None" for k
    using assms(1) by (metis list.set_map map_of_eq_None_iff)
  with assms show ?thesis by (simp add: current_view_def split: option.split)
qed

lemma moved_refl [simp]: "moved s s"
  by (simp add: moved_def)

lemma moved_trans: "moved s t \<Longrightarrow> moved t u \<Longrightarrow> moved s u"
  unfolding moved_def by (metis rtranclp_trans)

lemma moved_notify [simp]: "moved s t \<Longrightarrow> moved s (store_notify t)"
  by (simp add: moved_def)

lemma moved_with_draft:
  assumes "draft_at s key = Some d" and "draft_moves d d'"
  shows "moved s (with_draft s key d')"
proof -
  have "key \<in> set (map fst (dg_drafts s))" using assms(1) by (metis domI dom_map_of_conv_image_fst list.set_map)
  then have keys: "map fst (dg_drafts (with_draft s key d')) = map fst (dg_drafts s)"
    by (simp add: with_draft_def update_keys)
  have "current_view (with_draft s key d') = current_view s"
    by (rule view_cong [OF keys]) (simp_all add: with_draft_def)
  with keys assms show ?thesis by (auto simp: moved_def with_draft_def rec_get_set published_def)
qed

lemma get_mapped: "rec_get (map (\<lambda>(k, d). (k, f d)) m) k = map_option f (rec_get m k)"
  by (induction m) auto

lemma moved_map:
  assumes "\<And>d. draft_moves d (f d)"
  shows "moved s (map_drafts f s)"
proof -
  have keys: "map fst (dg_drafts (map_drafts f s)) = map fst (dg_drafts s)"
    by (simp add: map_drafts_def comp_def case_prod_beta)
  have "current_view (map_drafts f s) = current_view s"
    by (rule view_cong [OF keys]) (simp_all add: map_drafts_def)
  with keys assms show ?thesis by (auto simp: moved_def map_drafts_def get_mapped published_def)
qed

lemma get_with_draft [simp]: "draft_at (with_draft s key d) k = (if k = key then Some d else draft_at s k)"
  by (simp add: with_draft_def rec_get_set)

section \<open>Every event moves or removes\<close>

lemma update_moved: "moved s (snd (updateResult s key tx now))"
proof (cases "draft_at s key")
  case None
  then show ?thesis by (simp add: updateResult_def)
next
  case (Some d)
  obtain r d' where upd: "applyDraftUpdate d (registry_bytes s key) tx now = (r, d')" by (cases "applyDraftUpdate d (registry_bytes s key) tx now")
  show ?thesis
  proof (cases r)
    case (Inl e)
    with Some upd show ?thesis by (simp add: updateResult_def)
  next
    case (Inr u)
    then have "draft_moves d d'" using upd by (auto intro: draft_move.update)
    with Some upd Inr show ?thesis by (simp add: updateResult_def moved_with_draft)
  qed
qed

lemma move1: "draft_move d d' \<Longrightarrow> draft_moves d d'"
  by blast

lemma recover1: "draft_moves d (mark_recovery reason d)"
  by (rule move1 [OF draft_move.recover])

lemma moved_if_done:
  assumes "draft_at s key = Some d" and "draft_moves d (snd r)"
  shows "moved s (snd (case r of (False, _) \<Rightarrow> (False, s) | (True, d') \<Rightarrow> (True, store_notify (with_draft s key d'))))"
  using assms by (cases r; cases "fst r") (simp_all add: moved_with_draft)

lemma undo_moved: "moved s (snd (draft_undo s key now))"
  unfolding draft_undo_def
  by (cases "draft_at s key") (simp_all add: moved_if_done [OF _ move1 [OF draft_move.undo]] del: split_paired_All)

lemma redo_moved: "moved s (snd (draft_redo s key now))"
  unfolding draft_redo_def
  by (cases "draft_at s key") (simp_all add: moved_if_done [OF _ move1 [OF draft_move.redo]] del: split_paired_All)

lemma begin_moved: "moved s (snd (beginResolve s key a uuid now))"
  by (auto simp: beginResolve_def split: option.split sum.split prod.split intro!: moved_notify moved_with_draft draft_move.start)

lemma reconcile_moved: "moved s (reconcileOutcome s key i outcome now)"
  and cancel_moved: "moved s (cancelResolve s key i)"
  and mark_moved: "moved s (markAsRecovery s key reason)"
  and save_moved: "moved s (saveJointHistory s key h)"
  by (auto simp: reconcileOutcome_def cancelResolve_def markAsRecovery_def saveJointHistory_def split: option.split
      intro!: moved_notify moved_with_draft draft_move.intros)

lemma recover_stop: "draft_moves d ((mark_recovery reason d)\<lparr>dr_isResolving := False, dr_inFlightAttempt := None\<rparr>)"
  by (rule rtranclp_trans [OF recover1 move1]) (rule draft_move.stop)

lemma moved_marked:
  "(\<And>d. draft_moves d (f d)) \<Longrightarrow> moved s (if c then store_notify (map_drafts f s) else map_drafts f s)"
  by (simp add: moved_map)

lemma missing_moved: "moved s (markMissingConflicts s scope ids)"
  and retire_moved: "moved s (retireScope s p g)"
  unfolding markMissingConflicts_def retireScope_def Let_def
  by (rule moved_marked, simp add: recover_stop recover1)+

text \<open>An import, by its guards.\<close>

lemma importableD:
  assumes "importable s r f = Inr (tx, fresh)"
  shows "draft_at s f = Some fresh" "\<not> dr_requiresReview fresh" "\<not> dr_isApplied fresh" "\<not> dr_isResolving fresh"
    "\<not> dr_isRecovery fresh" "dr_past fresh = []" "dr_future fresh = []"
  using assms by (auto simp: importable_def split: option.splits if_splits)

lemma with_draft_same [simp]: "draft_at s k = Some d \<Longrightarrow> with_draft s k d = s"
  by (simp add: with_draft_def update_triv)

lemma with_draft_twice [simp]: "with_draft (with_draft s k d) k d' = with_draft s k d'"
  by (simp add: with_draft_def update_last)

lemma no_review: "\<not> dr_requiresReview d \<Longrightarrow> d\<lparr>dr_requiresReview := True, dr_requiresReview := False\<rparr> = d"
  by (cases d) simp

lemma import_refused:
  assumes "fst (importRecoveryDraft s r f now) = Inl e"
  shows "snd (importRecoveryDraft s r f now) = s"
proof (cases "importable s r f")
  case (Inl e)
  then show ?thesis by (simp add: importRecoveryDraft_def)
next
  case (Inr p)
  then obtain tx fresh where imp: "importable s r f = Inr (tx, fresh)" by (cases p) auto
  let ?s = "with_draft s f (fresh\<lparr>dr_requiresReview := True\<rparr>)"
  obtain res d where upd: "applyDraftUpdate (fresh\<lparr>dr_requiresReview := True\<rparr>) (registry_bytes ?s f) tx now = (res, d)"
    by fastforce
  show ?thesis
  proof (cases res)
    case (Inl e)
    with imp upd have "snd (importRecoveryDraft s r f now) = with_draft ?s f (fresh\<lparr>dr_requiresReview := True, dr_requiresReview := False\<rparr>)"
      by (simp add: importRecoveryDraft_def updateResult_def)
    then show ?thesis 
      by (simp only: no_review [OF importableD(2) [OF imp]] with_draft_twice with_draft_same [OF importableD(1) [OF imp]])
  next
    case (Inr u)
    with imp upd assms show ?thesis by (simp add: importRecoveryDraft_def updateResult_def)
  qed
qed

lemma update_applied: "applyDraftUpdate d b s now = (Inr u, d') \<Longrightarrow> dr_isApplied d' = dr_isApplied d"
  by (auto simp: applyDraftUpdate_def updated_draft_def split: if_splits sum.splits)

lemma import_done:
  assumes "fst (importRecoveryDraft s r f now) = Inr u"
  obtains tx fresh d b where "importable s r f = Inr (tx, fresh)"
    and "applyDraftUpdate (fresh\<lparr>dr_requiresReview := True\<rparr>) b tx now = (Inr (), d)"
    and "dg_drafts (snd (importRecoveryDraft s r f now)) =
      rec_set f (d\<lparr>dr_isApplied := False, dr_canCoalesceHistory := False\<rparr>) (dg_drafts s)"
    and "published (snd (importRecoveryDraft s r f now))"
proof (cases "importable s r f")
  case (Inl e)
  with assms show ?thesis by (simp add: importRecoveryDraft_def)
next
  case (Inr p)
  then obtain tx fresh where imp: "importable s r f = Inr (tx, fresh)" by (cases p) auto
  let ?s = "with_draft s f (fresh\<lparr>dr_requiresReview := True\<rparr>)"
  obtain res d where upd: "applyDraftUpdate (fresh\<lparr>dr_requiresReview := True\<rparr>) (registry_bytes ?s f) tx now = (res, d)"
    by fastforce
  show ?thesis
  proof (cases res)
    case (Inl e)
    with imp upd assms show ?thesis by (simp add: importRecoveryDraft_def updateResult_def)
  next
    case (Inr u)
    with imp upd have imp': "importRecoveryDraft s r f now =
        (Inr (), store_notify (with_draft (store_notify (with_draft ?s f d)) f
          (d\<lparr>dr_isApplied := False, dr_canCoalesceHistory := False\<rparr>)))"
      by (simp add: importRecoveryDraft_def updateResult_def)
    have "applyDraftUpdate (fresh\<lparr>dr_requiresReview := True\<rparr>) (registry_bytes ?s f) tx now = (Inr (), d)"
      using upd Inr by simp
    moreover have "dg_drafts (snd (importRecoveryDraft s r f now)) =
        rec_set f (d\<lparr>dr_isApplied := False, dr_canCoalesceHistory := False\<rparr>) (dg_drafts s)"
      unfolding imp' by (simp add: with_draft_def update_last)
    moreover have "published (snd (importRecoveryDraft s r f now))" unfolding imp' by simp
    ultimately show ?thesis by (rule that [OF imp])
  qed
qed

lemma import_moved: "moved s (snd (importRecoveryDraft s r f now))"
proof (cases "fst (importRecoveryDraft s r f now)")
  case (Inl e)
  then show ?thesis by (simp add: import_refused)
next
  case (Inr u)
  then show ?thesis
  proof (rule import_done)
    fix tx fresh b and d :: conflict_draft
    let ?d = "d\<lparr>dr_isApplied := False, dr_canCoalesceHistory := False\<rparr>"
    assume imp: "importable s r f = Inr (tx, fresh)"
      and upd: "applyDraftUpdate (fresh\<lparr>dr_requiresReview := True\<rparr>) b tx now = (Inr (), d)"
      and drafts: "dg_drafts (snd (importRecoveryDraft s r f now)) = rec_set f ?d (dg_drafts s)"
      and pub: "published (snd (importRecoveryDraft s r f now))"
    have "\<not> dr_isApplied d" using update_applied [OF upd] importableD(3) [OF imp] by simp
    then have last: "draft_move d ?d" by (rule draft_move.not_applied)
    have "draft_moves fresh d"
      by (rule rtranclp.rtrancl_into_rtrancl [OF move1 [OF draft_move.ask_review] draft_move.update [OF upd]])
    then have "draft_moves fresh ?d" using last by (rule rtranclp.rtrancl_into_rtrancl)
    then have "moved s (with_draft s f ?d)" by (rule moved_with_draft [OF importableD(1) [OF imp]])
    then show ?thesis using drafts pub by (simp add: moved_def with_draft_def)
  qed
qed

text \<open>Decisions.\<close>

lemma ignore_text: "ignoreRegionSide m i x = Inr m' \<Longrightarrow> mm_resultText m' = mm_resultText m"
  and reviewed_text: "markRegionReviewed m i = Inr m' \<Longrightarrow> mm_resultText m' = mm_resultText m"
  by (auto simp: ignoreRegionSide_def markRegionReviewed_def next_revision_def remap_model_def Let_def split: option.splits if_splits)

lemma decidableD:
  assumes "decidable_draft s key = Inr (d, m)"
  shows "draft_at s key = Some d" "dr_mergeModel d = Some m" "\<not> dr_isRecovery d" "\<not> dr_isApplied d" "\<not> dr_isResolving d"
  using assms by (auto simp: decidable_draft_def split: option.splits if_splits)

lemma commit_moved:
  assumes at: "draft_at s key = Some d" and "\<not> dr_isApplied d" and m': "model_ok m'"
  shows "moved s (snd (commit_model s key d m desc now m'))"
proof (cases "dr_result d = getModelSerializedResult m'")
  case True
  let ?d = "push_decision d m desc now m'"
  have step: "unmarked (mm_resultText m') = unmarked (dr_result d)"
    using True by (simp add: getModelSerializedResult_def)
  have "dr_resultRevision d = dr_resultRevision ?d" by (simp add: push_decision_def measured_def)
  then have "draft_move ?d (?d\<lparr>dr_resultRevision := dr_resultRevision d + 1\<rparr>)"
    using draft_move.revise [of ?d] by simp
  with draft_move.decide [OF assms(2) m' step]
  have "draft_moves d (?d\<lparr>dr_resultRevision := dr_resultRevision d + 1\<rparr>)"
    by (meson move1 rtranclp.rtrancl_into_rtrancl)
  with True show ?thesis by (simp add: commit_model_def Let_def moved_with_draft [OF at])
next
  case False
  let ?d = "d\<lparr>dr_canCoalesceHistory := False\<rparr>" and ?t = "getModelSerializedResult m'"
  let ?s = "with_draft s key ?d"
  have s1: "moved s ?s" by (rule moved_with_draft [OF at move1 [OF draft_move.split]])
  obtain r d1 where upd: "applyDraftUpdate ?d (registry_bytes ?s key) ?t now = (r, d1)" by fastforce
  show ?thesis
  proof (cases r)
    case (Inl e)
    with False upd s1 show ?thesis by (simp add: commit_model_def Let_def updateResult_def)
  next
    case (Inr u)
    let ?d2 = "d1\<lparr>dr_canCoalesceHistory := False, dr_mergeModel := Some m'\<rparr>"
    from Inr upd have move: "draft_move ?d d1" by (auto intro: draft_move.update)
    have "dr_result d1 = ?t"
      using upd Inr by (auto simp: applyDraftUpdate_def updated_draft_def split: if_splits sum.splits)
    then have "unmarked (mm_resultText m') = unmarked (dr_result d1)"
      by (simp add: getModelSerializedResult_def)
    then have "draft_move d1 ?d2" by (rule draft_move.remodel [OF m'])
    with move have "draft_moves ?d ?d2" by (meson move1 rtranclp.rtrancl_into_rtrancl)
    then have "moved ?s (with_draft ?s key ?d2)" by (intro moved_with_draft [of _ _ ?d]) simp
    with s1 have "moved s (with_draft ?s key ?d2)" by (rule moved_trans)
    moreover have eq: "snd (commit_model s key d m desc now m') =
        store_notify (with_draft (store_notify (with_draft ?s key d1)) key ?d2)"
      using False upd Inr by (simp add: commit_model_def Let_def updateResult_def)
    have "dg_drafts (snd (commit_model s key d m desc now m')) = dg_drafts (with_draft ?s key ?d2)"
      unfolding eq by (simp add: with_draft_def update_last)
    moreover have "published (snd (commit_model s key d m desc now m'))" unfolding eq by simp
    ultimately show ?thesis by (simp add: moved_def)
  qed
qed

lemma decisions_moved:
  assumes "drafts_ok s"
  shows "moved s (snd (store_acceptSide s key rid x now))" (is ?accept)
    and "moved s (snd (store_acceptBoth s key rid order now))" (is ?both)
    and "moved s (snd (store_ignoreSide s key rid x now))" (is ?ignore)
    and "moved s (snd (store_markReviewed s key rid now))" (is ?review)
proof -
  have "?accept \<and> ?both \<and> ?ignore \<and> ?review"
  proof (cases "decidable_draft s key")
    case (Inl e)
    then show ?thesis
      by (simp add: store_acceptSide_def store_acceptBoth_def store_ignoreSide_def store_markReviewed_def)
  next
    case (Inr p)
    then obtain d m where dec: "decidable_draft s key = Inr (d, m)" by (cases p) auto
    note D = decidableD [OF dec]
    from assms D(1) have "draft_ok d" by (auto simp: drafts_ok_def)
    then have m: "model_ok m" and step: "unmarked (mm_resultText m) = unmarked (dr_result d)"
      using D(2) by (simp_all add: draft_ok_def model_in_step_def)
    have push: "moved s (with_draft s key (push_decision d m desc now m'))"
      if "model_ok m'" "mm_resultText m' = mm_resultText m" for m' desc
      using that step by (intro moved_with_draft [OF D(1) move1] draft_move.decide [OF D(4)]) simp_all
    have ?accept
      using commit_moved [OF D(1,4) decide_region_ok [OF m]]
      by (simp add: store_acceptSide_def dec acceptRegionSide_def split: sum.split)
    moreover have ?both
      using commit_moved [OF D(1,4) decide_region_ok [OF m]]
      by (simp add: store_acceptBoth_def dec acceptRegionBoth_def split: sum.split)
    moreover have ?ignore
      using push ignore_ok [OF m] ignore_text by (simp add: store_ignoreSide_def dec split: sum.split)
    moreover have ?review
      using push Merge_Actions.reviewed_ok [OF m] reviewed_text by (simp add: store_markReviewed_def dec split: sum.split)
    ultimately show ?thesis by blast
  qed
  then show ?accept ?both ?ignore ?review by blast+
qed

lemma whole_file_moved:
  assumes "drafts_ok s"
  shows "moved s (snd (store_confirmWholeFileAction s key p now))"
proof (cases "draft_at s key")
  case None
  then show ?thesis by (simp add: store_confirmWholeFileAction_def)
next
  case (Some d)
  with assms have ok: "draft_ok d" by (auto simp: drafts_ok_def)
  show ?thesis
  proof (cases "dr_mergeModel d")
    case None
    with Some show ?thesis by (simp add: store_confirmWholeFileAction_def)
  next
    case (Some m)
    with ok have "model_ok m" by (simp add: draft_ok_def model_in_step_def)
    then show ?thesis
      using \<open>draft_at s key = Some d\<close> Some commit_moved [OF \<open>draft_at s key = Some d\<close> _ whole_file_ok]
      by (simp add: store_confirmWholeFileAction_def split: sum.split)
  qed
qed

end
