(* ===== verification/Draft_Registry.thy ===== *)
theory Draft_Registry
  imports Draft_Laws
begin

text \<open>
  The registry over histories of events: admission and eviction, the invariant, what an event may remove,
  the guards that survive every event, the memory budgets and the timeline of undo and redo.
\<close>

declare map_of_eq_Some_iff [simp del]

section \<open>Admission\<close>

lemma evict_until_Some:
  assumes "evict_until ds held new mx ids = Some ids'"
  shows "\<exists>n. ids' = ids @ map dr_id (take n ds) \<and>
    held - int (total_bytes (take n ds)) + new \<le> mx"
  using assms
proof (induction ds arbitrary: held ids)
  case (Cons d ds)
  show ?case
  proof (cases "held - int (mt_totalBytes (dr_metrics d)) + new \<le> mx")
    case True
    with Cons.prems show ?thesis by (intro exI [of _ 1]) (simp add: total_bytes_def)
  next
    case False
    with Cons.prems have "evict_until ds (held - int (mt_totalBytes (dr_metrics d))) new mx (ids @ [dr_id d]) = Some ids'"
      by (simp add: Let_def)
    from Cons.IH [OF this] obtain n where "ids' = (ids @ [dr_id d]) @ map dr_id (take n ds)"
      "held - int (mt_totalBytes (dr_metrics d)) - int (total_bytes (take n ds)) + new \<le> mx" by blast
    then show ?thesis by (intro exI [of _ "Suc n"]) (simp add: total_bytes_def)
  qed
qed simp

lemma admitted:
  assumes "canAdmitDraft ds new mx md mc = Inr ids"
  obtains n where "ids = map dr_id (take n (filter clean_candidate ds))" and "new \<le> md"
    and "int (total_bytes ds) - int (total_bytes (take n (filter clean_candidate ds))) + int new \<le> int mx"
proof (cases "total_bytes ds + new \<le> mx")
  case True
  with assms show ?thesis
    by (intro that [of 0]) (auto simp: canAdmitDraft_def total_bytes_def split: if_splits)
next
  case False
  with assms have "new \<le> md"
    and ev: "evict_until (filter clean_candidate ds) (int (total_bytes ds)) (int new) (int mx) [] = Some ids"
    by (auto simp: canAdmitDraft_def split: if_splits option.splits)
  with evict_until_Some [OF ev] show ?thesis using that by auto
qed

lemma get_fold_del: "rec_get (fold rec_del ids m) k = (if k \<in> set ids then None else rec_get m k)"
  by (induction ids arbitrary: m) (auto simp: rec_get_del)

lemma wf_fold_del: "rec_wf m \<Longrightarrow> rec_wf (fold rec_del ids m)"
  by (induction ids arbitrary: m) auto

lemma fold_del_filter: "fold rec_del ids m = filter (\<lambda>(k, d). k \<notin> set ids) m"
  by (induction ids arbitrary: m) (auto simp: AList.delete_eq intro!: filter_cong)

text \<open>What removing distinct drafts from a list frees.\<close>

lemma bytes_removed:
  assumes "distinct (map dr_id ds)" and "set es \<subseteq> set ds" and "distinct es"
  shows "total_bytes (filter (\<lambda>d. dr_id d \<notin> dr_id ` set es) ds) + total_bytes es \<le> total_bytes ds"
proof -
  let ?f = "\<lambda>d. mt_totalBytes (dr_metrics d)"
  let ?rest = "filter (\<lambda>d. dr_id d \<notin> dr_id ` set es) ds"
  have "distinct ds" using assms(1) by (simp add: distinct_map)
  then have "total_bytes ds = sum ?f (set ds)" "total_bytes ?rest = sum ?f (set ?rest)" "total_bytes es = sum ?f (set es)"
    using assms(3) by (simp_all add: total_bytes_def sum_list_distinct_conv_sum_set)
  moreover have "sum ?f (set ?rest) + sum ?f (set es) = sum ?f (set ?rest \<union> set es)"
    by (rule sum.union_disjoint [symmetric]) auto
  moreover have "sum ?f (set ?rest \<union> set es) \<le> sum ?f (set ds)"
    using assms(2) by (intro sum_mono2) auto
  ultimately show ?thesis by simp
qed

section \<open>Loading\<close>

definition stale_marked :: "owner_scope \<Rightarrow> conflict_snapshot \<Rightarrow> draft_registry \<Rightarrow> draft_registry" where
  "stale_marked scope snap s =
     map_drafts (\<lambda>d. if outdated_by scope snap (createDraftKey scope snap) d
       then mark_recovery ''Conflict snapshot changed; import into a fresh snapshot and review'' d else d) s"

lemma stale_moved: "moved s (stale_marked scope snap s)"
  unfolding stale_marked_def by (rule moved_map) (simp add: recover1)

lemma move_identity:
  "draft_move d d' \<Longrightarrow> dr_id d' = dr_id d \<and> dr_scope d' = dr_scope d \<and> dr_target d' = dr_target d \<and> dr_authority d' = dr_authority d"
  by (erule draft_move.cases)
    (auto simp: mark_recovery_def applyDraftUpdate_def updated_draft_def applyDraftUndo_def applyDraftRedo_def go_to_entry_def
      startResolveAttempt_def completeResolveAttempt_def push_decision_def Let_def split: if_splits sum.splits option.splits)

lemma moves_identity:
  "draft_moves d d' \<Longrightarrow> dr_id d' = dr_id d \<and> dr_scope d' = dr_scope d \<and> dr_target d' = dr_target d \<and> dr_authority d' = dr_authority d"
  by (induction rule: rtranclp_induct) (auto dest: move_identity)

lemma movedD: "moved s s' \<Longrightarrow> draft_at s k = Some d \<Longrightarrow> \<exists>d'. draft_at s' k = Some d' \<and> draft_moves d d'"
  by (simp add: moved_def)

lemma moved_ok:
  assumes "moved s s'" and "drafts_ok s"
  shows "drafts_ok s'"
proof -
  have "dr_id d' = k \<and> draft_ok d'" if "draft_at s' k = Some d'" for k d'
  proof -
    have "k \<in> fst ` set (dg_drafts s)"
      using that assms(1) by (metis domI dom_map_of_conv_image_fst list.set_map moved_def)
    then obtain d where d: "draft_at s k = Some d" by (metis domD dom_map_of_conv_image_fst)
    then have "draft_moves d d'" using movedD [OF assms(1) d] that by simp
    then show ?thesis using moves_ok moves_identity d assms(2) by (auto simp: drafts_ok_def)
  qed
  moreover have "rec_wf (dg_drafts s')" "published s'"
    using assms by (auto simp: moved_def drafts_ok_def)
  ultimately show ?thesis by (simp add: drafts_ok_def)
qed

lemma registry_ids:
  assumes "drafts_ok s"
  shows "map dr_id (all_drafts s) = map fst (dg_drafts s)" and "distinct (map dr_id (all_drafts s))"
proof -
  have "dr_id d = k" if "(k, d) \<in> set (dg_drafts s)" for k d
    using that assms by (auto simp: drafts_ok_def rec_get_iff)
  then show eq: "map dr_id (all_drafts s) = map fst (dg_drafts s)" by (auto simp: all_drafts_def)
  show "distinct (map dr_id (all_drafts s))" using assms by (simp add: eq drafts_ok_def)
qed

text \<open>Loading a snapshot, by its outcome.\<close>

lemma load_known: "draft_at s (createDraftKey scope snap) \<noteq> None \<Longrightarrow> loadSnapshot df s scope snap labels now = (Inr (createDraftKey scope snap), s)"
  by (simp add: loadSnapshot_def Let_def)

abbreviation admission :: "diff3 \<Rightarrow> draft_registry \<Rightarrow> owner_scope \<Rightarrow> conflict_snapshot \<Rightarrow> stage_role_labels option \<Rightarrow> nat \<Rightarrow> refusal + string list" where
  "admission df s scope snap labels now \<equiv>
     canAdmitDraft (all_drafts (stale_marked scope snap s))
       (mt_totalBytes (dr_metrics (createInitialDraft df (createDraftKey scope snap) scope snap labels now)))
       DEFAULT_MAX_TOTAL_BYTES DEFAULT_MAX_DRAFT_BYTES DEFAULT_MAX_DIRTY_DRAFTS"

lemma load_refused:
  assumes "draft_at s (createDraftKey scope snap) = None" and "admission df s scope snap labels now = Inl e"
  shows "fst (loadSnapshot df s scope snap labels now) = Inl e" and "moved s (snd (loadSnapshot df s scope snap labels now))"
  using assms stale_moved [of s scope snap] by (simp_all add: loadSnapshot_def Let_def stale_marked_def)

lemma load_admitted:
  assumes "draft_at s (createDraftKey scope snap) = None" and "admission df s scope snap labels now = Inr ids"
  shows "loadSnapshot df s scope snap labels now =
    (Inr (createDraftKey scope snap),
     store_notify (with_draft ((stale_marked scope snap s)\<lparr>dg_drafts := fold rec_del ids (dg_drafts (stale_marked scope snap s))\<rparr>)
       (createDraftKey scope snap) (createInitialDraft df (createDraftKey scope snap) scope snap labels now)))"
  using assms by (simp add: loadSnapshot_def Let_def stale_marked_def)

lemma load_drafts:
  assumes "draft_at s (createDraftKey scope snap) = None" and "admission df s scope snap labels now = Inr ids"
  shows "draft_at (snd (loadSnapshot df s scope snap labels now)) k =
    (if k = createDraftKey scope snap then Some (createInitialDraft df k scope snap labels now)
     else if k \<in> set ids then None else draft_at (stale_marked scope snap s) k)"
  by (simp add: load_admitted [OF assms] get_fold_del)

lemma admitted_ids:
  assumes ok: "drafts_ok s" and adm: "admission df s scope snap labels now = Inr ids"
    and k: "k \<in> set ids" and d: "draft_at (stale_marked scope snap s) k = Some d"
  shows "clean_candidate d"
proof -
  let ?s = "stale_marked scope snap s"
  have ok': "drafts_ok ?s" by (rule moved_ok [OF stale_moved ok])
  obtain n where "ids = map dr_id (take n (filter clean_candidate (all_drafts ?s)))" by (rule admitted [OF adm])
  with k obtain d' where "d' \<in> set (filter clean_candidate (all_drafts ?s))" "dr_id d' = k"
    by (auto dest: in_set_takeD)
  moreover have "d \<in> set (all_drafts ?s)" "dr_id d = k"
    using d ok' by (force simp: all_drafts_def drafts_ok_def rec_get_iff)+
  ultimately show ?thesis using distinct_map_eqD [OF registry_ids(2) [OF ok']] by auto
qed

lemma clean_not_stale: "clean_candidate (if c then mark_recovery r d else d) \<Longrightarrow> clean_candidate d"
  by (auto simp: clean_candidate_def mark_recovery_def split: if_splits)

lemma load_step:
  assumes ok: "drafts_ok s" and d: "draft_at s k = Some d"
  shows "(\<exists>d'. draft_at (snd (loadSnapshot df s scope snap labels now)) k = Some d' \<and> draft_moves d d') \<or>
    draft_at (snd (loadSnapshot df s scope snap labels now)) k = None \<and> clean_candidate d"
proof (cases "draft_at s (createDraftKey scope snap)")
  case (Some e)
  with d show ?thesis by (simp add: load_known)
next
  case None
  show ?thesis
  proof (cases "admission df s scope snap labels now")
    case (Inl e)
    from movedD [OF load_refused(2) [OF None Inl] d] show ?thesis by blast
  next
    case (Inr ids)
    have ne: "k \<noteq> createDraftKey scope snap" using None d by auto
    obtain d1 where d1: "draft_at (stale_marked scope snap s) k = Some d1" "draft_moves d d1"
      using movedD [OF stale_moved d] by blast
    show ?thesis
    proof (cases "k \<in> set ids")
      case True
      have eq: "d1 = (if outdated_by scope snap (createDraftKey scope snap) d
          then mark_recovery ''Conflict snapshot changed; import into a fresh snapshot and review'' d else d)"
        using d d1(1) by (simp add: stale_marked_def map_drafts_def get_mapped)
      have "clean_candidate d"
        using admitted_ids [OF ok Inr True d1(1)] unfolding eq by (rule clean_not_stale)
      with True ne show ?thesis by (simp add: load_drafts [OF None Inr])
    next
      case False
      with ne d1 show ?thesis by (simp add: load_drafts [OF None Inr])
    qed
  qed
qed

lemma load_ok:
  assumes ok: "drafts_ok s"
  shows "drafts_ok (snd (loadSnapshot df s scope snap labels now))"
proof (cases "draft_at s (createDraftKey scope snap)")
  case (Some e)
  with ok show ?thesis by (simp add: load_known)
next
  case None
  show ?thesis
  proof (cases "admission df s scope snap labels now")
    case (Inl e)
    from moved_ok [OF load_refused(2) [OF None Inl] ok] show ?thesis .
  next
    case (Inr ids)
    have ok': "drafts_ok (stale_marked scope snap s)" by (rule moved_ok [OF stale_moved ok])
    have "rec_wf (dg_drafts (snd (loadSnapshot df s scope snap labels now)))"
      using ok' by (simp add: load_admitted [OF None Inr] with_draft_def wf_fold_del drafts_ok_def)
    moreover have "published (snd (loadSnapshot df s scope snap labels now))"
      by (simp add: load_admitted [OF None Inr])
    moreover have "dr_id d = k \<and> draft_ok d" if "draft_at (snd (loadSnapshot df s scope snap labels now)) k = Some d" for k d
      using that ok' initial_ok by (auto simp: load_drafts [OF None Inr] drafts_ok_def createInitialDraft_def split: if_splits)
    ultimately show ?thesis by (simp add: drafts_ok_def)
  qed
qed

section \<open>The registry as a machine\<close>

lemma published_view:
  "published s \<Longrightarrow> map fst (dg_drafts s') = map fst (dg_drafts s) \<Longrightarrow> dg_activeDraftKey s' = dg_activeDraftKey s \<Longrightarrow>
   dg_isPanelVisible s' = dg_isPanelVisible s \<Longrightarrow> dg_snapshot s' = dg_snapshot s \<Longrightarrow> published s'"
  by (metis published_def view_cong)

lemma subscribe_moved: "moved s (store_subscribe s l)" "moved s (store_unsubscribe s l)"
  using published_view by (auto simp: moved_def store_subscribe_def store_unsubscribe_def)

lemma shown_moved: "moved s (setActiveDraft s k)" "moved s (setVisible s b)"
  by (auto simp: moved_def setActiveDraft_def setVisible_def)

lemma discard_ok:
  assumes "drafts_ok s"
  shows "drafts_ok (snd (discardDraft s key b))"
  using assms by (auto simp: discardDraft_def drafts_ok_def rec_get_del split: option.split if_splits)

lemma with_draft_ok:
  "drafts_ok s \<Longrightarrow> dr_id d = k \<Longrightarrow> draft_ok d \<Longrightarrow> drafts_ok (store_notify (with_draft s k d))"
  by (simp add: drafts_ok_def) (simp add: with_draft_def)

lemma confirm_ok:
  assumes ok: "drafts_ok s"
  shows "drafts_ok (snd (confirmFreshReview s key))"
proof (cases "draft_at s key")
  case None
  with ok show ?thesis by (simp add: confirmFreshReview_def)
next
  case (Some d)
  with ok have "dr_id d = key" "draft_ok d" by (simp_all add: drafts_ok_def)
  then show ?thesis
    using ok Some with_draft_ok [OF ok _ reviewed_draft_ok, of d key] by (simp add: confirmFreshReview_def)
qed

lemma reset_ok: "drafts_ok (resetForTesting s)"
  by (simp add: resetForTesting_def drafts_ok_def published_def store_notify_def current_view_def)

lemma new_drafts_ok: "drafts_ok new_registry"
  by (simp add: new_registry_def drafts_ok_def published_def current_view_def)

text \<open>The events that may remove a draft or confirm a review; every other event only moves drafts.\<close>

fun only_moves :: "draft_event \<Rightarrow> bool" where
  "only_moves (DLoad _ _ _ _) = False"
| "only_moves (DDiscard _ _) = False"
| "only_moves (DConfirmReview _) = False"
| "only_moves DReset = False"
| "only_moves _ = True"

lemma other_moved: "drafts_ok s \<Longrightarrow> only_moves e \<Longrightarrow> moved s (store_step df s e)"
  by (cases e)
    (simp_all add: subscribe_moved shown_moved update_moved undo_moved redo_moved begin_moved reconcile_moved cancel_moved
      import_moved missing_moved mark_moved retire_moved decisions_moved whole_file_moved save_moved)

interpretation drafting: event_machine "store_step df" "\<lambda>_ _. True" drafts_ok
proof
  fix s e
  assume ok: "drafts_ok s"
  show "drafts_ok (store_step df s e)"
  proof (cases "only_moves e")
    case True
    from moved_ok [OF other_moved [OF ok True] ok] show ?thesis .
  next
    case False
    with ok load_ok discard_ok confirm_ok reset_ok show ?thesis by (cases e) simp_all
  qed
qed

lemma reachable_drafts_ok: "drafts_ok (run_events (store_step df) new_registry es)"
  by (rule drafting.run_inv [OF new_drafts_ok]) simp

text \<open>What an event does to the draft under a key.\<close>

definition discards :: "draft_event \<Rightarrow> string \<Rightarrow> bool" where
  "discards e k \<longleftrightarrow> e = DDiscard k True \<or> e = DReset"

lemma step_draft:
  assumes ok: "drafts_ok s" and d: "draft_at s k = Some d" and e: "\<not> discards e k" "e \<noteq> DConfirmReview k"
  shows "(\<exists>d'. draft_at (store_step df s e) k = Some d' \<and> draft_moves d d') \<or>
    draft_at (store_step df s e) k = None \<and> clean_candidate d"
proof (cases "only_moves e")
  case True
  from movedD [OF other_moved [OF ok True] d] show ?thesis by blast
next
  case False
  then show ?thesis
  proof (cases e)
    case (DLoad a b c n)
    with load_step [OF ok d] show ?thesis by simp
  next
    case (DDiscard j b)
    with d e show ?thesis
      by (auto simp: discardDraft_def discards_def clean_candidate_def rec_get_del split: option.splits)
  next
    case (DConfirmReview j)
    with d e show ?thesis by (auto simp: confirmFreshReview_def split: option.split)
  qed (use e in \<open>simp_all add: discards_def\<close>)
qed

section \<open>Guards\<close>

text \<open>
  A guard is a property of a draft that every move keeps and that protects the draft from eviction. It then
  holds after every history of the events that it allows for the draft's key.
\<close>

lemma confirm_recovery: "draft_at s k = Some d \<Longrightarrow> dr_isRecovery d \<Longrightarrow> confirmFreshReview s k = (False, s)"
  by (simp add: confirmFreshReview_def)

locale draft_guard =
  fixes guard :: "conflict_draft \<Rightarrow> bool"
    and allows :: "string \<Rightarrow> draft_event \<Rightarrow> bool"
  assumes guard_move: "guard d \<Longrightarrow> draft_move d d' \<Longrightarrow> guard d'"
    and guard_busy: "guard d \<Longrightarrow> \<not> clean_candidate d"
    and allows_spared: "allows k e \<Longrightarrow> \<not> discards e k"
    and allows_confirm: "guard d \<Longrightarrow> allows k (DConfirmReview k) \<Longrightarrow> dr_isRecovery d"
begin

lemma guard_moves: "draft_moves d d' \<Longrightarrow> guard d \<Longrightarrow> guard d'"
  by (induction rule: rtranclp_induct) (auto intro: guard_move)

lemma guard_step:
  assumes "drafts_ok s" and "draft_at s k = Some d" and "guard d" and "allows k e"
  shows "\<exists>d'. draft_at (store_step df s e) k = Some d' \<and> guard d' \<and> draft_moves d d'"
proof (cases "e = DConfirmReview k")
  case True
  with assms have "store_step df s e = s" using allows_confirm confirm_recovery by simp
  with assms show ?thesis by auto
next
  case False
  with step_draft [OF assms(1,2) allows_spared [OF assms(4)] False] guard_busy [OF assms(3)] show ?thesis
    using guard_moves assms(3) by blast
qed

lemma guard_run:
  assumes "drafts_ok s" and "draft_at s k = Some d" and "guard d" and "list_all (allows k) es"
  shows "\<exists>d'. draft_at (run_events (store_step df) s es) k = Some d' \<and> guard d' \<and> draft_moves d d'"
  using assms
proof (induction es arbitrary: s d)
  case (Cons e es)
  then obtain d1 where d1: "draft_at (store_step df s e) k = Some d1" "guard d1" "draft_moves d d1"
    using guard_step by (metis list.pred_inject(2))
  have "drafts_ok (store_step df s e)" using drafting.step_inv Cons.prems(1) by blast
  from Cons.IH [OF this d1(1,2)] Cons.prems(4) d1(3) show ?case by (auto intro: rtranclp_trans)
qed auto

end

lemma recovery_move: "dr_isRecovery d \<Longrightarrow> draft_move d d' \<Longrightarrow> dr_isRecovery d'"
  by (erule draft_move.cases)
    (auto simp: mark_recovery_def applyDraftUpdate_def applyDraftUndo_def applyDraftRedo_def go_to_entry_def
      startResolveAttempt_def completeResolveAttempt_def push_decision_def Let_def split: if_splits sum.splits option.splits)

interpretation recovering: draft_guard dr_isRecovery "\<lambda>k e. \<not> discards e k"
  by unfold_locales (auto simp: clean_candidate_def intro: recovery_move)

definition under_review :: "conflict_draft \<Rightarrow> bool" where
  "under_review d \<longleftrightarrow>
     dr_requiresReview d \<and> \<not> dr_isApplied d \<and> dr_inFlightAttempt d = None \<and> (dr_past d \<noteq> [] \<or> dr_future d \<noteq> [])"

lemma next_past_nonempty: "next_past d now \<noteq> []"
  by (simp add: next_past_def)

lemma capped_nonempty: "capped (p @ [x]) \<noteq> []"
  by (cases p) (auto simp: capped_def)

lemma review_move: "under_review d \<Longrightarrow> draft_move d d' \<Longrightarrow> under_review d'"
  unfolding under_review_def
  by (erule draft_move.cases)
    (auto simp: mark_recovery_def applyDraftUpdate_def updated_draft_def applyDraftUndo_def applyDraftRedo_def go_to_entry_def
      startResolveAttempt_def completeResolveAttempt_def push_decision_def Let_def next_past_nonempty capped_nonempty
      split: if_splits sum.splits option.splits)

interpretation reviewing: draft_guard under_review "\<lambda>k e. \<not> discards e k \<and> e \<noteq> DConfirmReview k"
  by unfold_locales (rule review_move, auto simp: clean_candidate_def under_review_def)

lemma recovery_refuses: "draft_at s k = Some d \<Longrightarrow> dr_isRecovery d \<or> dr_requiresReview d \<Longrightarrow>
    beginResolve s k action uuid now = (Inl NeedsFreshSnapshot, s)"
  by (auto simp: beginResolve_def startResolveAttempt_def)

lemma failed_recovers:
  assumes "dr_inFlightAttempt d = Some a" and "outcome \<noteq> OutcomeApplied"
  shows "dr_isRecovery (completeResolveAttempt d (ra_attemptId a) outcome now)"
  using assms by (simp add: completeResolveAttempt_def Let_def)

lemma import_reviewed:
  assumes ok: "drafts_ok s" and imp: "fst (importRecoveryDraft s r f now) = Inr u"
    and d: "draft_at s f = Some d" "draft_at s r = Some src" "dr_recoveryText src \<noteq> Some (dr_result d)"
  shows "\<exists>d'. draft_at (snd (importRecoveryDraft s r f now)) f = Some d' \<and> under_review d' \<and>
    dr_recoveryText src = Some (dr_result d')"
  using imp
proof (rule import_done)
  fix tx fresh b and e :: conflict_draft
  assume i: "importable s r f = Inr (tx, fresh)"
    and upd: "applyDraftUpdate (fresh\<lparr>dr_requiresReview := True\<rparr>) b tx now = (Inr (), e)"
    and drafts: "dg_drafts (snd (importRecoveryDraft s r f now)) =
      rec_set f (e\<lparr>dr_isApplied := False, dr_canCoalesceHistory := False\<rparr>) (dg_drafts s)"
  note I = importableD [OF i]
  have src: "dr_recoveryText src = Some tx" using i d(2) by (auto simp: importable_def split: option.splits if_splits)
  have fresh: "fresh = d" using I(1) d(1) by simp
  have "dr_inFlightAttempt fresh = None"
    using ok I(1,4) by (auto simp: drafts_ok_def draft_ok_def attempt_ok_def)
  have ne: "tx \<noteq> dr_result (fresh\<lparr>dr_requiresReview := True\<rparr>)" using d(3) src fresh by auto
  have "e = updated_draft (fresh\<lparr>dr_requiresReview := True\<rparr>) tx now"
    by (rule update_cases [OF upd ne]) simp
  with \<open>dr_inFlightAttempt fresh = None\<close> src show ?thesis
    by (simp add: drafts rec_get_set under_review_def updated_draft_def next_past_nonempty)
qed

section \<open>Budgets\<close>

lemma next_past_bytes:
  "measureHistoryBytes (next_past d now) = measureHistoryBytes (dr_past d) + (if coalescing d now then 0 else byte_length (dr_result d))"
proof (cases "coalescing d now")
  case True
  then obtain p e where "dr_past d = p @ [e]" by (metis coalescing_def rev_exhaust)
  with True show ?thesis by (simp add: next_past_def) (simp add: measureHistoryBytes_def)
next
  case False
  then show ?thesis by (simp add: next_past_def) (simp add: measureHistoryBytes_def text_entry_def)
qed

definition edit_budget :: "conflict_draft \<Rightarrow> js_text \<Rightarrow> bool \<Rightarrow> nat" where
  "edit_budget d s c =
     (let m = dr_metrics d in
      mt_sourceBytes m + byte_length s + (mt_historyBytes m + (if c then mt_resultBytes m else 0)) + mt_recoveryBytes m + byte_length s)"

lemma growth_accepted:
  assumes "checkProspectiveEditGrowth d b s mx md c = Inr mt" and "s \<noteq> dr_result d"
  shows "edit_budget d s c \<le> md" and "b + edit_budget d s c \<le> mx + mt_totalBytes (dr_metrics d)"
proof -
  have "int (edit_budget d s c) \<le> int md \<and> int b + (int (edit_budget d s c) - int (mt_totalBytes (dr_metrics d))) \<le> int mx"
    using assms unfolding checkProspectiveEditGrowth_def Let_def edit_budget_def by (auto split: if_splits)
  then show "edit_budget d s c \<le> md" "b + edit_budget d s c \<le> mx + mt_totalBytes (dr_metrics d)" by linarith+
qed

lemma updated_bytes:
  assumes "metrics_ok d" and "recovery_ok d" and "\<not> dr_isRecovery d"
  shows "mt_totalBytes (dr_metrics (updated_draft d s now)) \<le> edit_budget d s (\<not> coalescing d now)"
  using assms by (simp add: metrics_ok_def recovery_ok_def Let_def updated_draft_def next_past_bytes edit_budget_def)

lemma update_budget:
  assumes ok: "draft_ok d" and upd: "applyDraftUpdate d b s now = (Inr (), d')" and ne: "s \<noteq> dr_result d"
  shows "mt_totalBytes (dr_metrics d') \<le> DEFAULT_MAX_DRAFT_BYTES"
    and "b + mt_totalBytes (dr_metrics d') \<le> DEFAULT_MAX_TOTAL_BYTES + mt_totalBytes (dr_metrics d)"
proof -
  obtain mt where rec: "\<not> dr_isRecovery d" and d': "d' = updated_draft d s now"
    and chk: "checkProspectiveEditGrowth d b s DEFAULT_MAX_TOTAL_BYTES DEFAULT_MAX_DRAFT_BYTES (\<not> coalescing d now) = Inr mt"
    by (rule update_cases [OF upd ne])
  show "mt_totalBytes (dr_metrics d') \<le> DEFAULT_MAX_DRAFT_BYTES"
    "b + mt_totalBytes (dr_metrics d') \<le> DEFAULT_MAX_TOTAL_BYTES + mt_totalBytes (dr_metrics d)"
    using growth_accepted [OF chk ne] updated_bytes [OF draft_okD(4,2) [OF ok] rec, of s now]
    unfolding d' by linarith+
qed

lemma sum_rec_set:
  fixes f :: "'v \<Rightarrow> nat"
  shows "rec_get m k = Some d \<Longrightarrow>
    sum_list (map f (map snd (rec_set k d' m))) + f d = sum_list (map f (map snd m)) + f d'"
  by (induction m) (auto split: if_splits)

lemma set_new: "k \<notin> fst ` set m \<Longrightarrow> rec_set k d m = m @ [(k, d)]"
  by (induction m) auto

lemma registry_bytes_ge: "total_bytes (all_drafts s) \<le> registry_bytes s key"
  unfolding total_bytes_def registry_bytes_def by (rule sum_list_mono) simp

lemma update_within_budget:
  assumes ok: "drafts_ok s" and d: "draft_at s key = Some d" and ne: "tx \<noteq> dr_result d"
    and upd: "updateResult s key tx now = (Inr (), s')"
  shows "\<exists>d'. draft_at s' key = Some d' \<and> dr_result d' = tx \<and> mt_totalBytes (dr_metrics d') \<le> DEFAULT_MAX_DRAFT_BYTES"
    and "total_bytes (all_drafts s') \<le> DEFAULT_MAX_TOTAL_BYTES"
proof -
  obtain d' where app: "applyDraftUpdate d (registry_bytes s key) tx now = (Inr (), d')"
    and s': "s' = store_notify (with_draft s key d')"
    using upd d by (auto simp: updateResult_def split: sum.splits prod.splits)
  have dok: "draft_ok d" using ok d by (simp add: drafts_ok_def)
  note B = update_budget [OF dok app ne]
  have "dr_result d' = tx" by (rule update_cases [OF app ne]) (simp add: updated_draft_def)
  with B(1) show "\<exists>d'. draft_at s' key = Some d' \<and> dr_result d' = tx \<and> mt_totalBytes (dr_metrics d') \<le> DEFAULT_MAX_DRAFT_BYTES"
    by (simp add: s')
  have "total_bytes (all_drafts s') + mt_totalBytes (dr_metrics d) = total_bytes (all_drafts s) + mt_totalBytes (dr_metrics d')"
    using sum_rec_set [OF d, of "\<lambda>d. mt_totalBytes (dr_metrics d)" d'] by (simp add: s' total_bytes_def all_drafts_def with_draft_def)
  then show "total_bytes (all_drafts s') \<le> DEFAULT_MAX_TOTAL_BYTES"
    using B(2) registry_bytes_ge [of s key] by linarith
qed

lemma load_within_budget:
  assumes ok: "drafts_ok s" and new: "draft_at s (createDraftKey scope snap) = None"
    and load: "loadSnapshot df s scope snap labels now = (Inr k, s')"
  shows "total_bytes (all_drafts s') \<le> DEFAULT_MAX_TOTAL_BYTES"
proof (cases "admission df s scope snap labels now")
  case (Inl e)
  with load_refused(1) [OF new Inl] load show ?thesis by simp
next
  case (Inr ids)
  let ?s = "stale_marked scope snap s" and ?key = "createDraftKey scope snap"
  let ?d = "createInitialDraft df ?key scope snap labels now"
  let ?rest = "fold rec_del ids (dg_drafts ?s)"
  have ok': "drafts_ok ?s" by (rule moved_ok [OF stale_moved ok])
  obtain n where ids: "ids = map dr_id (take n (filter clean_candidate (all_drafts ?s)))"
    and fits: "int (total_bytes (all_drafts ?s)) - int (total_bytes (take n (filter clean_candidate (all_drafts ?s)))) +
      int (mt_totalBytes (dr_metrics ?d)) \<le> int DEFAULT_MAX_TOTAL_BYTES"
    by (rule admitted [OF Inr])
  let ?es = "take n (filter clean_candidate (all_drafts ?s))"
  have "map snd ?rest = filter (\<lambda>d. dr_id d \<notin> dr_id ` set ?es) (all_drafts ?s)"
  proof -
    have "dr_id d = k" if "(k, d) \<in> set (dg_drafts ?s)" for k d
      using that ok' by (simp add: drafts_ok_def rec_get_iff)
    then show ?thesis
      unfolding fold_del_filter all_drafts_def filter_map ids by (intro arg_cong [where f = "map snd"] filter_cong) auto
  qed
  moreover have "set ?es \<subseteq> set (all_drafts ?s)" by (auto dest: in_set_takeD)
  moreover have "distinct (all_drafts ?s)" using registry_ids(2) [OF ok'] by (simp add: distinct_map)
  then have "distinct ?es" by simp
  ultimately have freed: "total_bytes (map snd ?rest) + total_bytes ?es \<le> total_bytes (all_drafts ?s)"
    using bytes_removed [OF registry_ids(2) [OF ok']] by simp
  have "rec_get (dg_drafts ?s) ?key = None"
    using stale_moved [of s scope snap] new by (metis list.set_map map_of_eq_None_iff moved_def)
  then have "?key \<notin> fst ` set ?rest" by (simp add: map_of_eq_None_iff [symmetric] get_fold_del)
  then have "all_drafts s' = map snd ?rest @ [?d]"
    using load by (auto simp: load_admitted [OF new Inr] all_drafts_def with_draft_def set_new)
  then show ?thesis using freed fits by (simp add: total_bytes_def)
qed

section \<open>The timeline of undo and redo\<close>

text \<open>The texts of a draft from the oldest undo entry to the newest redo entry; the current text is at index \<open>length (dr_past d)\<close>.\<close>

definition timeline :: "conflict_draft \<Rightarrow> js_text list" where
  "timeline d = map he_text (dr_past d) @ dr_result d # rev (map he_text (dr_future d))"

lemma go_to_entry_simps [simp]:
  "dr_past (go_to_entry e now d) = dr_past d" "dr_future (go_to_entry e now d) = dr_future d"
  "dr_result (go_to_entry e now d) = he_text e"
  by (simp_all add: go_to_entry_def Let_def)

lemma undo_timeline:
  assumes "dr_past d \<noteq> []"
  shows "timeline (snd (applyDraftUndo d now)) = timeline d"
    and "Suc (length (dr_past (snd (applyDraftUndo d now)))) = length (dr_past d)"
proof -
  obtain p e where "dr_past d = p @ [e]" using assms by (metis rev_exhaust)
  then show "timeline (snd (applyDraftUndo d now)) = timeline d"
    "Suc (length (dr_past (snd (applyDraftUndo d now)))) = length (dr_past d)"
    by (simp_all add: applyDraftUndo_def timeline_def text_entry_def)
qed

lemma redo_timeline:
  assumes "dr_future d \<noteq> []"
  shows "timeline (snd (applyDraftRedo d now)) = timeline d"
    and "length (dr_past (snd (applyDraftRedo d now))) = Suc (length (dr_past d))"
proof -
  obtain p e where "dr_future d = p @ [e]" using assms by (metis rev_exhaust)
  then show "timeline (snd (applyDraftRedo d now)) = timeline d"
    "length (dr_past (snd (applyDraftRedo d now))) = Suc (length (dr_past d))"
    by (simp_all add: applyDraftRedo_def timeline_def text_entry_def)
qed

lemma result_timeline: "dr_result d = timeline d ! length (dr_past d)"
  by (simp add: timeline_def nth_append)

lemma future_timeline: "length (dr_future d) + Suc (length (dr_past d)) = length (timeline d)"
  by (simp add: timeline_def)

lemma undo_repeated:
  assumes "n \<le> length (dr_past d)"
  shows "timeline (((\<lambda>d. snd (applyDraftUndo d now)) ^^ n) d) = timeline d \<and>
    length (dr_past (((\<lambda>d. snd (applyDraftUndo d now)) ^^ n) d)) = length (dr_past d) - n"
  using assms
proof (induction n)
  case (Suc n)
  let ?d = "((\<lambda>d. snd (applyDraftUndo d now)) ^^ n) d"
  from Suc have "length (dr_past ?d) = length (dr_past d) - n" "timeline ?d = timeline d" "dr_past ?d \<noteq> []" by auto
  with undo_timeline [OF this(3), of now] show ?case by simp
qed simp

lemma redo_repeated:
  assumes "m \<le> length (dr_future d)"
  shows "timeline (((\<lambda>d. snd (applyDraftRedo d now)) ^^ m) d) = timeline d \<and>
    length (dr_past (((\<lambda>d. snd (applyDraftRedo d now)) ^^ m) d)) = length (dr_past d) + m"
  using assms
proof (induction m)
  case (Suc m)
  let ?d = "((\<lambda>d. snd (applyDraftRedo d now)) ^^ m) d"
  from Suc have len: "length (dr_past ?d) = length (dr_past d) + m" and t: "timeline ?d = timeline d" by auto
  then have "dr_future ?d \<noteq> []" using Suc.prems future_timeline [of ?d] future_timeline [of d] by auto
  with redo_timeline [OF this, of now] len t show ?case by simp
qed simp

section \<open>Deviations\<close>

text \<open>Ignoring a side or marking a region as reviewed advances the revision of the model and not that of the draft. A
  whole-file preview made afterwards carries the revision of the model, and confirming it is refused.\<close>

lemma remap_revision: "mm_resultRevision (next_revision (remap_model m s ds)) = mm_resultRevision m + 1"
  by (simp add: next_revision_def remap_model_def Let_def)

lemma preview_refused:
  assumes "draft_at s key = Some d" and "dr_mergeModel d = Some m" and "mm_resultRevision m \<noteq> dr_resultRevision d"
    and "\<not> dr_isRecovery d" "\<not> dr_isResolving d" "\<not> dr_isApplied d" and "key \<noteq> ''''"
    and "\<And>m. wp_targetRevision (preview m) = mm_resultRevision m"
  shows "\<exists>p. store_preview preview s key = Some p \<and> store_confirmWholeFileAction s key p now = (Inl ModifiedAfterPreview, s)"
  using assms by (simp add: store_preview_def store_confirmWholeFileAction_def)

lemma whole_file_refused_after_ignore:
  assumes d: "draft_at s key = Some d" "dr_mergeModel d = Some m" "mm_resultRevision m = dr_resultRevision d" and key: "key \<noteq> ''''"
    and ignore: "store_ignoreSide s key rid x now = (Inr (), s')"
  shows "\<exists>p. store_previewAcceptAllOurs s' key = Some p \<and> store_confirmWholeFileAction s' key p now' = (Inl ModifiedAfterPreview, s')"
proof -
  let ?d' = "\<lambda>m'. push_decision d m (''Ignore '' @ side_text x @ '' on '' @ rid) now m'"
  obtain m' where dec: "decidable_draft s key = Inr (d, m)" and m': "ignoreRegionSide m rid x = Inr m'"
    and s': "s' = store_notify (with_draft s key (?d' m'))"
    using ignore d by (auto simp: store_ignoreSide_def decidable_draft_def split: sum.splits option.splits if_splits)
  have "mm_resultRevision m' = mm_resultRevision m + 1"
    using m' by (auto simp: ignoreRegionSide_def remap_revision split: option.splits if_splits)
  moreover have "dr_resultRevision (?d' m') = dr_resultRevision d" by (simp add: push_decision_def measured_def)
  ultimately have ne: "mm_resultRevision m' \<noteq> dr_resultRevision (?d' m')" using d(3) by simp
  have at: "draft_at s' key = Some (?d' m')" "dr_mergeModel (?d' m') = Some m'" by (simp_all add: s' push_decision_def)
  have "\<not> dr_isRecovery (?d' m')" "\<not> dr_isResolving (?d' m')" "\<not> dr_isApplied (?d' m')"
    using decidableD [OF dec] by (simp_all add: push_decision_def)
  from preview_refused [OF at ne this key, of previewAcceptAllOurs] show ?thesis
    unfolding store_previewAcceptAllOurs_def by (simp add: previewAcceptAllOurs_def preview_of_def)
qed

text \<open>Undo in recovery measures the recovery text before it replaces it.\<close>

lemma undo_measures_old_recovery:
  assumes "draft_ok d" and "dr_isRecovery d" and "dr_past d \<noteq> []"
  shows "mt_recoveryBytes (dr_metrics (snd (applyDraftUndo d now))) = byte_length (dr_result d)"
    and "dr_recoveryText (snd (applyDraftUndo d now)) = Some (he_text (last (dr_past d)))"
  using assms by (simp_all add: applyDraftUndo_def go_to_entry_def Let_def draft_ok_def recovery_ok_def)

end
