(* ===== verification/Draft_Properties.thy ===== *)
theory Draft_Properties
  imports Conflict_Properties Draft_Registry
begin

text \<open>
  The properties of the registry of conflict drafts, for every history of events that starts with the empty
  registry.
\<close>

section \<open>Concrete inputs\<close>

definition demo_scope :: owner_scope where
  "demo_scope =
     \<lparr>os_profileId = ''p'', os_generation = 1, os_serverUrl = ''h:1'', os_configuredRoot = None, os_project = ''x'',
      os_worktreePath = None, os_root = None\<rparr>"

definition demo_stage :: "string \<Rightarrow> stage_descriptor" where
  "demo_stage s =
     \<lparr>sd_stage = 2, sd_path = None, sd_oid = None, sd_mode = 33188, sd_byteSize = 2, sd_kind = ''text'',
      sd_textTokens = Some [demo_line s]\<rparr>"

definition demo_snapshot :: "string \<Rightarrow> conflict_snapshot" where
  "demo_snapshot version =
     \<lparr>sn_conflictId = ''c'', sn_path = ''f'', sn_repositoryRoot = ''r'', sn_worktreeRoot = ''w'', sn_snapshotVersion = version,
      sn_fullIndexFingerprint = ''i'', sn_status = ''ok'', sn_unsupportedReason = None,
      sn_stages = \<lparr>cs_base = None, cs_ours = Some (demo_stage ''a''), cs_theirs = Some (demo_stage ''b'')\<rparr>,
      sn_worktree = \<lparr>wd_exists = True, wd_kind = ''text'', wd_mode = 33188, wd_byteLength = 2, wd_textTokens = Some [demo_line ''t''],
        wd_hasConflictMarkers = False, wd_isDirtyVsStages = False\<rparr>,
      sn_effectiveAttributes = \<lparr>ea_eol = None, ea_encoding = None, ea_ident = False, ea_filterQualified = False\<rparr>\<rparr>"

definition demo_key :: "string \<Rightarrow> string" where
  "demo_key version = createDraftKey demo_scope (demo_snapshot version)"

definition demo_load :: "string \<Rightarrow> draft_event" where
  "demo_load version = DLoad demo_scope (demo_snapshot version) None 1"

definition demo_drafts :: "draft_event list \<Rightarrow> draft_registry" where
  "demo_drafts es = run_events (store_step demo_diff) new_registry es"

definition demo_edited :: "draft_event list" where
  "demo_edited = [demo_load ''1'', DEdit (demo_key ''1'') (lit ''u'') 2000]"

definition demo_draft :: "string \<Rightarrow> conflict_draft" where
  "demo_draft version = createInitialDraft demo_diff (demo_key version) demo_scope (demo_snapshot version) None 1"

lemma demo_bytes: "byte_length (demo_line ''a'') = 2" "byte_length (demo_line ''b'') = 2" "byte_length (demo_line ''t'') = 2"
    "byte_length (lit ''u'') = 1"
  by code_simp+

lemma demo_draft_simps [simp]:
  "dr_id (demo_draft v) = demo_key v" "dr_result (demo_draft v) = demo_line ''t''" "dr_initialResult (demo_draft v) = demo_line ''t''"
  "\<not> dr_isDirty (demo_draft v)" "\<not> dr_isResolving (demo_draft v)" "\<not> dr_isApplied (demo_draft v)" "\<not> dr_isRecovery (demo_draft v)"
  "\<not> dr_requiresReview (demo_draft v)" "dr_inFlightAttempt (demo_draft v) = None" "dr_appliedResult (demo_draft v) = None"
  "dr_past (demo_draft v) = []" "dr_future (demo_draft v) = []" "dr_scope (demo_draft v) = demo_scope"
  "ti_conflictId (dr_target (demo_draft v)) = ''c''" "ti_path (dr_target (demo_draft v)) = ''f''"
  "ca_repositoryRoot (dr_authority (demo_draft v)) = ''r''" "ca_worktreeRoot (dr_authority (demo_draft v)) = ''w''"
  "dr_metrics (demo_draft v) =
     \<lparr>mt_sourceBytes = 6, mt_resultBytes = 2, mt_historyBytes = 0, mt_recoveryBytes = 0, mt_totalBytes = 8\<rparr>"
  "\<not> dr_canCoalesceHistory (demo_draft v)" "dr_recoveryText (demo_draft v) = None"
  by (simp_all add: demo_draft_def createInitialDraft_def demo_snapshot_def initial_text_def joined_def calculateDraftMetrics_def
      measureSourceBytes_def stage_bytes_def tokens_bytes_def demo_stage_def demo_bytes measureHistoryBytes_def)

lemma demo_loaded: "store_step demo_diff new_registry (demo_load v) = store_notify (with_draft new_registry (demo_key v) (demo_draft v))"
  using demo_draft_simps(18) [of v]
  by (simp add: demo_load_def loadSnapshot_def demo_key_def [symmetric] demo_draft_def [symmetric] new_registry_def map_drafts_def
      all_drafts_def canAdmitDraft_def total_bytes_def DEFAULT_MAX_DRAFT_BYTES_def DEFAULT_MAX_DIRTY_DRAFTS_def
      DEFAULT_MAX_TOTAL_BYTES_def Let_def del: One_nat_def)

lemma demo_line_u: "lit ''u'' \<noteq> demo_line ''t''" "demo_line ''t'' \<noteq> lit ''u''"
  by code_simp+

lemma demo_update:
  "updateResult (store_notify (with_draft new_registry (demo_key v) (demo_draft v))) (demo_key v) (lit ''u'') 2000 =
     (Inr (), store_notify (with_draft (store_notify (with_draft new_registry (demo_key v) (demo_draft v))) (demo_key v)
        (updated_draft (demo_draft v) (lit ''u'') 2000)))"
  by (simp add: updateResult_def applyDraftUpdate_def checkProspectiveEditGrowth_def coalescing_def registry_bytes_def all_drafts_def
      with_draft_def new_registry_def demo_line_u demo_bytes DEFAULT_MAX_DRAFT_BYTES_def DEFAULT_MAX_TOTAL_BYTES_def Let_def)

definition demo_updated :: conflict_draft where
  "demo_updated = updated_draft (demo_draft ''1'') (lit ''u'') 2000"

lemma demo_updated_simps [simp]:
  "dr_id demo_updated = demo_key ''1''" "dr_result demo_updated = lit ''u''" "dr_scope demo_updated = demo_scope"
  "dr_target demo_updated = dr_target (demo_draft ''1'')" "dr_authority demo_updated = dr_authority (demo_draft ''1'')"
  "dr_isDirty demo_updated" "\<not> dr_isRecovery demo_updated" "\<not> dr_isResolving demo_updated" "\<not> dr_isApplied demo_updated"
  "dr_inFlightAttempt demo_updated = None" "dr_future demo_updated = []" "length (dr_past demo_updated) = 1"
  "measureHistoryBytes (dr_past demo_updated) = 2" "mt_sourceBytes (dr_metrics demo_updated) = 6"
  by (simp_all add: demo_updated_def updated_draft_def measured_def retainRecoveryResult_def next_past_def coalescing_def text_entry_def
      calculateDraftMetrics_def measureHistoryBytes_def reference_result_def demo_bytes demo_line_u Let_def)

lemma demo_edited_state: "demo_drafts demo_edited =
    store_notify (with_draft (store_notify (with_draft new_registry (demo_key ''1'') (demo_draft ''1''))) (demo_key ''1'') demo_updated)"
  by (simp add: demo_drafts_def demo_edited_def demo_loaded demo_update demo_updated_def)

lemma demo_edited_at: "draft_at (demo_drafts demo_edited) (demo_key ''1'') = Some demo_updated"
  by (simp add: demo_edited_state)

lemma demo_keys: "demo_key ''1'' \<noteq> demo_key ''2''"
  by code_simp

definition demo_recovered :: conflict_draft where
  "demo_recovered = mark_recovery ''Conflict snapshot changed; import into a fresh snapshot and review'' demo_updated"

lemma demo_recovered_simps [simp]:
  "dr_id demo_recovered = demo_key ''1''" "dr_recoveryText demo_recovered = Some (lit ''u'')" "dr_scope demo_recovered = demo_scope"
  "dr_target demo_recovered = dr_target (demo_draft ''1'')" "dr_authority demo_recovered = dr_authority (demo_draft ''1'')"
  "dr_isRecovery demo_recovered" "dr_isDirty demo_recovered"
  "dr_metrics demo_recovered =
     \<lparr>mt_sourceBytes = 6, mt_resultBytes = 1, mt_historyBytes = 2, mt_recoveryBytes = 1, mt_totalBytes = 10\<rparr>"
  by (simp_all add: demo_recovered_def mark_recovery_def measured_def calculateDraftMetrics_def demo_bytes Let_def)
    (simp add: measureHistoryBytes_def)?

definition demo_reloaded :: draft_registry where
  "demo_reloaded = demo_drafts (demo_edited @ [demo_load ''2''])"

lemma demo_reloaded_drafts: "dg_drafts demo_reloaded = [(demo_key ''1'', demo_recovered), (demo_key ''2'', demo_draft ''2'')]"
proof -
  let ?s = "demo_drafts demo_edited"
  have drafts: "dg_drafts ?s = [(demo_key ''1'', demo_updated)]"
    by (simp add: demo_edited_state with_draft_def store_notify_def new_registry_def)
  have "outdated_by demo_scope (demo_snapshot ''2'') (demo_key ''2'') demo_updated"
    using demo_keys by (simp add: outdated_by_def matchesOwnerScope_def busy_draft_def demo_snapshot_def)
  then have stale: "dg_drafts (stale_marked demo_scope (demo_snapshot ''2'') ?s) = [(demo_key ''1'', demo_recovered)]"
    by (simp add: stale_marked_def map_drafts_def drafts demo_key_def [symmetric] demo_recovered_def)
  have new: "draft_at ?s (createDraftKey demo_scope (demo_snapshot ''2'')) = None"
    using demo_keys by (simp add: drafts demo_key_def [symmetric])
  have "admission demo_diff ?s demo_scope (demo_snapshot ''2'') None 1 = Inr []"
    unfolding demo_key_def [symmetric] demo_draft_def [symmetric]
    by (simp add: all_drafts_def stale canAdmitDraft_def total_bytes_def DEFAULT_MAX_DRAFT_BYTES_def
        DEFAULT_MAX_DIRTY_DRAFTS_def DEFAULT_MAX_TOTAL_BYTES_def)
  from load_admitted [OF new this] demo_keys
  have "dg_drafts (store_step demo_diff ?s (demo_load ''2'')) = [(demo_key ''1'', demo_recovered), (demo_key ''2'', demo_draft ''2'')]"
    by (simp add: demo_load_def stale with_draft_def demo_key_def [symmetric] demo_draft_def [symmetric] del: One_nat_def)
  then show ?thesis by (simp add: demo_reloaded_def demo_drafts_def demo_edited_def)
qed

lemma demo_imported: "\<exists>s1. importRecoveryDraft demo_reloaded (demo_key ''1'') (demo_key ''2'') 3000 = (Inr (), s1)"
proof -
  have "importable demo_reloaded (demo_key ''1'') (demo_key ''2'') = Inr (lit ''u'', demo_draft ''2'')"
    using demo_keys by (simp add: importable_def demo_reloaded_drafts same_place_def haveServerUrlsChanged_def)
  then show ?thesis using demo_keys
    by (simp add: importRecoveryDraft_def updateResult_def applyDraftUpdate_def checkProspectiveEditGrowth_def coalescing_def
        registry_bytes_def all_drafts_def with_draft_def demo_reloaded_drafts demo_line_u demo_bytes DEFAULT_MAX_DRAFT_BYTES_def
        DEFAULT_MAX_TOTAL_BYTES_def Let_def)
qed

section \<open>Drafts\<close>

text \<open>C2. Work that was not sent is never lost by accident: in every reachable registry a draft that is being resolved, is
  kept for recovery, or whose text differs from the text it started with or was applied as, is still there after any
  further event, with the same scope, target and authority, unless the event is the confirmed discard of that draft or
  the reset of the registry. Loading snapshots under memory pressure and retiring connections are such events.\<close>

theorem unsent_draft_kept:
  assumes "s = run_events (store_step diff3MergeRegions) new_registry es" and "draft_at s k = Some d"
    and "busy_draft d \<or> dr_result d \<noteq> reference_result d" and "\<not> discards e k"
  shows "\<exists>d'. draft_at (store_step diff3MergeRegions s e) k = Some d' \<and>
    dr_scope d' = dr_scope d \<and> dr_target d' = dr_target d \<and> dr_authority d' = dr_authority d"
proof -
  have ok: "drafts_ok s" by (simp add: assms(1) reachable_drafts_ok)
  then have "draft_ok d" using assms(2) by (simp add: drafts_ok_def)
  show ?thesis
  proof (cases "e = DConfirmReview k")
    case True
    with assms(2) show ?thesis by (auto simp: confirmFreshReview_def measured_def)
  next
    case False
    have "\<not> clean_candidate d" using assms(3) \<open>draft_ok d\<close> by (auto simp: busy_draft_def clean_candidate_def dest: draft_okD(3) clean_result)
    with step_draft [OF ok assms(2,4) False] moves_identity show ?thesis by blast
  qed
qed

theorem unsent_draft_kept_witness:
  "\<exists>d'. draft_at (store_step demo_diff (demo_drafts demo_edited) (demo_load ''2'')) (demo_key ''1'') = Some d' \<and>
    dr_scope d' = demo_scope"
  using unsent_draft_kept [of "demo_drafts demo_edited" demo_diff demo_edited "demo_key ''1''" demo_updated "demo_load ''2''"]
  by (auto simp: demo_edited_at demo_drafts_def [symmetric] busy_draft_def discards_def demo_load_def)


text \<open>C9. A resolve attempt that did not apply is never resubmitted from the same draft: once its outcome is anything but
  applied, the draft keeps its text for recovery through every further history of events that does not discard it,
  and every attempt to resolve it is refused for a fresh snapshot, with no effect.\<close>

theorem failed_attempt_never_resubmitted:
  assumes "s = run_events (store_step diff3MergeRegions) new_registry es" and "draft_at s k = Some d"
    and "dr_inFlightAttempt d = Some a" and "outcome \<noteq> OutcomeApplied"
    and "s' = run_events (store_step diff3MergeRegions) (reconcileOutcome s k (ra_attemptId a) outcome now) es'"
    and "list_all (\<lambda>e. \<not> discards e k) es'"
  shows "\<exists>d'. draft_at s' k = Some d' \<and> dr_isRecovery d' \<and> dr_recoveryText d' = Some (dr_result d') \<and>
    beginResolve s' k action uuid now' = (Inl NeedsFreshSnapshot, s')"
proof -
  let ?s1 = "store_step diff3MergeRegions s (DReconcile k (ra_attemptId a) outcome now)"
  have ok1: "drafts_ok ?s1" using drafting.step_inv reachable_drafts_ok assms(1) by blast
  have s': "s' = run_events (store_step diff3MergeRegions) ?s1 es'" by (simp add: assms(5))
  have "draft_at ?s1 k = Some (completeResolveAttempt d (ra_attemptId a) outcome now)"
    using assms(2) by (simp add: reconcileOutcome_def)
  then obtain d' where d': "draft_at s' k = Some d'" "dr_isRecovery d'"
    using recovering.guard_run [OF ok1 _ failed_recovers [OF assms(3,4)] assms(6)] s' by blast
  have "drafts_ok s'" unfolding s' by (rule drafting.run_inv [OF ok1]) simp
  then have "draft_ok d'" using d'(1) by (simp add: drafts_ok_def)
  with d'(2) have "dr_recoveryText d' = Some (dr_result d')" by (simp add: draft_ok_def recovery_ok_def)
  with d' recovery_refuses show ?thesis by blast
qed

theorem failed_attempt_never_resubmitted_witness:
  "\<exists>s a s'. draft_at s (demo_key ''1'') = Some a \<and> dr_isResolving a \<and>
     s' = run_events (store_step demo_diff) (reconcileOutcome s (demo_key ''1'') ''att'' (OutcomeStale ''x'') 4)
       [demo_load ''2'', DUndo (demo_key ''1'') 5] \<and>
     beginResolve s' (demo_key ''1'') DeleteFile ''again'' 6 = (Inl NeedsFreshSnapshot, s')"
proof -
  let ?es = "[demo_load ''1'', DBegin (demo_key ''1'') DeleteFile ''att'' 3]"
  let ?a = "\<lparr>ra_attemptId = ''att'', ra_submittedRevision = dr_resultRevision (demo_draft ''1''), ra_submittedTokens = [],
      ra_action = DeleteFile, ra_dispatchedAt = 3\<rparr>"
  let ?d = "(demo_draft ''1'')\<lparr>dr_isResolving := True, dr_canCoalesceHistory := False, dr_inFlightAttempt := Some ?a\<rparr>"
  let ?s = "demo_drafts ?es"
  let ?s' = "run_events (store_step demo_diff) (reconcileOutcome ?s (demo_key ''1'') ''att'' (OutcomeStale ''x'') 4)
      [demo_load ''2'', DUndo (demo_key ''1'') 5]"
  have "draft_at ?s (demo_key ''1'') = Some ?d"
    by (simp add: demo_drafts_def demo_loaded beginResolve_def startResolveAttempt_def Let_def)
  with failed_attempt_never_resubmitted [of ?s demo_diff ?es "demo_key ''1''" ?d ?a "OutcomeStale ''x''" ?s' 4
      "[demo_load ''2'', DUndo (demo_key ''1'') 5]" DeleteFile "''again''" 6]
  have "draft_at ?s (demo_key ''1'') = Some ?d \<and> dr_isResolving ?d \<and>
      beginResolve ?s' (demo_key ''1'') DeleteFile ''again'' 6 = (Inl NeedsFreshSnapshot, ?s')"
    by (auto simp: demo_drafts_def discards_def demo_load_def)
  then show ?thesis by blast
qed

text \<open>C22. Text imported from a recovery draft waits for a review: after a successful import of a text the fresh draft did not
  have, the fresh draft holds exactly the recovered text, and through every further history of events without the
  confirmation of its review or its discard it requires review, and every attempt to resolve it is refused.\<close>

theorem imported_text_needs_review:
  assumes "s = run_events (store_step diff3MergeRegions) new_registry es"
    and "draft_at s r = Some src" and "draft_at s f = Some d" and "dr_recoveryText src \<noteq> Some (dr_result d)"
    and "importRecoveryDraft s r f now = (Inr (), s1)"
    and "s' = run_events (store_step diff3MergeRegions) s1 es'"
    and "list_all (\<lambda>e. \<not> discards e f \<and> e \<noteq> DConfirmReview f) es'"
  shows "(\<exists>d1. draft_at s1 f = Some d1 \<and> dr_recoveryText src = Some (dr_result d1)) \<and>
    (\<exists>d'. draft_at s' f = Some d' \<and> dr_requiresReview d') \<and>
    beginResolve s' f action uuid now' = (Inl NeedsFreshSnapshot, s')"
proof -
  have ok: "drafts_ok s" by (simp add: assms(1) reachable_drafts_ok)
  have s1: "s1 = store_step diff3MergeRegions s (DImport r f now)" by (simp add: assms(5))
  obtain d1 where d1: "draft_at s1 f = Some d1" "under_review d1" "dr_recoveryText src = Some (dr_result d1)"
    using import_reviewed [OF ok _ assms(3,2,4), of now "()"] by (auto simp: assms(5))
  have "drafts_ok s1" unfolding s1 using drafting.step_inv [OF ok] by blast
  then obtain d' where "draft_at s' f = Some d'" "under_review d'"
    using reviewing.guard_run [OF _ d1(1,2) assms(7)] by (auto simp: assms(6))
  then have "draft_at s' f = Some d'" "dr_requiresReview d'" by (simp_all add: under_review_def)
  with recovery_refuses d1 show ?thesis by blast
qed

theorem imported_text_needs_review_witness:
  "\<exists>s1 d1. importRecoveryDraft demo_reloaded (demo_key ''1'') (demo_key ''2'') 3000 = (Inr (), s1) \<and>
     draft_at s1 (demo_key ''2'') = Some d1 \<and> dr_result d1 = lit ''u'' \<and>
     beginResolve s1 (demo_key ''2'') DeleteFile ''att'' 4000 = (Inl NeedsFreshSnapshot, s1)"
proof -
  obtain s1 where s1: "importRecoveryDraft demo_reloaded (demo_key ''1'') (demo_key ''2'') 3000 = (Inr (), s1)"
    using demo_imported by blast
  have "draft_at demo_reloaded (demo_key ''1'') = Some demo_recovered" "draft_at demo_reloaded (demo_key ''2'') = Some (demo_draft ''2'')"
    using demo_keys by (simp_all add: demo_reloaded_drafts)
  with imported_text_needs_review [OF _ _ _ _ s1, of demo_diff "demo_edited @ [demo_load ''2'']" demo_recovered "demo_draft ''2''" s1 "[]"
      DeleteFile "''att''" 4000] s1
  show ?thesis by (auto simp: demo_line_u demo_reloaded_def demo_drafts_def)
qed

text \<open>C23. The memory budgets hold: an edit that is accepted leaves the edited draft within the budget of one draft and all
  drafts within the budget of the registry, and a new snapshot that is admitted, after evicting what may be evicted,
  leaves all drafts within the budget of the registry.\<close>

theorem draft_budgets:
  assumes "s = run_events (store_step diff3MergeRegions) new_registry es"
  shows "(draft_at s key = Some d \<and> tx \<noteq> dr_result d \<and> updateResult s key tx now = (Inr (), s') \<longrightarrow>
      (\<exists>d'. draft_at s' key = Some d' \<and> dr_result d' = tx \<and> mt_totalBytes (dr_metrics d') \<le> DEFAULT_MAX_DRAFT_BYTES) \<and>
      total_bytes (all_drafts s') \<le> DEFAULT_MAX_TOTAL_BYTES) \<and>
    (draft_at s (createDraftKey scope snap) = None \<and>
     loadSnapshot diff3MergeRegions s scope snap labels now = (Inr key', s'') \<longrightarrow>
      total_bytes (all_drafts s'') \<le> DEFAULT_MAX_TOTAL_BYTES)"
proof -
  have ok: "drafts_ok s" by (simp add: assms reachable_drafts_ok)
  from update_within_budget [OF ok] load_within_budget [OF ok] show ?thesis by blast
qed

theorem draft_budgets_witness:
  "total_bytes (all_drafts (demo_drafts demo_edited)) \<le> DEFAULT_MAX_TOTAL_BYTES"
proof -
  let ?s = "demo_drafts [demo_load ''1'']"
  have "draft_at ?s (demo_key ''1'') = Some (demo_draft ''1'')" by (simp add: demo_drafts_def demo_loaded)
  moreover have "updateResult ?s (demo_key ''1'') (lit ''u'') 2000 = (Inr (), demo_drafts demo_edited)"
    by (simp add: demo_drafts_def demo_edited_def demo_loaded demo_update)
  ultimately show ?thesis
    using draft_budgets [of ?s demo_diff "[demo_load ''1'']" "demo_key ''1''" "demo_draft ''1''" "lit ''u''" 2000 "demo_drafts demo_edited"]
    by (simp add: demo_drafts_def demo_line_u)
qed

text \<open>C26. Undo and redo walk along the timeline of a draft, the texts of its past, its present text and the texts of its
  future: undoing n times shows the text n places earlier, redoing m of them shows the text m places later again, and
  neither changes the timeline.\<close>

theorem draft_timeline:
  assumes "n \<le> length (dr_past d)" and "m \<le> n"
    and "u = ((\<lambda>d. snd (applyDraftUndo d now)) ^^ n) d" and "r = ((\<lambda>d. snd (applyDraftRedo d now)) ^^ m) u"
  shows "dr_result u = timeline d ! (length (dr_past d) - n) \<and>
    dr_result r = timeline d ! (length (dr_past d) - n + m) \<and> timeline u = timeline d \<and> timeline r = timeline d"
proof -
  have u: "timeline u = timeline d" "length (dr_past u) = length (dr_past d) - n"
    using undo_repeated [OF assms(1)] by (simp_all add: assms(3))
  then have "m \<le> length (dr_future u)" using future_timeline [of u] future_timeline [of d] assms(1,2) by simp
  then have "timeline r = timeline d" "length (dr_past r) = length (dr_past d) - n + m"
    using redo_repeated [of m u now] u by (simp_all add: assms(4))
  with u show ?thesis by (simp add: result_timeline)
qed

theorem draft_timeline_witness:
  "dr_result (snd (applyDraftUndo demo_updated 5)) = timeline demo_updated ! 0 \<and>
   dr_result (snd (applyDraftRedo (snd (applyDraftUndo demo_updated 5)) 5)) = lit ''u''"
  using draft_timeline [of 1 demo_updated 1 "snd (applyDraftUndo demo_updated 5)" 5
      "snd (applyDraftRedo (snd (applyDraftUndo demo_updated 5)) 5)"] result_timeline [of demo_updated]
  by simp


end
