(* ===== verification/Sse_Parser.thy ===== *)
theory Sse_Parser
  imports Js_Text
begin

text \<open>
  The streaming parser of host resource events, class \<^verbatim>\<open>HostResourceSseParser\<close> of
  \<^verbatim>\<open>packages/ui/src/api/host-resource-sse-parser.ts\<close>. The loop of \<^verbatim>\<open>push\<close> is a partial function on
  the parser's state, the pieces so far and the index \<^verbatim>\<open>scanIdx\<close>; it is shown to return for every input.
  Bytes are natural numbers. The text of an error message is left out where it only repeats the fields.
\<close>

section \<open>State\<close>

definition MAX_DATA_EVENT_BYTES :: nat where "MAX_DATA_EVENT_BYTES = 262144"
definition MAX_CONTROL_EVENT_BYTES :: nat where "MAX_CONTROL_EVENT_BYTES = 4096"

datatype sse_piece =
    SseEvent js_text js_text
  | SseComment js_text
  | OversizeEvent nat "js_text option" nat
  | InvalidUtf8
  | ProtocolError "js_text option"

record sse_state =
  sp_buffer :: "nat list"
  sp_eventName :: "js_text option"
  sp_dataLines :: "js_text list"
  sp_rawBytes :: nat
  sp_discarding :: bool

definition new_parser :: sse_state where
  "new_parser = \<lparr>sp_buffer = [], sp_eventName = None, sp_dataLines = [], sp_rawBytes = 0, sp_discarding = False\<rparr>"

definition resetEventState :: "sse_state \<Rightarrow> sse_state" where
  "resetEventState st = st\<lparr>sp_eventName := None, sp_dataLines := [], sp_rawBytes := 0\<rparr>"

definition discard_event :: "sse_state \<Rightarrow> sse_state" where
  "discard_event st = resetEventState (st\<lparr>sp_discarding := True\<rparr>)"

definition control_name :: "js_text option \<Rightarrow> bool" where
  "control_name n \<longleftrightarrow> n = Some (lit ''host-resources-status'') \<or> n = Some (lit ''host-resources-error'')"

definition event_limit :: "js_text option \<Rightarrow> nat" where
  "event_limit n = (if control_name n then MAX_CONTROL_EVENT_BYTES else MAX_DATA_EVENT_BYTES)"

section \<open>One line\<close>

text \<open>\<open>lines.join("\n")\<close>\<close>

fun join_lines :: "js_text list \<Rightarrow> js_text" where
  "join_lines [] = []"
| "join_lines [l] = l"
| "join_lines (l # ls) = l @ LF # join_lines ls"

text \<open>The dispatch at a blank line.\<close>

definition dispatch_event :: "sse_state \<Rightarrow> sse_piece list" where
  "dispatch_event st =
     (if sp_dataLines st = [] then []
      else
        (case sp_eventName st of
           None \<Rightarrow> [ProtocolError None]
         | Some name \<Rightarrow>
             if name = lit ''host-resources'' \<or> control_name (Some name)
             then
               let requiredLimit = (if name = lit ''host-resources'' then MAX_DATA_EVENT_BYTES else MAX_CONTROL_EVENT_BYTES)
               in if sp_rawBytes st > requiredLimit then [OversizeEvent requiredLimit (Some name) (sp_rawBytes st)]
                  else [SseEvent name (join_lines (sp_dataLines st))]
             else [ProtocolError (Some name)]))"

definition strip_space :: "js_text \<Rightarrow> js_text" where
  "strip_space s = (case s of c # t \<Rightarrow> if c = 0x20 then t else s | [] \<Rightarrow> [])"

definition field_value :: "js_text \<Rightarrow> js_text \<times> js_text" where
  "field_value lineText =
     (let field = takeWhile (\<lambda>c. c \<noteq> 0x3A) lineText
      in (field, strip_space (drop (length field + 1) lineText)))"

text \<open>A decoded line: a comment, an event name, a line of data, or a field that is ignored.\<close>

definition sse_field :: "sse_state \<Rightarrow> js_text \<Rightarrow> sse_piece list \<times> sse_state" where
  "sse_field st lineText =
     (if lineText \<noteq> [] \<and> hd lineText = 0x3A then ([SseComment (strip_space (tl lineText))], st)
      else
        let (field, val) = field_value lineText in
        if field = lit ''event''
        then
          let st1 = st\<lparr>sp_eventName := Some val\<rparr> in
          if control_name (Some val) \<and> sp_rawBytes st1 > MAX_CONTROL_EVENT_BYTES
          then ([OversizeEvent MAX_CONTROL_EVENT_BYTES (Some val) (sp_rawBytes st1)], discard_event st1)
          else ([], st1)
        else if field = lit ''data'' then ([], st\<lparr>sp_dataLines := sp_dataLines st @ [val]\<rparr>)
        else ([], st))"

text \<open>A complete line with its delimiter of \<open>delimiterLen\<close> bytes.\<close>

definition sse_line :: "sse_state \<Rightarrow> nat list \<Rightarrow> nat \<Rightarrow> sse_piece list \<times> sse_state" where
  "sse_line st lineBytes delimiterLen =
     (let st1 = st\<lparr>sp_rawBytes := sp_rawBytes st + (length lineBytes + delimiterLen)\<rparr>;
          limit = event_limit (sp_eventName st1);
          oversize = (sp_rawBytes st1 > limit \<and> \<not> sp_discarding st1);
          ps = (if oversize then [OversizeEvent limit (sp_eventName st1) (sp_rawBytes st1)] else []);
          st2 = (if oversize then discard_event st1 else st1)
      in if sp_discarding st2
         then (ps, if lineBytes = [] then resetEventState (st2\<lparr>sp_discarding := False\<rparr>) else st2)
         else if lineBytes = [] then (ps @ dispatch_event st2, resetEventState st2)
         else
           (case decode_utf8_fatal lineBytes of
              None \<Rightarrow> (ps @ [InvalidUtf8], discard_event st2)
            | Some lineText \<Rightarrow> let (qs, st3) = sse_field st2 lineText in (ps @ qs, st3)))"

section \<open>The loop\<close>

text \<open>The search for \<^verbatim>\<open>\n\<close>, \<^verbatim>\<open>\r\n\<close> or \<^verbatim>\<open>\r\<close> from index \<open>i\<close>: its index and length. A \<^verbatim>\<open>\r\<close> at the very end waits.\<close>

function find_delimiter :: "nat list \<Rightarrow> nat \<Rightarrow> (nat \<times> nat) option" where
  "find_delimiter buffer i =
     (if i < length buffer
      then
        if buffer ! i = 0x0A then Some (i, 1)
        else if buffer ! i = 0x0D
        then if i + 1 < length buffer then Some (i, if buffer ! (i + 1) = 0x0A then 2 else 1) else None
        else find_delimiter buffer (i + 1)
      else None)"
  by pat_completeness auto
termination by (relation "measure (\<lambda>(buffer, i). length buffer - i)") auto

declare find_delimiter.simps [simp del]

definition pending_cr :: "nat list \<Rightarrow> nat list" where
  "pending_cr buffer = (if buffer \<noteq> [] \<and> last buffer = 0x0D then [0x0D] else [])"

definition no_delimiter :: "sse_state \<Rightarrow> nat \<Rightarrow> sse_piece list \<times> sse_state \<times> nat" where
  "no_delimiter st scanIdx =
     (let pending = sp_rawBytes st + (length (sp_buffer st) - scanIdx) in
      if sp_discarding st then ([], st\<lparr>sp_buffer := pending_cr (sp_buffer st)\<rparr>, 0)
      else if pending > MAX_DATA_EVENT_BYTES
      then ([OversizeEvent MAX_DATA_EVENT_BYTES (sp_eventName st) pending],
            (discard_event st)\<lparr>sp_buffer := pending_cr (sp_buffer st)\<rparr>, 0)
      else ([], st, scanIdx))"

partial_function (option) push_loop ::
  "sse_state \<Rightarrow> sse_piece list \<Rightarrow> nat \<Rightarrow> (sse_state \<times> sse_piece list \<times> nat) option"
where
  "push_loop st pieces scanIdx =
     (if scanIdx < length (sp_buffer st)
      then
        (case find_delimiter (sp_buffer st) scanIdx of
           None \<Rightarrow> (case no_delimiter st scanIdx of (ps, st', i) \<Rightarrow> Some (st', pieces @ ps, i))
         | Some (delimiterIdx, delimiterLen) \<Rightarrow>
             (case sse_line st (js_slice scanIdx delimiterIdx (sp_buffer st)) delimiterLen of
                (ps, st') \<Rightarrow> push_loop st' (pieces @ ps) (delimiterIdx + delimiterLen)))
      else Some (st, pieces, scanIdx))"

definition sse_push :: "sse_state \<Rightarrow> nat list \<Rightarrow> (sse_piece list \<times> sse_state) option" where
  "sse_push st chunk =
     (if chunk = [] then Some ([], st)
      else
        (case push_loop (st\<lparr>sp_buffer := sp_buffer st @ chunk\<rparr>) [] 0 of
           None \<Rightarrow> None
         | Some (st', pieces, scanIdx) \<Rightarrow>
             Some (pieces, if scanIdx > 0 then st'\<lparr>sp_buffer := drop scanIdx (sp_buffer st')\<rparr> else st')))"

definition sse_finish :: "sse_state \<Rightarrow> sse_state" where
  "sse_finish st = (resetEventState (st\<lparr>sp_buffer := []\<rparr>))\<lparr>sp_discarding := False\<rparr>"

section \<open>The loop returns\<close>

text \<open>The same work on the remaining bytes, line by line.\<close>

fun next_line :: "nat list \<Rightarrow> (nat list \<times> nat \<times> nat list) option" where
  "next_line [] = None"
| "next_line (b # bs) =
     (if b = 0x0A then Some ([], 1, bs)
      else if b = 0x0D
      then if bs = [] then None else Some (if hd bs = 0x0A then ([], 2, tl bs) else ([], 1, bs))
      else map_option (\<lambda>(l, n, r). (b # l, n, r)) (next_line bs))"

lemma next_line_length: "next_line bs = Some (l, n, r) \<Longrightarrow> length l + n + length r = length bs \<and> 0 < n"
proof (induction bs arbitrary: l)
  case (Cons b bs)
  then show ?case by (cases bs) (auto split: if_splits)
qed simp

definition sse_tail :: "sse_state \<Rightarrow> nat list \<Rightarrow> sse_piece list \<times> sse_state" where
  "sse_tail st bs =
     (let pending = sp_rawBytes st + length bs in
      if bs = [] then ([], st\<lparr>sp_buffer := []\<rparr>)
      else if sp_discarding st then ([], st\<lparr>sp_buffer := pending_cr bs\<rparr>)
      else if pending > MAX_DATA_EVENT_BYTES
      then ([OversizeEvent MAX_DATA_EVENT_BYTES (sp_eventName st) pending], (discard_event st)\<lparr>sp_buffer := pending_cr bs\<rparr>)
      else ([], st\<lparr>sp_buffer := bs\<rparr>))"

function sse_run :: "sse_state \<Rightarrow> nat list \<Rightarrow> sse_piece list \<times> sse_state" where
  "sse_run st bs =
     (case next_line bs of
        None \<Rightarrow> sse_tail st bs
      | Some (l, n, r) \<Rightarrow>
          (let res = sse_line st l n; res' = sse_run (snd res) r in (fst res @ fst res', snd res')))"
  by pat_completeness auto
termination by (relation "measure (\<lambda>(st, bs). length bs)") (auto dest: next_line_length)

declare sse_run.simps [simp del]

lemma sse_run_None: "next_line bs = None \<Longrightarrow> sse_run st bs = sse_tail st bs"
  and sse_run_Some: "next_line bs = Some (l, n, r) \<Longrightarrow>
    sse_run st bs = (fst (sse_line st l n) @ fst (sse_run (snd (sse_line st l n)) r), snd (sse_run (snd (sse_line st l n)) r))"
  by (simp_all add: sse_run.simps [of st bs] Let_def)

lemma find_delimiter_next:
  "i \<le> length buf \<Longrightarrow> find_delimiter buf i =
     (case next_line (drop i buf) of None \<Rightarrow> None | Some (l, n, r) \<Rightarrow> Some (i + length l, n))"
proof (induction buf i rule: find_delimiter.induct)
  case (1 buf i)
  show ?case
  proof (cases "i < length buf")
    case True
    then have d: "drop i buf = buf ! i # drop (i + 1) buf" by (simp add: Cons_nth_drop_Suc)
    have d2: "drop (i + 1) buf = buf ! (i + 1) # drop (i + 2) buf" if "i + 1 < length buf"
      using that by (simp add: Cons_nth_drop_Suc)
    show ?thesis
      using True 1 d2 by (simp add: find_delimiter.simps [of buf i] d split: option.split)
  next
    case False
    then show ?thesis by (simp add: find_delimiter.simps [of buf i])
  qed
qed

lemma sse_line_buffer [simp]: "sp_buffer (snd (sse_line st l n)) = sp_buffer st"
  by (simp add: sse_line_def sse_field_def field_value_def Let_def discard_event_def resetEventState_def split: option.split)

lemma set_buffer_same [simp]: "st\<lparr>sp_buffer := sp_buffer st\<rparr> = st"
  by simp

lemma pending_cr_drop: "i < length buf \<Longrightarrow> pending_cr (drop i buf) = pending_cr buf"
  by (auto simp: pending_cr_def)

definition cut :: "sse_state \<Rightarrow> nat \<Rightarrow> sse_state" where
  "cut st i = (if i > 0 then st\<lparr>sp_buffer := drop i (sp_buffer st)\<rparr> else st)"

lemma cut_eq: "cut st i = st\<lparr>sp_buffer := drop i (sp_buffer st)\<rparr>"
  by (simp add: cut_def)

lemma no_delimiter_tail:
  assumes "i < length (sp_buffer st)" and "no_delimiter st i = (ps, st', j)"
  shows "sse_tail st (drop i (sp_buffer st)) = (ps, cut st' j)"
  using assms by (auto simp: no_delimiter_def sse_tail_def cut_eq Let_def pending_cr_drop split: if_splits)

lemma next_line_parts:
  "next_line bs = Some (l, n, r) \<Longrightarrow> take (length l) bs = l \<and> drop (length l + n) bs = r"
proof (induction bs arbitrary: l)
  case (Cons b bs)
  then show ?case by (cases bs) (auto split: if_splits)
qed simp

lemma push_loop_returns:
  "i \<le> length (sp_buffer st) \<Longrightarrow>
   \<exists>qs st' j. push_loop st ps i = Some (st', ps @ qs, j) \<and> sse_run st (drop i (sp_buffer st)) = (qs, cut st' j)"
proof (induction "length (sp_buffer st) - i" arbitrary: st ps i rule: less_induct)
  case less
  let ?buf = "sp_buffer st"
  show ?case
  proof (cases "i < length ?buf")
    case False
    then have "push_loop st ps i = Some (st, ps @ [], i)" by (simp add: push_loop.simps)
    moreover have "sse_run st (drop i ?buf) = ([], cut st i)"
      using False by (simp add: sse_run_None sse_tail_def cut_eq)
    ultimately show ?thesis by blast
  next
    case True
    show ?thesis
    proof (cases "next_line (drop i ?buf)")
      case None
      obtain qs st' j where nd: "no_delimiter st i = (qs, st', j)" by (cases "no_delimiter st i")
      have "find_delimiter ?buf i = None" using find_delimiter_next [OF less.prems] None by simp
      then have "push_loop st ps i = Some (st', ps @ qs, j)" using True nd by (simp add: push_loop.simps)
      moreover have "sse_run st (drop i ?buf) = (qs, cut st' j)"
        using no_delimiter_tail [OF True nd] None by (simp add: sse_run_None)
      ultimately show ?thesis by blast
    next
      case (Some p)
      then obtain l n r where nl: "next_line (drop i ?buf) = Some (l, n, r)" by (cases p) auto
      obtain qs st1 where ln: "sse_line st l n = (qs, st1)" by (cases "sse_line st l n")
      have buf1: "sp_buffer st1 = ?buf" using sse_line_buffer [of st l n] by (simp add: ln)
      note len = next_line_length [OF nl] and parts = next_line_parts [OF nl]
      have "find_delimiter ?buf i = Some (i + length l, n)" using find_delimiter_next [OF less.prems] nl by simp
      moreover have "js_slice i (i + length l) ?buf = l" using parts by (simp add: js_slice_def)
      ultimately have step: "push_loop st ps i = push_loop st1 (ps @ qs) (i + length l + n)"
        using True ln by (simp add: push_loop.simps [of st ps i])
      have r: "r = drop (i + length l + n) (sp_buffer st1)" using parts by (simp add: buf1 add.commute add.left_commute)
      have "i + length l + n \<le> length (sp_buffer st1)" using len True unfolding buf1 by (auto simp: less_diff_conv2)
      moreover have "length (sp_buffer st1) - (i + length l + n) < length ?buf - i" using len True unfolding buf1 by auto
      ultimately obtain qs' st' j where "push_loop st1 (ps @ qs) (i + length l + n) = Some (st', (ps @ qs) @ qs', j)"
        "sse_run st1 r = (qs', cut st' j)"
        using less.hyps [of st1 "i + length l + n" "ps @ qs"] r by blast
      then show ?thesis using step sse_run_Some [OF nl, of st] ln by (intro exI [of _ "qs @ qs'"] exI [of _ st'] exI [of _ j]) simp
    qed
  qed
qed

lemma discard_discards [simp]: "sp_discarding (discard_event st)"
  by (simp add: discard_event_def resetEventState_def)

lemma set_buffer_steps:
  "dispatch_event (st\<lparr>sp_buffer := b\<rparr>) = dispatch_event st"
  "resetEventState (st\<lparr>sp_buffer := b\<rparr>) = (resetEventState st)\<lparr>sp_buffer := b\<rparr>"
  "discard_event (st\<lparr>sp_buffer := b\<rparr>) = (discard_event st)\<lparr>sp_buffer := b\<rparr>"
  by (simp_all add: dispatch_event_def resetEventState_def discard_event_def Let_def split: option.split)

lemma set_buffer_field:
  "sse_field (st\<lparr>sp_buffer := b\<rparr>) s = (fst (sse_field st s), (snd (sse_field st s))\<lparr>sp_buffer := b\<rparr>)"
proof -
  obtain f v where fv: "field_value s = (f, v)" by (cases "field_value s")
  show ?thesis
  proof (cases "s \<noteq> [] \<and> hd s = 0x3A")
    case False
    then show ?thesis
      unfolding sse_field_def fv if_not_P [OF False] by (simp add: Let_def discard_event_def resetEventState_def)
  qed (simp add: sse_field_def)
qed

lemma sse_line_set_buffer:
  "sse_line (st\<lparr>sp_buffer := b\<rparr>) l n = (fst (sse_line st l n), (snd (sse_line st l n))\<lparr>sp_buffer := b\<rparr>)"
proof -
  let ?st1 = "\<lambda>st::sse_state. st\<lparr>sp_rawBytes := sp_rawBytes st + (length l + n)\<rparr>"
  have 1: "?st1 (st\<lparr>sp_buffer := b\<rparr>) = (?st1 st)\<lparr>sp_buffer := b\<rparr>" by simp
  have 2: "(if c then discard_event (?st1 st)\<lparr>sp_buffer := b\<rparr> else (?st1 st)\<lparr>sp_buffer := b\<rparr>) =
      (if c then discard_event (?st1 st) else ?st1 st)\<lparr>sp_buffer := b\<rparr>" for c by simp
  have 3: "(st\<lparr>sp_buffer := b\<rparr>)\<lparr>sp_discarding := False\<rparr> = st\<lparr>sp_discarding := False\<rparr>\<lparr>sp_buffer := b\<rparr>" for st :: sse_state
    by simp
  show ?thesis
    unfolding sse_line_def Let_def 1 set_buffer_steps(3) 2
    by (simp add: set_buffer_steps set_buffer_field 3 case_prod_beta del: sse_state.update_convs split: option.split)
qed

lemma sse_run_buffer: "sse_run (st\<lparr>sp_buffer := b\<rparr>) bs = sse_run st bs"
proof (induction st bs rule: sse_run.induct)
  case (1 st bs)
  show ?case
  proof (cases "next_line bs")
    case None
    then show ?thesis by (simp add: sse_run_None sse_tail_def discard_event_def resetEventState_def Let_def)
  next
    case (Some p)
    then obtain l n r where nl: "next_line bs = Some (l, n, r)" by (cases p) auto
    then show ?thesis using 1 [OF nl refl refl refl] by (simp add: sse_run_Some sse_line_set_buffer)
  qed
qed

lemma push_returns: "sse_push st chunk = Some (if chunk = [] then ([], st) else sse_run st (sp_buffer st @ chunk))"
proof (cases "chunk = []")
  case False
  obtain qs st' j where "push_loop (st\<lparr>sp_buffer := sp_buffer st @ chunk\<rparr>) [] 0 = Some (st', qs, j)"
    "sse_run (st\<lparr>sp_buffer := sp_buffer st @ chunk\<rparr>) (sp_buffer st @ chunk) = (qs, cut st' j)"
    using push_loop_returns [of 0 "st\<lparr>sp_buffer := sp_buffer st @ chunk\<rparr>" "[]"] by auto
  with False show ?thesis by (simp add: sse_push_def cut_def sse_run_buffer)
qed (simp add: sse_push_def)

section \<open>Chunks\<close>

text \<open>A stream arrives in chunks; the pieces of all of them in order.\<close>

fun sse_feed :: "sse_state \<Rightarrow> nat list list \<Rightarrow> (sse_piece list \<times> sse_state) option" where
  "sse_feed st [] = Some ([], st)"
| "sse_feed st (c # cs) =
     (case sse_push st c of
        None \<Rightarrow> None
      | Some (ps, st') \<Rightarrow> map_option (\<lambda>(qs, st''). (ps @ qs, st'')) (sse_feed st' cs))"

text \<open>The errors after which the parser discards until a blank line.\<close>

definition fatal_piece :: "sse_piece \<Rightarrow> bool" where
  "fatal_piece p = (case p of OversizeEvent _ _ _ \<Rightarrow> True | InvalidUtf8 \<Rightarrow> True | _ \<Rightarrow> False)"

definition calm :: "sse_piece list \<Rightarrow> bool" where
  "calm ps \<longleftrightarrow> list_all (\<lambda>p. \<not> fatal_piece p) ps"

lemma calm_append [simp]: "calm (ps @ qs) \<longleftrightarrow> calm ps \<and> calm qs"
  and calm_Nil [simp]: "calm []"
  by (simp_all add: calm_def)

lemma next_line_append: "next_line a = Some (l, n, r) \<Longrightarrow> next_line (a @ b) = Some (l, n, r @ b)"
proof (induction a arbitrary: l)
  case (Cons x a)
  then show ?case by (cases a) (auto split: if_splits)
qed simp

text \<open>Between two chunks, a parser that does not discard holds an incomplete line that fits.\<close>

definition settled :: "sse_state \<Rightarrow> bool" where
  "settled st \<longleftrightarrow>
     \<not> sp_discarding st \<and> next_line (sp_buffer st) = None \<and>
     (sp_buffer st \<noteq> [] \<longrightarrow> sp_rawBytes st + length (sp_buffer st) \<le> MAX_DATA_EVENT_BYTES)"

lemma settled_run: "settled st \<Longrightarrow> sse_run st (sp_buffer st) = ([], st)"
  by (cases st) (auto simp: settled_def sse_run_None sse_tail_def Let_def)

lemma settled_push: "settled st \<Longrightarrow> sse_push st c = Some (sse_run st (sp_buffer st @ c))"
  by (simp add: push_returns settled_run)

lemma run_cases:
  obtains (tail) "next_line bs = None" "sse_run st bs = sse_tail st bs"
  | (line) l n r where "next_line bs = Some (l, n, r)"
      "sse_run st bs = (fst (sse_line st l n) @ fst (sse_run (snd (sse_line st l n)) r), snd (sse_run (snd (sse_line st l n)) r))"
proof (cases "next_line bs")
  case None
  then show ?thesis by (rule tail) (simp add: sse_run_None None)
next
  case (Some p)
  then obtain l n r where nl: "next_line bs = Some (l, n, r)" by (cases p) auto
  then show ?thesis by (rule line) (rule sse_run_Some [OF nl])
qed

lemma run_settled: "\<not> sp_discarding (snd (sse_run st bs)) \<Longrightarrow> settled (snd (sse_run st bs))"
proof (induction st bs rule: sse_run.induct)
  case (1 st bs)
  show ?case
  proof (cases rule: run_cases [where st = st and bs = bs])
    case tail
    with "1.prems" show ?thesis by (auto simp: sse_tail_def settled_def Let_def split: if_splits)
  next
    case (line l n r)
    with 1 show ?thesis by simp
  qed
qed

lemma run_append:
  assumes "\<not> sp_discarding (snd (sse_run st a))"
  shows "sse_run st (a @ b) =
    (fst (sse_run st a) @ fst (sse_run (snd (sse_run st a)) (sp_buffer (snd (sse_run st a)) @ b)),
     snd (sse_run (snd (sse_run st a)) (sp_buffer (snd (sse_run st a)) @ b)))"
  using assms
proof (induction st a rule: sse_run.induct)
  case (1 st a)
  show ?case
  proof (cases rule: run_cases [where st = st and bs = a])
    case tail
    with "1.prems" have "sse_run st a = ([], st\<lparr>sp_buffer := a\<rparr>)"
      by (auto simp: sse_tail_def Let_def split: if_splits)
    then show ?thesis by (simp add: sse_run_buffer)
  next
    case (line l n r)
    have "\<not> sp_discarding (snd (sse_run (snd (sse_line st l n)) r))" using "1.prems" line(2) by simp
    from "1.IH" [OF line(1) refl refl refl this]
    show ?thesis using sse_run_Some [OF next_line_append [OF line(1)], of st b] line(2) by simp
  qed
qed

lemma field_calm:
  assumes "\<not> sp_discarding st" and "calm (fst (sse_field st s))"
  shows "\<not> sp_discarding (snd (sse_field st s))"
proof -
  obtain f v where fv: "field_value s = (f, v)" by (cases "field_value s")
  show ?thesis
  proof (cases "s \<noteq> [] \<and> hd s = 0x3A")
    case False
    with assms show ?thesis
      unfolding sse_field_def fv if_not_P [OF False] by (auto simp: Let_def calm_def fatal_piece_def split: if_splits)
  qed (use assms in \<open>simp add: sse_field_def\<close>)
qed

lemma event_limit_le: "event_limit n \<le> MAX_DATA_EVENT_BYTES"
  by (simp add: event_limit_def MAX_DATA_EVENT_BYTES_def MAX_CONTROL_EVENT_BYTES_def)

lemma reset_discarding [simp]: "sp_discarding (resetEventState st) = sp_discarding st"
  by (simp add: resetEventState_def)

text \<open>A line of a parser that does not discard: too large, blank, undecodable, or a field.\<close>

lemma sse_line_cases [consumes 1, case_names oversize blank invalid field]:
  fixes st :: sse_state and l :: "nat list" and n :: nat
  assumes "\<not> sp_discarding st"
  defines "st1 \<equiv> st\<lparr>sp_rawBytes := sp_rawBytes st + (length l + n)\<rparr>"
  obtains (oversize) "sp_rawBytes st1 > event_limit (sp_eventName st)"
      "fst (sse_line st l n) = [OversizeEvent (event_limit (sp_eventName st)) (sp_eventName st) (sp_rawBytes st1)]"
      "snd (sse_line st l n) = (if l = [] then resetEventState ((discard_event st1)\<lparr>sp_discarding := False\<rparr>) else discard_event st1)"
  | (blank) "sp_rawBytes st1 \<le> event_limit (sp_eventName st)" "l = []" "sse_line st l n = (dispatch_event st1, resetEventState st1)"
  | (invalid) "sp_rawBytes st1 \<le> event_limit (sp_eventName st)" "sse_line st l n = ([InvalidUtf8], discard_event st1)"
  | (field) s where "sp_rawBytes st1 \<le> event_limit (sp_eventName st)" "decode_utf8_fatal l = Some s" "sse_line st l n = sse_field st1 s"
proof (cases "sp_rawBytes st1 > event_limit (sp_eventName st)")
  case True
  with assms show ?thesis by (intro oversize) (auto simp: sse_line_def discard_event_def resetEventState_def Let_def)
next
  case False
  show ?thesis
  proof (cases "l = []")
    case True
    with False assms show ?thesis by (intro blank) (simp_all add: sse_line_def Let_def)
  next
    case nonblank: False
    show ?thesis
    proof (cases "decode_utf8_fatal l")
      case None
      with False nonblank assms show ?thesis by (intro invalid) (simp_all add: sse_line_def Let_def)
    next
      case (Some s)
      with False nonblank assms show ?thesis by (intro field [of s]) (simp_all add: sse_line_def Let_def case_prod_beta)
    qed
  qed
qed

lemma line_calm:
  assumes "\<not> sp_discarding st" and "calm (fst (sse_line st l n))"
  shows "\<not> sp_discarding (snd (sse_line st l n)) \<and> sp_rawBytes st + (length l + n) \<le> MAX_DATA_EVENT_BYTES"
proof -
  let ?st1 = "st\<lparr>sp_rawBytes := sp_rawBytes st + (length l + n)\<rparr>"
  show ?thesis
    using assms(1)
  proof (cases rule: sse_line_cases [where l = l and n = n])
    case blank
    with assms event_limit_le [of "sp_eventName st"] show ?thesis by simp
  next
    case (field s)
    with assms field_calm [of ?st1 s] event_limit_le [of "sp_eventName st"] show ?thesis by simp
  qed (use assms(2) in \<open>simp_all add: calm_def fatal_piece_def\<close>)
qed

lemma next_line_after:
  "next_line a = None \<Longrightarrow> next_line (a @ b) = Some (l, n, r) \<Longrightarrow> length a \<le> length l + n"
proof (induction a arbitrary: l)
  case (Cons x a)
  then show ?case by (cases a) (auto split: if_splits)
qed simp

lemma run_calm_prefix:
  assumes "\<not> sp_discarding st" and "calm (fst (sse_run st (a @ b)))"
  shows "\<not> sp_discarding (snd (sse_run st a))"
  using assms
proof (induction st a rule: sse_run.induct)
  case (1 st a)
  show ?case
  proof (cases rule: run_cases [where st = st and bs = a])
    case (line l n r)
    note run = sse_run_Some [OF next_line_append [OF line(1)], of st b]
    from "1.prems" run have "calm (fst (sse_line st l n))" "calm (fst (sse_run (snd (sse_line st l n)) (r @ b)))" by simp_all
    with "1.IH" [OF line(1) refl refl refl] line_calm "1.prems"(1) line(2) show ?thesis by simp
  next
    case tail
    have "sp_rawBytes st + length a \<le> MAX_DATA_EVENT_BYTES" if "a \<noteq> []"
    proof (cases rule: run_cases [where st = st and bs = "a @ b"])
      case tail
      with "1.prems" that show ?thesis by (auto simp: sse_tail_def Let_def calm_def fatal_piece_def split: if_splits)
    next
      case (line l n r)
      with "1.prems" line_calm [of st l n] next_line_after [OF tail(1) line(1)] show ?thesis by simp
    qed
    with tail "1.prems" show ?thesis by (cases "a = []") (simp_all add: sse_tail_def)
  qed
qed

lemma feed_once:
  assumes "settled st" and "calm (fst (sse_run st (sp_buffer st @ concat cs)))"
  shows "sse_feed st cs = Some (sse_run st (sp_buffer st @ concat cs))"
  using assms
proof (induction cs arbitrary: st)
  case Nil
  then show ?case by (simp add: settled_run)
next
  case (Cons c cs)
  let ?a = "sp_buffer st @ c"
  have nd: "\<not> sp_discarding st" using Cons.prems(1) by (simp add: settled_def)
  have calm: "calm (fst (sse_run st (?a @ concat cs)))" using Cons.prems(2) by simp
  note nd' = run_calm_prefix [OF nd calm]
  note app = run_append [OF nd', of "concat cs"]
  have "calm (fst (sse_run (snd (sse_run st ?a)) (sp_buffer (snd (sse_run st ?a)) @ concat cs)))"
    using calm unfolding app by simp
  from Cons.IH [OF run_settled [OF nd'] this]
  show ?case using settled_push [OF Cons.prems(1), of c] app by (simp add: case_prod_beta)
qed

end
