(* ===== verification/Sse_Laws.thy ===== *)
theory Sse_Laws
  imports Sse_Parser
begin

text \<open>
  Laws of the event parser: its memory stays bounded, and a stream of encoded events is read back as those
  events, however it is cut into chunks.
\<close>

section \<open>Bounded memory\<close>

definition event_bounded :: "sse_state \<Rightarrow> bool" where
  "event_bounded st \<longleftrightarrow>
     (sp_discarding st \<longrightarrow> sp_dataLines st = []) \<and>
     (\<not> sp_discarding st \<longrightarrow> sp_rawBytes st \<le> MAX_DATA_EVENT_BYTES \<and> length (sp_dataLines st) \<le> sp_rawBytes st)"

definition parser_bounded :: "sse_state \<Rightarrow> bool" where
  "parser_bounded st \<longleftrightarrow> event_bounded st \<and> length (sp_buffer st) \<le> MAX_DATA_EVENT_BYTES"

lemma reset_bounded [simp]: "event_bounded (resetEventState st)"
  and discard_bounded [simp]: "event_bounded (discard_event st)"
  by (simp_all add: event_bounded_def resetEventState_def discard_event_def)

lemma discard_lines [simp]: "sp_dataLines (discard_event st) = []"
  by (simp add: resetEventState_def discard_event_def)

lemma set_buffer_bounded [simp]: "event_bounded (st\<lparr>sp_buffer := b\<rparr>) = event_bounded st"
  by (simp add: event_bounded_def)

lemma field_bounded:
  assumes "\<not> sp_discarding st" "sp_rawBytes st \<le> MAX_DATA_EVENT_BYTES" "Suc (length (sp_dataLines st)) \<le> sp_rawBytes st"
  shows "event_bounded (snd (sse_field st s))"
proof -
  obtain f v where fv: "field_value s = (f, v)" by (cases "field_value s")
  have st: "event_bounded st" using assms by (simp add: event_bounded_def)
  show ?thesis
  proof (cases "s \<noteq> [] \<and> hd s = 0x3A")
    case False
    with assms st show ?thesis
      unfolding sse_field_def fv if_not_P [OF False] by (simp add: Let_def event_bounded_def)
  qed (use st in \<open>simp add: sse_field_def\<close>)
qed

lemma line_bounded:
  assumes "event_bounded st" and "0 < n"
  shows "event_bounded (snd (sse_line st l n))"
proof (cases "sp_discarding st")
  case True
  with assms show ?thesis by (simp add: sse_line_def Let_def) (simp add: event_bounded_def)
next
  case False
  let ?st1 = "st\<lparr>sp_rawBytes := sp_rawBytes st + (length l + n)\<rparr>"
  show ?thesis
    using False
  proof (cases rule: sse_line_cases [where l = l and n = n])
    case (field s)
    have "Suc (length (sp_dataLines st)) \<le> sp_rawBytes st + (length l + n)"
      using assms False by (simp add: event_bounded_def)
    with field assms False event_limit_le [of "sp_eventName st"] show ?thesis by (simp add: field_bounded)
  qed simp_all
qed

lemma pending_cr_length: "length (pending_cr bs) \<le> MAX_DATA_EVENT_BYTES"
  by (simp add: pending_cr_def MAX_DATA_EVENT_BYTES_def)

lemma run_bounded: "event_bounded st \<Longrightarrow> parser_bounded (snd (sse_run st bs))"
proof (induction st bs rule: sse_run.induct)
  case (1 st bs)
  show ?case
  proof (cases rule: run_cases [where st = st and bs = bs])
    case tail
    with "1.prems" show ?thesis by (simp add: parser_bounded_def sse_tail_def Let_def pending_cr_length)
  next
    case (line l n r)
    with 1 line_bounded next_line_length [OF line(1)] show ?thesis by simp
  qed
qed

lemma feed_returns:
  "parser_bounded st \<Longrightarrow> \<exists>ps st'. sse_feed st cs = Some (ps, st') \<and> parser_bounded st'"
proof (induction cs arbitrary: st)
  case (Cons c cs)
  let ?r = "if c = [] then ([], st) else sse_run st (sp_buffer st @ c)"
  have "parser_bounded (snd ?r)" using Cons.prems run_bounded by (simp add: parser_bounded_def)
  then obtain qs st' where "sse_feed (snd ?r) cs = Some (qs, st')" "parser_bounded st'" using Cons.IH by blast
  then show ?case by (simp add: push_returns case_prod_beta)
qed simp

section \<open>Reading encoded events\<close>

text \<open>An event on the wire: a line with its name, a line per line of data, a blank line. Lines of data are
  given by their code points.\<close>

definition wire_line :: "string \<Rightarrow> nat list \<Rightarrow> nat list" where
  "wire_line prefix cps = encode_utf8 (lit prefix @ text_of_points cps) @ [0x0A]"

definition wire_event :: "string \<times> nat list list \<Rightarrow> nat list" where
  "wire_event ev = wire_line (''event: '' @ fst ev) [] @ concat (map (wire_line ''data: '') (snd ev)) @ [0x0A]"

definition read_event :: "string \<times> nat list list \<Rightarrow> sse_piece" where
  "read_event ev = SseEvent (lit (fst ev)) (join_lines (map text_of_points (snd ev)))"

definition line_point :: "nat \<Rightarrow> bool" where
  "line_point cp \<longleftrightarrow> scalar_value cp \<and> cp \<noteq> 0x0A \<and> cp \<noteq> 0x0D"

definition wire_ok :: "string \<times> nat list list \<Rightarrow> bool" where
  "wire_ok ev \<longleftrightarrow>
     fst ev \<in> {''host-resources'', ''host-resources-status'', ''host-resources-error''} \<and>
     snd ev \<noteq> [] \<and> list_all (list_all line_point) (snd ev) \<and>
     length (wire_event ev) \<le> event_limit (Some (lit (fst ev)))"

lemma utf8_bytes: "b \<in> set (utf8_of cp) \<Longrightarrow> b = cp \<or> 0x80 \<le> b"
  by (auto simp: utf8_of_def split: if_splits)

lemma next_line_end: "0x0A \<notin> set bs \<Longrightarrow> 0x0D \<notin> set bs \<Longrightarrow> next_line (bs @ 0x0A # r) = Some (bs, 1, r)"
  by (induction bs) auto

text \<open>The prefixes are ASCII.\<close>

definition ascii :: "string \<Rightarrow> bool" where
  "ascii s \<longleftrightarrow> list_all (\<lambda>c. let n = (of_char c :: nat) in n < 0x80 \<and> n \<noteq> 0x0A \<and> n \<noteq> 0x0D) s"

lemma lit_points: "ascii s \<Longrightarrow> lit s @ text_of_points cps = text_of_points (map of_char s @ cps)"
  by (induction s) (auto simp: ascii_def lit_def text_of_points_def utf16_of_def of_nat_of_char Let_def)

lemma ascii_line_points: "ascii s \<Longrightarrow> list_all line_point (map of_char s)"
  by (induction s)
    (auto simp: ascii_def line_point_def scalar_value_def high_surrogate_def low_surrogate_def Let_def)

text \<open>One line of the wire: the parser handles its text as a field.\<close>

lemma run_wire_line:
  assumes "ascii prefix" and "prefix \<noteq> []" and "list_all line_point cps" and "\<not> sp_discarding st"
    and "sp_rawBytes st + length (wire_line prefix cps) \<le> event_limit (sp_eventName st)"
  defines "st1 \<equiv> st\<lparr>sp_rawBytes := sp_rawBytes st + length (wire_line prefix cps)\<rparr>"
  shows "sse_run st (wire_line prefix cps @ r) =
    (fst (sse_field st1 (lit prefix @ text_of_points cps)) @ fst (sse_run (snd (sse_field st1 (lit prefix @ text_of_points cps))) r),
     snd (sse_run (snd (sse_field st1 (lit prefix @ text_of_points cps))) r))"
proof -
  let ?s = "lit prefix @ text_of_points cps"
  let ?cps = "map of_char prefix @ cps"
  let ?l = "encode_utf8 ?s"
  have s: "?s = text_of_points ?cps" by (rule lit_points [OF assms(1)])
  have ok: "list_all line_point ?cps" using ascii_line_points [OF assms(1)] assms(3) by simp
  then have sv: "list_all scalar_value ?cps" by (auto simp: list_all_iff line_point_def)
  have enc: "?l = concat (map utf8_of ?cps)" unfolding s by (rule encode_text [OF sv])
  have clean: "0x0A \<notin> set ?l" "0x0D \<notin> set ?l"
    using ok utf8_bytes unfolding enc by (fastforce simp: list_all_iff line_point_def)+
  obtain c cs where "prefix = c # cs" using assms(2) by (cases prefix) auto
  then have "strip_bom_point ?cps = ?cps" using assms(1) by (auto simp: strip_bom_point_def ascii_def Let_def)
  then have dec: "decode_utf8_fatal ?l = Some ?s" unfolding s using decode_encode(1) [OF sv] by simp
  have ne: "?l \<noteq> []" using dec \<open>prefix = c # cs\<close> by (auto simp: decode_utf8_fatal_def text_of_points_def lit_def strip_bom_point_def)
  have nl: "next_line (wire_line prefix cps @ r) = Some (?l, 1, r)"
    using next_line_end [OF clean] by (simp add: wire_line_def)
  have line: "sse_line st ?l 1 = sse_field st1 ?s"
    using assms(4,5) ne dec by (simp add: sse_line_def Let_def st1_def wire_line_def case_prod_beta)
  show ?thesis using sse_run_Some [OF nl, of st] unfolding line .
qed

lemma run_data_lines:
  assumes "list_all (list_all line_point) ls" and "\<not> sp_discarding st"
    and "sp_rawBytes st + length (concat (map (wire_line ''data: '') ls)) \<le> event_limit (sp_eventName st)"
  shows "sse_run st (concat (map (wire_line ''data: '') ls) @ r) =
    sse_run (st\<lparr>sp_dataLines := sp_dataLines st @ map text_of_points ls,
      sp_rawBytes := sp_rawBytes st + length (concat (map (wire_line ''data: '') ls))\<rparr>) r"
  using assms
proof (induction ls arbitrary: st)
  case (Cons l ls)
  let ?st1 = "st\<lparr>sp_rawBytes := sp_rawBytes st + length (wire_line ''data: '' l)\<rparr>"
  let ?st2 = "?st1\<lparr>sp_dataLines := sp_dataLines st @ [text_of_points l]\<rparr>"
  have field: "sse_field ?st1 (lit ''data: '' @ text_of_points l) = ([], ?st2)"
    by (simp add: sse_field_def field_value_def lit_def strip_space_def)
  have "sse_run st (wire_line ''data: '' l @ concat (map (wire_line ''data: '') ls) @ r) =
      sse_run ?st2 (concat (map (wire_line ''data: '') ls) @ r)"
    using Cons.prems run_wire_line [of "''data: ''" l st "concat (map (wire_line ''data: '') ls) @ r"]
    by (simp add: field ascii_def)
  moreover have "sse_run ?st2 (concat (map (wire_line ''data: '') ls) @ r) =
      sse_run (?st2\<lparr>sp_dataLines := sp_dataLines ?st2 @ map text_of_points ls,
        sp_rawBytes := sp_rawBytes ?st2 + length (concat (map (wire_line ''data: '') ls))\<rparr>) r"
    using Cons.prems by (intro Cons.IH) simp_all
  ultimately show ?case by (simp add: add.assoc)
qed simp

lemma event_field:
  "sp_rawBytes st \<le> event_limit (Some (lit name)) \<Longrightarrow>
   sse_field st (lit (''event: '' @ name) @ text_of_points []) = ([], st\<lparr>sp_eventName := Some (lit name)\<rparr>)"
  by (auto simp: sse_field_def field_value_def lit_def strip_space_def text_of_points_def event_limit_def Let_def)

lemma event_names:
  assumes "name \<in> {''host-resources'', ''host-resources-status'', ''host-resources-error''}"
  shows "ascii (''event: '' @ name)" and "lit name = lit ''host-resources'' \<or> control_name (Some (lit name))"
    and "event_limit (Some (lit name)) = (if lit name = lit ''host-resources'' then MAX_DATA_EVENT_BYTES else MAX_CONTROL_EVENT_BYTES)"
  using assms by (auto simp: ascii_def control_name_def event_limit_def lit_def)

lemma run_wire_event:
  assumes ok: "wire_ok ev" and st: "\<not> sp_discarding st" "sp_rawBytes st = 0" "sp_eventName st = None" "sp_dataLines st = []"
  shows "sse_run st (wire_event ev @ r) = (read_event ev # fst (sse_run st r), snd (sse_run st r))"
proof -
  obtain name ls where ev: "ev = (name, ls)" by (cases ev)
  let ?head = "wire_line (''event: '' @ name) []" and ?data = "concat (map (wire_line ''data: '') ls)"
  have name: "name \<in> {''host-resources'', ''host-resources-status'', ''host-resources-error''}"
    and ls: "ls \<noteq> []" "list_all (list_all line_point) ls"
    and fits: "length ?head + length ?data + 1 \<le> event_limit (Some (lit name))"
    using ok by (simp_all add: wire_ok_def ev wire_event_def)
  note N = event_names [OF name]
  have none: "event_limit None = MAX_DATA_EVENT_BYTES" by (simp add: event_limit_def control_name_def)
  let ?st1 = "st\<lparr>sp_rawBytes := length ?head\<rparr>"
  let ?st2 = "?st1\<lparr>sp_eventName := Some (lit name)\<rparr>"
  let ?st3 = "?st2\<lparr>sp_dataLines := map text_of_points ls, sp_rawBytes := length ?head + length ?data\<rparr>"
  have "sse_run st (?head @ ?data @ [0x0A] @ r) = sse_run ?st2 (?data @ [0x0A] @ r)"
    using run_wire_line [OF N(1), of "[]" st "?data @ [0x0A] @ r"] fits none event_limit_le [of "Some (lit name)"] st
      event_field [of ?st1 name] by simp
  also have "\<dots> = sse_run ?st3 ([0x0A] @ r)"
    using run_data_lines [OF ls(2), of ?st2 "[0x0A] @ r"] fits st by simp
  also have "\<dots> = (fst (sse_line ?st3 [] 1) @ fst (sse_run (snd (sse_line ?st3 [] 1)) r), snd (sse_run (snd (sse_line ?st3 [] 1)) r))"
    by (rule sse_run_Some) simp
  also have "sse_line ?st3 [] 1 = ([read_event ev], st)"
    using fits st ls(1) N(2,3)
    by (cases st) (auto simp: sse_line_def Let_def dispatch_event_def resetEventState_def read_event_def ev)
  finally show ?thesis by (simp add: wire_event_def ev)
qed

lemma run_wire_events:
  assumes "list_all wire_ok evs" and "\<not> sp_discarding st" "sp_rawBytes st = 0" "sp_eventName st = None" "sp_dataLines st = []"
  shows "sse_run st (concat (map wire_event evs)) = (map read_event evs, st\<lparr>sp_buffer := []\<rparr>)"
  using assms
proof (induction evs)
  case Nil
  then show ?case by (simp add: sse_run_None sse_tail_def)
next
  case (Cons ev evs)
  then show ?case using run_wire_event [of ev st "concat (map wire_event evs)"] by simp
qed

lemma read_calm: "calm (map read_event evs)"
  by (simp add: calm_def list_all_iff read_event_def fatal_piece_def)

lemma feed_wire_events:
  assumes "list_all wire_ok evs" and "concat cs = concat (map wire_event evs)"
  shows "sse_feed new_parser cs = Some (map read_event evs, new_parser)"
proof -
  have "sse_run new_parser (sp_buffer new_parser @ concat cs) = (map read_event evs, new_parser)"
    using run_wire_events [OF assms(1), of new_parser] assms(2) by (simp add: new_parser_def)
  moreover have "settled new_parser" by (simp add: settled_def new_parser_def)
  ultimately show ?thesis using feed_once [of new_parser cs] by (simp add: read_calm)
qed

section \<open>A discarded line cut before its end\<close>

text \<open>While discarding, the parser drops an incomplete line. When the rest of that line is only its delimiter, the
  parser takes it for the blank line that ends the event.\<close>

lemma cut_line_ends_discarding:
  assumes "sp_discarding st" and "sp_buffer st = []" and "l \<noteq> []" and "0x0A \<notin> set l" and "0x0D \<notin> set l"
  shows "\<exists>st'. sse_push st (l @ [0x0A]) = Some ([], st') \<and> sp_discarding st'"
    and "\<exists>st'. sse_feed st [l, [0x0A]] = Some ([], st') \<and> \<not> sp_discarding st'"
proof -
  have "next_line (l @ [0x0A]) = Some (l, 1, [])" using next_line_end [OF assms(4,5)] by simp
  then show "\<exists>st'. sse_push st (l @ [0x0A]) = Some ([], st') \<and> sp_discarding st'"
    using assms by (simp add: push_returns sse_run_Some sse_line_def sse_run_None sse_tail_def Let_def)
  have "next_line l = None" using assms(4,5) by (induction l) auto
  moreover have "pending_cr l = []" using assms(5) last_in_set [OF assms(3)] by (auto simp: pending_cr_def)
  ultimately have "sse_push st l = Some ([], st)"
    using assms by (cases st) (simp add: push_returns sse_run_None sse_tail_def Let_def)
  then show "\<exists>st'. sse_feed st [l, [0x0A]] = Some ([], st') \<and> \<not> sp_discarding st'"
    using assms by (simp add: push_returns sse_run_Some sse_line_def sse_run_None sse_tail_def Let_def)
qed

end
