(* ===== verification/Replay_Gate.thy ===== *)
theory Replay_Gate
  imports Js_Text
begin

text \<open>
  The gate between the replay of a terminal's history and its live stream,
  \<^verbatim>\<open>packages/ui/src/lib/terminal-stream-replay-gate.ts\<close>, the replay of a buffer,
  \<^verbatim>\<open>terminal-buffer-replay.ts\<close>, and the handler of live chunks in
  \<^verbatim>\<open>components/organisms/TerminalPanel.tsx\<close>. Offsets count bytes of the server's stream.
\<close>

section \<open>The gate\<close>

record queued_chunk =
  qc_data :: js_text
  qc_offset :: nat
  qc_incarnation :: nat

text \<open>Of \<^verbatim>\<open>onReplayDrain\<close> only whether it is set.\<close>

record replay_gate =
  rg_hasAttachBufferBeenReceived :: bool
  rg_isReplayWriting :: bool
  rg_isLiveStreamReady :: bool
  rg_replayGeneration :: nat
  rg_activeReplayWrites :: nat
  rg_queuedLiveData :: "queued_chunk list"
  rg_onReplayDrain :: bool

definition createTerminalStreamReplayGate :: replay_gate where
  "createTerminalStreamReplayGate =
     \<lparr>rg_hasAttachBufferBeenReceived = False, rg_isReplayWriting = False, rg_isLiveStreamReady = False,
      rg_replayGeneration = 0, rg_activeReplayWrites = 0, rg_queuedLiveData = [], rg_onReplayDrain = False\<rparr>"

definition resetTerminalStreamReplayGateForAttach :: "replay_gate \<Rightarrow> replay_gate" where
  "resetTerminalStreamReplayGateForAttach g =
     g\<lparr>rg_hasAttachBufferBeenReceived := False, rg_isLiveStreamReady := False,
       rg_replayGeneration := rg_replayGeneration g + 1, rg_queuedLiveData := [],
       rg_isReplayWriting := (rg_activeReplayWrites g > 0)\<rparr>"

definition markTerminalStreamReadyAfterRestart :: "replay_gate \<Rightarrow> replay_gate" where
  "markTerminalStreamReadyAfterRestart g =
     g\<lparr>rg_hasAttachBufferBeenReceived := True, rg_replayGeneration := rg_replayGeneration g + 1,
       rg_queuedLiveData := [], rg_isReplayWriting := (rg_activeReplayWrites g > 0),
       rg_isLiveStreamReady := (rg_activeReplayWrites g = 0)\<rparr>"

definition beginTerminalReplayWrite :: "replay_gate \<Rightarrow> replay_gate" where
  "beginTerminalReplayWrite g =
     g\<lparr>rg_hasAttachBufferBeenReceived := True, rg_isReplayWriting := True, rg_isLiveStreamReady := False,
       rg_activeReplayWrites := rg_activeReplayWrites g + 1\<rparr>"

definition finishTerminalReplayWrite :: "replay_gate \<Rightarrow> replay_gate" where
  "finishTerminalReplayWrite g =
     (let n = nat (max 0 (int (rg_activeReplayWrites g) - 1))
      in g\<lparr>rg_activeReplayWrites := n, rg_isReplayWriting := (n > 0)\<rparr>)"

text \<open>Whether the drain callback is called.\<close>

definition notifyTerminalReplayDrain :: "replay_gate \<Rightarrow> bool" where
  "notifyTerminalReplayDrain g \<longleftrightarrow> rg_activeReplayWrites g = 0 \<and> rg_onReplayDrain g"

definition shouldForwardTerminalData :: "replay_gate \<Rightarrow> bool" where
  "shouldForwardTerminalData g \<longleftrightarrow> rg_activeReplayWrites g \<le> 0"

section \<open>Reconciling live output\<close>

definition utf8ByteLength :: "js_text \<Rightarrow> nat" where
  "utf8ByteLength d = length (encode_utf8 d)"

definition sliceUtf8LeadingBytes :: "js_text \<Rightarrow> int \<Rightarrow> js_text" where
  "sliceUtf8LeadingBytes d bytesToSkip =
     (if bytesToSkip \<le> 0 then d
      else
        let bytes = encode_utf8 d
        in if bytesToSkip \<ge> int (length bytes) then [] else decode_utf8 (drop (nat bytesToSkip) bytes))"

datatype reconcile_result =
    Render js_text nat
  | DiscardChunk nat
  | StreamGap nat int

text \<open>The start of a chunk is an integer: a malformed chunk may be longer than its end offset.\<close>

definition reconcileTerminalOutput :: "js_text \<Rightarrow> nat \<Rightarrow> nat \<Rightarrow> reconcile_result" where
  "reconcileTerminalOutput d endOffset currentOffset =
     (if endOffset \<le> currentOffset then DiscardChunk currentOffset
      else
        let bytes = encode_utf8 d;
            startOffset = int endOffset - int (length bytes)
        in if startOffset > int currentOffset then StreamGap currentOffset startOffset
           else if startOffset < int currentOffset
           then Render (decode_utf8 (drop (nat (int currentOffset - startOffset)) bytes)) endOffset
           else Render d endOffset)"

text \<open>The live stream of a panel: the offset reached, what was written to the terminal since, the offsets
  that were attached to after a gap, the gate, and whether an attach may be sent (the panel is current and the
  terminal it is bound to, if any, is verified).\<close>

record live_stream =
  ls_lastServerOffset :: nat
  ls_written :: "js_text list"
  ls_attaches :: "nat list"
  ls_gate :: replay_gate
  ls_attachable :: bool

text \<open>The panel's \<^verbatim>\<open>sendAttach\<close> closes the gate, so that chunks are queued until the replay has arrived.\<close>

definition send_attach :: "nat \<Rightarrow> live_stream \<Rightarrow> live_stream" where
  "send_attach fromOffset ls =
     (if \<not> ls_attachable ls then ls
      else ls\<lparr>ls_gate := resetTerminalStreamReplayGateForAttach (ls_gate ls), ls_attaches := ls_attaches ls @ [fromOffset]\<rparr>)"

definition processLiveChunk :: "live_stream \<Rightarrow> js_text \<Rightarrow> nat \<Rightarrow> live_stream" where
  "processLiveChunk ls d endOffset =
     (case reconcileTerminalOutput d endOffset (ls_lastServerOffset ls) of
        DiscardChunk _ \<Rightarrow> ls
      | StreamGap _ _ \<Rightarrow> send_attach (ls_lastServerOffset ls) ls
      | Render rendered nextOffset \<Rightarrow>
          ls\<lparr>ls_lastServerOffset := nextOffset, ls_written := ls_written ls @ [rendered]\<rparr>)"

lemma send_attach_fields [simp]:
  "ls_lastServerOffset (send_attach off ls) = ls_lastServerOffset ls" "ls_written (send_attach off ls) = ls_written ls"
  by (simp_all add: send_attach_def)

section \<open>Replaying a buffer\<close>

record buffer_replay =
  br_data :: js_text
  br_offset :: nat
  br_reset :: bool
  br_truncated :: bool
  br_incarnation :: nat

text \<open>The operations on the terminal, each run when the one before it has completed. The completion of
  the last one runs the callback \<^verbatim>\<open>finish\<close>.\<close>

datatype terminal_op = TermWrite js_text | TermReset

definition replay_ops :: "buffer_replay \<Rightarrow> terminal_op list" where
  "replay_ops r = (if br_reset r then [TermWrite [], TermReset, TermWrite (br_data r)] else [TermWrite (br_data r)])"

text \<open>The screen of a terminal after a list of operations.\<close>

fun run_ops :: "terminal_op list \<Rightarrow> js_text \<Rightarrow> js_text" where
  "run_ops [] out = out"
| "run_ops (TermWrite d # ops) out = run_ops ops (out @ d)"
| "run_ops (TermReset # ops) out = run_ops ops []"

section \<open>Laws of the gate\<close>

datatype gate_event = GateReset | GateRestart | GateBegin | GateFinish

fun gate_step :: "replay_gate \<Rightarrow> gate_event \<Rightarrow> replay_gate" where
  "gate_step g GateReset = resetTerminalStreamReplayGateForAttach g"
| "gate_step g GateRestart = markTerminalStreamReadyAfterRestart g"
| "gate_step g GateBegin = beginTerminalReplayWrite g"
| "gate_step g GateFinish = finishTerminalReplayWrite g"

text \<open>A completion belongs to a write that was begun.\<close>

definition gate_allowed :: "replay_gate \<Rightarrow> gate_event \<Rightarrow> bool" where
  "gate_allowed g e \<longleftrightarrow> (e = GateFinish \<longrightarrow> rg_activeReplayWrites g > 0)"

definition gate_ok :: "replay_gate \<Rightarrow> bool" where
  "gate_ok g \<longleftrightarrow>
     rg_isReplayWriting g = (rg_activeReplayWrites g > 0) \<and>
     (rg_isLiveStreamReady g \<longrightarrow> rg_activeReplayWrites g = 0 \<and> rg_hasAttachBufferBeenReceived g)"

interpretation gating: event_machine gate_step gate_allowed gate_ok
proof
  fix g e
  assume "gate_ok g" and "gate_allowed g e"
  then show "gate_ok (gate_step g e)"
    by (cases e) (auto simp: gate_ok_def gate_allowed_def resetTerminalStreamReplayGateForAttach_def
        markTerminalStreamReadyAfterRestart_def beginTerminalReplayWrite_def finishTerminalReplayWrite_def Let_def)
qed

lemma new_gate_ok: "gate_ok createTerminalStreamReplayGate"
  by (simp add: gate_ok_def createTerminalStreamReplayGate_def)

lemma active_step:
  "gate_allowed g e \<Longrightarrow>
   int (rg_activeReplayWrites (gate_step g e)) =
     int (rg_activeReplayWrites g) + (if e = GateBegin then 1 else if e = GateFinish then -1 else 0)"
  by (cases e) (auto simp: gate_allowed_def resetTerminalStreamReplayGateForAttach_def
      markTerminalStreamReadyAfterRestart_def beginTerminalReplayWrite_def finishTerminalReplayWrite_def Let_def)

lemma active_run:
  "run_allowed gate_allowed gate_step g es \<Longrightarrow>
   int (rg_activeReplayWrites (run_events gate_step g es)) =
     int (rg_activeReplayWrites g) + int (count_list es GateBegin) - int (count_list es GateFinish)"
proof (induction es arbitrary: g)
  case (Cons e es)
  then show ?case using active_step [of g e] by (cases e) simp_all
qed simp

section \<open>The live stream writes every byte once\<close>

text \<open>
  The server's stream as code points. A chunk \<open>(i, j)\<close> holds the code points from \<open>i\<close> to \<open>j\<close> and carries the
  offset of its end in bytes.
\<close>

definition offset_of :: "nat list \<Rightarrow> nat \<Rightarrow> nat" where
  "offset_of P i = length (concat (map utf8_of (take i P)))"

definition chunk_text :: "nat list \<Rightarrow> nat \<times> nat \<Rightarrow> js_text" where
  "chunk_text P c = text_of_points (take (snd c - fst c) (drop (fst c) P))"

definition receive :: "nat list \<Rightarrow> live_stream \<Rightarrow> nat \<times> nat \<Rightarrow> live_stream" where
  "receive P ls c = processLiveChunk ls (chunk_text P c) (offset_of P (snd c))"

definition chunk_of :: "nat list \<Rightarrow> nat \<times> nat \<Rightarrow> bool" where
  "chunk_of P c \<longleftrightarrow> fst c \<le> snd c \<and> snd c \<le> length P"

definition attached_at :: "nat list \<Rightarrow> nat \<Rightarrow> live_stream" where
  "attached_at P k =
     \<lparr>ls_lastServerOffset = offset_of P k, ls_written = [], ls_attaches = [],
      ls_gate = markTerminalStreamReadyAfterRestart createTerminalStreamReplayGate, ls_attachable = True\<rparr>"

text \<open>What was written is the stream from where the panel attached to where it is.\<close>

definition shows_stream :: "nat list \<Rightarrow> nat \<Rightarrow> live_stream \<Rightarrow> bool" where
  "shows_stream P k ls \<longleftrightarrow>
     (\<exists>i. k \<le> i \<and> i \<le> length P \<and> ls_lastServerOffset ls = offset_of P i \<and>
        concat (ls_written ls) = text_of_points (take (i - k) (drop k P)))"

lemma utf8_of_nonempty: "utf8_of cp \<noteq> []"
  by (simp add: utf8_of_def)

lemma text_points_append: "text_of_points (xs @ ys) = text_of_points xs @ text_of_points ys"
  by (simp add: text_of_points_def)

lemma offset_split:
  assumes "i \<le> j"
  shows "offset_of P j = offset_of P i + length (concat (map utf8_of (take (j - i) (drop i P))))"
proof -
  have "take j P = take i P @ take (j - i) (drop i P)" using assms by (metis le_add_diff_inverse take_add)
  then show ?thesis by (simp add: offset_of_def)
qed

lemma offset_less_iff:
  assumes "i \<le> length P" and "j \<le> length P"
  shows "offset_of P i < offset_of P j \<longleftrightarrow> i < j"
proof -
  have mono: "offset_of P a < offset_of P b" if "a < b" "b \<le> length P" for a b
  proof -
    have "take (b - a) (drop a P) \<noteq> []" using that by simp
    then have "concat (map utf8_of (take (b - a) (drop a P))) \<noteq> []"
      by (cases "take (b - a) (drop a P)") (simp_all add: utf8_of_nonempty)
    then show ?thesis using offset_split [of a b P] that by simp
  qed
  show ?thesis using mono assms by (metis linorder_neqE_nat order.asym)
qed

definition stream_ok :: "nat list \<Rightarrow> bool" where
  "stream_ok P \<longleftrightarrow> list_all scalar_value P \<and> 0xFEFF \<notin> set P"

lemma list_all_sub: "list_all Q P \<Longrightarrow> list_all Q (take a (drop b P))"
  by (auto simp: list_all_iff dest: in_set_takeD in_set_dropD)

lemma chunk_bytes:
  assumes "list_all scalar_value P"
  shows "encode_utf8 (chunk_text P (i, j)) = concat (map utf8_of (take (j - i) (drop i P)))"
  unfolding chunk_text_def using assms by (simp add: encode_text list_all_sub)

text \<open>Cutting the bytes of a chunk at a position of the stream leaves the bytes after that position.\<close>

lemma cut_chunk:
  assumes "stream_ok P" and "i \<le> m" and "m \<le> j"
  shows "decode_utf8 (drop (offset_of P m - offset_of P i) (encode_utf8 (chunk_text P (i, j)))) = chunk_text P (m, j)"
proof -
  have "take (j - i) (drop i P) = take (m - i) (drop i P) @ take (j - m) (drop m P)"
    using assms(2,3) take_add [of "m - i" "j - m" "drop i P"] by simp
  moreover have "offset_of P m - offset_of P i = length (concat (map utf8_of (take (m - i) (drop i P))))"
    using offset_split [OF assms(2)] by simp
  ultimately have "drop (offset_of P m - offset_of P i) (encode_utf8 (chunk_text P (i, j))) =
      concat (map utf8_of (take (j - m) (drop m P)))"
    using assms(1) by (simp add: chunk_bytes stream_ok_def)
  moreover have "concat (map utf8_of (take (j - m) (drop m P))) = encode_utf8 (text_of_points (take (j - m) (drop m P)))"
    using assms(1) by (simp add: encode_text list_all_sub stream_ok_def)
  moreover have "strip_bom_point (take (j - m) (drop m P)) = take (j - m) (drop m P)"
  proof -
    have "0xFEFF \<notin> set (take (j - m) (drop m P))"
      using assms(1) by (auto simp: stream_ok_def dest: in_set_takeD in_set_dropD)
    then show ?thesis by (auto simp: strip_bom_point_def split: list.splits)
  qed
  ultimately show ?thesis
    using assms(1) decode_encode(2) [OF list_all_sub [of scalar_value P "j - m" m]] by (simp add: chunk_text_def stream_ok_def)
qed

lemma receive_step:
  assumes P: "stream_ok P" and shown: "shows_stream P k ls" and c: "chunk_of P c"
  shows "shows_stream P k (receive P ls c)"
proof -
  obtain i j where ij: "c = (i, j)" by (cases c)
  have le: "i \<le> j" "j \<le> length P" using c by (simp_all add: chunk_of_def ij)
  obtain m where m: "k \<le> m" "m \<le> length P" "ls_lastServerOffset ls = offset_of P m"
    "concat (ls_written ls) = text_of_points (take (m - k) (drop k P))"
    using shown by (auto simp: shows_stream_def)
  have sv: "list_all scalar_value P" using P by (simp add: stream_ok_def)
  have start: "int (offset_of P j) - int (length (encode_utf8 (chunk_text P (i, j)))) = int (offset_of P i)"
    using offset_split [OF le(1), of P] by (simp add: chunk_bytes [OF sv])
  consider "j \<le> m" | "m < i" "m < j" | "i \<le> m" "m < j" by linarith
  then show ?thesis
  proof cases
    case 1
    then have "receive P ls c = ls"
      using offset_less_iff [OF m(2) le(2)] m(3)
      by (simp add: receive_def ij processLiveChunk_def reconcileTerminalOutput_def)
    with shown show ?thesis by simp
  next
    case 2
    then have "offset_of P m < offset_of P i" "offset_of P m < offset_of P j"
      using offset_less_iff [OF m(2)] le by simp_all
    then have "receive P ls c = send_attach (ls_lastServerOffset ls) ls"
      using m(3) start by (simp add: receive_def ij processLiveChunk_def reconcileTerminalOutput_def Let_def)
    with shown show ?thesis by (simp add: shows_stream_def)
  next
    case 3
    then have lt: "offset_of P m < offset_of P j" "\<not> offset_of P m < offset_of P i"
      using offset_less_iff [OF m(2) le(2)] offset_less_iff [of m P i] m(2) le by simp_all
    have same: "chunk_text P (i, j) = chunk_text P (m, j)" if "offset_of P i = offset_of P m"
      using that 3 le m(2) offset_less_iff [of i P m] by fastforce
    have "receive P ls c = ls\<lparr>ls_lastServerOffset := offset_of P j, ls_written := ls_written ls @ [chunk_text P (m, j)]\<rparr>"
      using lt m(3) start cut_chunk [OF P 3(1) less_imp_le [OF 3(2)]] same
      by (auto simp: receive_def ij processLiveChunk_def reconcileTerminalOutput_def Let_def nat_diff_distrib)
    moreover have "take (j - k) (drop k P) = take (m - k) (drop k P) @ take (j - m) (drop m P)"
      using m(1) 3(2) take_add [of "m - k" "j - m" "drop k P"] by simp
    ultimately show ?thesis
      using m 3(2) le(2) unfolding shows_stream_def
      by (intro exI [of _ j]) (simp add: text_points_append chunk_text_def)
  qed
qed

lemma receive_all:
  assumes "stream_ok P" and "k \<le> length P" and "list_all (chunk_of P) cs"
  shows "shows_stream P k (foldl (receive P) (attached_at P k) cs)"
proof -
  have "shows_stream P k ls \<Longrightarrow> list_all (chunk_of P) cs \<Longrightarrow> shows_stream P k (foldl (receive P) ls cs)" for ls
    by (induction cs arbitrary: ls) (auto intro: receive_step [OF assms(1)])
  moreover have "shows_stream P k (attached_at P k)"
    using assms(2) by (auto simp: shows_stream_def attached_at_def text_of_points_def)
  ultimately show ?thesis using assms(3) by blast
qed

text \<open>A chunk that overlaps what was shown and goes on after it is shown up to its end: the stream advances.\<close>

lemma receive_advances:
  assumes "stream_ok P" and "m \<le> length P" and "ls_lastServerOffset ls = offset_of P m"
    and "i \<le> m" and "m < j" and "j \<le> length P"
  shows "ls_lastServerOffset (receive P ls (i, j)) = offset_of P j"
    and "ls_attaches (receive P ls (i, j)) = ls_attaches ls"
proof -
  have sv: "list_all scalar_value P" using assms(1) by (simp add: stream_ok_def)
  have start: "int (offset_of P j) - int (length (encode_utf8 (chunk_text P (i, j)))) = int (offset_of P i)"
    using offset_split [of i j P] assms by (simp add: chunk_bytes [OF sv])
  have "offset_of P m < offset_of P j" "\<not> offset_of P m < offset_of P i"
    using offset_less_iff [of m P j] offset_less_iff [of m P i] assms by simp_all
  then show "ls_lastServerOffset (receive P ls (i, j)) = offset_of P j" "ls_attaches (receive P ls (i, j)) = ls_attaches ls"
    using assms(3) start by (simp_all add: receive_def processLiveChunk_def reconcileTerminalOutput_def Let_def)
qed

text \<open>A chunk that starts further on shows nothing; the panel attaches again from where it is.\<close>

lemma receive_gap:
  assumes "stream_ok P" and "ls_lastServerOffset ls = offset_of P m" and "m < i" and "i \<le> j" and "j \<le> length P"
  shows "receive P ls (i, j) = send_attach (offset_of P m) ls"
proof -
  have sv: "list_all scalar_value P" using assms(1) by (simp add: stream_ok_def)
  have start: "int (offset_of P j) - int (length (encode_utf8 (chunk_text P (i, j)))) = int (offset_of P i)"
    using offset_split [of i j P] assms by (simp add: chunk_bytes [OF sv])
  have "offset_of P m < offset_of P i" "offset_of P m < offset_of P j"
    using offset_less_iff [of m P i] offset_less_iff [of m P j] assms by simp_all
  then show ?thesis using assms(2) start by (simp add: receive_def processLiveChunk_def reconcileTerminalOutput_def Let_def)
qed

text \<open>The decoder drops a byte order mark at the start of what is left of a chunk.\<close>

lemma cut_drops_mark:
  "reconcileTerminalOutput (text_of_points [0x61, 0xFEFF, 0x62]) 5 1 = Render (text_of_points [0x62]) 5"
  by (simp add: reconcileTerminalOutput_def encode_text scalar_value_def high_surrogate_def low_surrogate_def utf8_of_def
      decode_utf8_def lead_byte_def continuation_step strip_bom_point_def Let_def)

text \<open>A replay with reset shows exactly its data.\<close>

lemma reset_replay: "br_reset r \<Longrightarrow> run_ops (replay_ops r) out = br_data r"
  and plain_replay: "\<not> br_reset r \<Longrightarrow> run_ops (replay_ops r) out = out @ br_data r"
  by (simp_all add: replay_ops_def)

end
