(* ===== verification/Terminal_Identity.thy ===== *)
theory Terminal_Identity
  imports App_Registry Replay_Gate
begin

text \<open>
  The identity of terminals, \<^verbatim>\<open>packages/ui/src/api/terminal-session-contract.ts\<close>: canonical numbers
  and UUIDs, the eligibility of an inventory row, the evidence that joins an observation to a target, the
  resolution of a window's terminal against the observed inventories, and the validation of a termination
  response; and the replay of a buffer of \<^verbatim>\<open>terminal-buffer-replay.ts\<close>, which asks for such evidence.
  Values the code reads without a check of their type are \<open>js_value\<close>s. Rows are objects that the code compares
  by identity, which \<open>ir_ref\<close> stands for.
\<close>

section \<open>Canonical spellings\<close>

definition digit_char :: "char \<Rightarrow> bool" where
  "digit_char c \<longleftrightarrow> (let n = (of_char c :: nat) in 48 \<le> n \<and> n \<le> 57)"

definition hex_char :: "char \<Rightarrow> bool" where
  "hex_char c \<longleftrightarrow> digit_char c \<or> (let n = (of_char c :: nat) in 97 \<le> n \<and> n \<le> 102)"

text \<open>\<open>BigInt(s)\<close> of a string of digits\<close>

definition dec_value :: "string \<Rightarrow> nat" where
  "dec_value s = foldl (\<lambda>n c. 10 * n + (of_char c - 48)) 0 s"

definition MAX_U64 :: nat where "MAX_U64 = 18446744073709551615"

definition isCanonicalPositiveU64 :: "js_value \<Rightarrow> bool" where
  "isCanonicalPositiveU64 v =
     (case v of
        JString s \<Rightarrow>
          list_all digit_char s \<and> s \<noteq> [] \<and> hd s \<noteq> CHR ''0'' \<and> length s \<le> 20 \<and> 0 < dec_value s \<and> dec_value s \<le> MAX_U64
      | _ \<Rightarrow> False)"

text \<open>Groups of 8, 4, 4, 4 and 12 lowercase hexadecimal digits, between hyphens.\<close>

definition isCanonicalUuid :: "js_value \<Rightarrow> bool" where
  "isCanonicalUuid v =
     (case v of
        JString s \<Rightarrow>
          length s = 36 \<and>
          list_all (\<lambda>i. if i \<in> {8, 13, 18, 23} then s ! i = CHR ''-'' else hex_char (s ! i)) [0..<36]
      | _ \<Rightarrow> False)"

text \<open>\<open>Number.isSafeInteger(v)\<close> and \<open>String(v)\<close> for a positive safe integer\<close>

definition isSafeInteger :: "js_value \<Rightarrow> bool" where
  "isSafeInteger v =
     (case v of JNumber (Finite x) \<Rightarrow> x = of_int \<lfloor>x\<rfloor> \<and> \<bar>x\<bar> \<le> 9007199254740991 | _ \<Rightarrow> False)"

definition number_text :: "js_value \<Rightarrow> string" where
  "number_text v = (case v of JNumber (Finite x) \<Rightarrow> nat_dec (nat \<lfloor>x\<rfloor>) | _ \<Rightarrow> '''')"

definition positive_number :: "js_value \<Rightarrow> bool" where
  "positive_number v = (case v of JNumber (Finite x) \<Rightarrow> 0 < x | _ \<Rightarrow> False)"

section \<open>Inventories\<close>

datatype termination_state = StLive | StTerminationRequested | StRestartPending | StRestartCancelled | StExited | StUnavailable

definition isTerminalInventoryTerminationState :: "js_value \<Rightarrow> bool" where
  "isTerminalInventoryTerminationState v =
     (case v of
        JString s \<Rightarrow>
          s \<in> {''live'', ''terminationRequested'', ''restartPending'', ''restartCancelled'', ''exited'', ''unavailable''}
      | _ \<Rightarrow> False)"

datatype availability = AvLive | AvTerminationRequested | AvRestartPending | AvRestartCancelled | AvExited | AvUnknown

definition mapTerminalRowAvailability :: "termination_state option \<Rightarrow> availability" where
  "mapTerminalRowAvailability st =
     (case st of
        Some StLive \<Rightarrow> AvLive
      | Some StTerminationRequested \<Rightarrow> AvTerminationRequested
      | Some StRestartPending \<Rightarrow> AvRestartPending
      | Some StRestartCancelled \<Rightarrow> AvRestartCancelled
      | Some StExited \<Rightarrow> AvExited
      | _ \<Rightarrow> AvUnknown)"

record inventory_row =
  ir_ref :: nat
  ir_id :: string
  ir_incarnation :: js_value
  ir_incarnationExact :: "string option"
  ir_terminationState :: "termination_state option"

datatype termination_metadata = TerminationV1 string | TerminationUnsupported

record connection_ref =
  cr_profileId :: string
  cr_generation :: real

record inventory_observation =
  io_sessions :: "inventory_row list"
  io_termination :: termination_metadata
  io_owner :: "connection_ref option"

definition isTerminalInventoryRowEligible :: "inventory_row \<Rightarrow> bool" where
  "isTerminalInventoryRowEligible row =
     (case ir_incarnationExact row of
        None \<Rightarrow> False
      | Some exact \<Rightarrow>
          exact \<noteq> '''' \<and> isCanonicalPositiveU64 (JString exact) \<and>
          (isSafeInteger (ir_incarnation row) \<longrightarrow>
             positive_number (ir_incarnation row) \<and> number_text (ir_incarnation row) = exact))"

definition proveNumericEvidenceJoin :: "js_value \<Rightarrow> string \<Rightarrow> bool" where
  "proveNumericEvidenceJoin evidence exact \<longleftrightarrow>
     isCanonicalPositiveU64 (JString exact) \<and> isSafeInteger evidence \<and> positive_number evidence \<and> number_text evidence = exact"

definition createTerminalTargetFromObservation :: "inventory_observation \<Rightarrow> inventory_row \<Rightarrow> terminal_target option" where
  "createTerminalTargetFromObservation obs row =
     (case (io_owner obs, io_termination obs, ir_incarnationExact row) of
        (Some owner, TerminationV1 epoch, Some exact) \<Rightarrow>
          if isCanonicalUuid (JString epoch) \<and> list_ex (\<lambda>r. ir_ref r = ir_ref row) (io_sessions obs) \<and>
             isTerminalInventoryRowEligible row
          then Some \<lparr>tt_profileId = cr_profileId owner, tt_generation = cr_generation owner, tt_serverEpoch = epoch,
                     tt_terminalId = ir_id row, tt_incarnation = exact\<rparr>
          else None
      | _ \<Rightarrow> None)"

datatype termination_origin = OriginLive | OriginRestartPending

definition isTerminationResultValid :: "nat \<Rightarrow> js_value \<Rightarrow> terminal_target \<Rightarrow> termination_origin \<Rightarrow> bool" where
  "isTerminationResultValid statusCode body target origin \<longleftrightarrow>
     is_object body \<and> strict_eq (js_get body ''version'') (JNumber (Finite 1)) \<and>
     isCanonicalUuid (js_get body ''serverEpoch'') \<and> isCanonicalPositiveU64 (js_get body ''incarnation'') \<and>
     strict_eq (js_get body ''serverEpoch'') (JString (tt_serverEpoch target)) \<and>
     strict_eq (js_get body ''terminalId'') (JString (tt_terminalId target)) \<and>
     strict_eq (js_get body ''incarnation'') (JString (tt_incarnation target)) \<and>
     (case origin of
        OriginLive \<Rightarrow> statusCode = 202 \<and> strict_eq (js_get body ''outcome'') (JString ''terminationRequested'')
      | OriginRestartPending \<Rightarrow> statusCode = 200 \<and> strict_eq (js_get body ''outcome'') (JString ''restartCancelled''))"

section \<open>The terminal of a window\<close>

definition target_value :: "terminal_target \<Rightarrow> js_value" where
  "target_value t = JObject
     [(''profileId'', JString (tt_profileId t)), (''generation'', JNumber (Finite (tt_generation t))),
      (''serverEpoch'', JString (tt_serverEpoch t)), (''terminalId'', JString (tt_terminalId t)),
      (''incarnation'', JString (tt_incarnation t))]"

definition captured_target :: "os_window \<Rightarrow> js_value" where
  "captured_target w =
     (case win_runtimeIdentity w of
        Some (TerminalIdentity t) \<Rightarrow> target_value t
      | _ \<Rightarrow> nullish (nullish (state_field (win_appState w) ''target'') (state_field (win_appState w) ''terminalTarget'')) JNull)"

definition window_session :: "os_window \<Rightarrow> js_value" where
  "window_session w = nullish (state_field (win_appState w) ''sessionId'') (state_field (win_appState w) ''terminalId'')"

fun is_number :: "js_value \<Rightarrow> bool" where
  "is_number (JNumber _) = True"
| "is_number _ = False"

definition nonnegative_number :: "js_value \<Rightarrow> bool" where
  "nonnegative_number v = (case v of JNumber (Finite x) \<Rightarrow> 0 \<le> x | _ \<Rightarrow> False)"

text \<open>The originating incarnation of a window without captured target: the exact string, the number, or both if they
  agree; \<open>None\<close> where the row is skipped.\<close>

definition window_incarnation :: "os_window \<Rightarrow> string option" where
  "window_incarnation w =
     (let rawExact = state_field (win_appState w) ''incarnationExact'';
          rawNum = state_field (win_appState w) ''incarnation'';
          badNum = (is_number rawNum \<and> \<not> (isSafeInteger rawNum \<and> positive_number rawNum));
          numExact = (if is_number rawNum then Some (number_text rawNum) else None)
      in case rawExact of
           JString e \<Rightarrow>
             if \<not> isCanonicalPositiveU64 rawExact \<or> badNum \<or> (numExact \<noteq> None \<and> numExact \<noteq> Some e) then None else Some e
         | _ \<Rightarrow> if badNum then None else numExact)"

definition row_provenance :: "os_window \<Rightarrow> connection_ref \<Rightarrow> termination_metadata \<Rightarrow> inventory_row \<Rightarrow> bool" where
  "row_provenance w owner meta row \<longleftrightarrow>
     (let generation = state_field (win_appState w) ''generation'';
          winProfileId = nullish (state_field (win_appState w) ''profileId'') (JString (ctx_profileId (win_ctx w)));
          winServerEpoch = state_field (win_appState w) ''serverEpoch''
      in isSafeInteger generation \<and> nonnegative_number generation \<and>
         strict_eq (JNumber (Finite (cr_generation owner))) generation \<and>
         truthy winProfileId \<and> strict_eq (JString (cr_profileId owner)) winProfileId \<and>
         isCanonicalUuid winServerEpoch \<and>
         (case meta of TerminationV1 epoch \<Rightarrow> strict_eq (JString epoch) winServerEpoch | TerminationUnsupported \<Rightarrow> False) \<and>
         (case window_incarnation w of
            Some i \<Rightarrow> i \<noteq> '''' \<and> ir_incarnationExact row = Some i
          | None \<Rightarrow> False))"

text \<open>The body of the loop over the rows of an observation: the result, or \<open>None\<close> for \<^verbatim>\<open>continue\<close>.\<close>

definition resolve_row ::
  "os_window \<Rightarrow> inventory_observation \<Rightarrow> connection_ref \<Rightarrow> inventory_row \<Rightarrow> (js_value \<times> availability) option"
where
  "resolve_row w obs owner row =
     (let captured = captured_target w;
          effectiveSessionId = nullish (js_get captured ''terminalId'') (window_session w)
      in if \<not> strict_eq (JString (ir_id row)) effectiveSessionId \<or> \<not> isTerminalInventoryRowEligible row then None
         else if truthy captured
         then
           (case (io_termination obs, ir_incarnationExact row) of
              (TerminationV1 epoch, Some exact) \<Rightarrow>
                if strict_eq (JString epoch) (js_get captured ''serverEpoch'') \<and>
                   exact \<noteq> '''' \<and> strict_eq (JString exact) (js_get captured ''incarnation'')
                then Some (captured, mapTerminalRowAvailability (ir_terminationState row))
                else None
            | _ \<Rightarrow> None)
         else if \<not> row_provenance w owner (io_termination obs) row then None
         else
           map_option (\<lambda>t. (target_value t, mapTerminalRowAvailability (ir_terminationState row)))
             (createTerminalTargetFromObservation obs row))"

text \<open>The first result of a loop that returns from its body.\<close>

fun first_some :: "('a \<Rightarrow> 'b option) \<Rightarrow> 'a list \<Rightarrow> 'b option" where
  "first_some f [] = None"
| "first_some f (x # xs) = (case f x of Some y \<Rightarrow> Some y | None \<Rightarrow> first_some f xs)"

definition resolve_observation :: "os_window \<Rightarrow> inventory_observation \<Rightarrow> (js_value \<times> availability) option" where
  "resolve_observation w obs =
     (let captured = captured_target w; profileId = ctx_profileId (win_ctx w) in
      case io_owner obs of
        None \<Rightarrow> None
      | Some owner \<Rightarrow>
          if profileId \<noteq> '''' \<and> cr_profileId owner \<noteq> profileId then None
          else if truthy captured \<and>
                  (\<not> strict_eq (JString (cr_profileId owner)) (js_get captured ''profileId'') \<or>
                   \<not> strict_eq (JNumber (Finite (cr_generation owner))) (js_get captured ''generation''))
          then None
          else first_some (resolve_row w obs owner) (io_sessions obs))"

definition resolveWindowTerminalObservation :: "os_window \<Rightarrow> inventory_observation list \<Rightarrow> js_value \<times> availability" where
  "resolveWindowTerminalObservation w observations =
     (if win_appId w \<noteq> Terminals then (JNull, AvUnknown)
      else if \<not> truthy (window_session w) \<and> \<not> truthy (captured_target w) then (JNull, AvUnknown)
      else
        (case first_some (resolve_observation w) observations of
           Some res \<Rightarrow> res
         | None \<Rightarrow> (captured_target w, AvUnknown)))"

section \<open>The replay of a buffer\<close>

definition isTerminalBufferReplayEligible :: "js_value \<Rightarrow> terminal_target option \<Rightarrow> bool" where
  "isTerminalBufferReplayEligible incarnation target =
     (case target of None \<Rightarrow> True | Some t \<Rightarrow> proveNumericEvidenceJoin incarnation (tt_incarnation t))"

text \<open>The offset the code returns, \<open>-1\<close> for a refusal; the gate; and the operations on the terminal.\<close>

definition applyTerminalBufferReplay ::
  "buffer_replay \<Rightarrow> replay_gate \<Rightarrow> terminal_target option \<Rightarrow> int \<times> replay_gate \<times> terminal_op list"
where
  "applyTerminalBufferReplay replay gate target =
     (if target \<noteq> None \<and> \<not> isTerminalBufferReplayEligible (JNumber (Finite (real (br_incarnation replay)))) target
      then (-1, gate, [])
      else (int (br_offset replay), beginTerminalReplayWrite gate, replay_ops replay))"

section \<open>Laws\<close>

lemma first_some_Some: "first_some f xs = Some y \<Longrightarrow> \<exists>x \<in> set xs. f x = Some y"
  by (induction xs) (auto split: option.splits)

lemma strict_eq_number [simp]: "strict_eq (JNumber (Finite x)) v \<longleftrightarrow> v = JNumber (Finite x)"
  by (cases v) auto

text \<open>What a resolved target rests on: an observation of the owner with the target's profile, generation and epoch,
  and an eligible row with its incarnation.\<close>

definition evidence :: "js_value \<Rightarrow> inventory_observation \<Rightarrow> inventory_row \<Rightarrow> bool" where
  "evidence t obs row \<longleftrightarrow>
     row \<in> set (io_sessions obs) \<and> isTerminalInventoryRowEligible row \<and>
     (case (io_owner obs, io_termination obs, ir_incarnationExact row) of
        (Some owner, TerminationV1 epoch, Some exact) \<Rightarrow>
          js_get t ''profileId'' = JString (cr_profileId owner) \<and>
          js_get t ''generation'' = JNumber (Finite (cr_generation owner)) \<and>
          js_get t ''serverEpoch'' = JString epoch \<and> js_get t ''incarnation'' = JString exact
      | _ \<Rightarrow> False)"

lemma target_value_get [simp]:
  "js_get (target_value t) ''profileId'' = JString (tt_profileId t)"
  "js_get (target_value t) ''generation'' = JNumber (Finite (tt_generation t))"
  "js_get (target_value t) ''serverEpoch'' = JString (tt_serverEpoch t)"
  "js_get (target_value t) ''terminalId'' = JString (tt_terminalId t)"
  "js_get (target_value t) ''incarnation'' = JString (tt_incarnation t)"
  "truthy (target_value t)"
  by (simp_all add: target_value_def)

lemma created_target:
  assumes "createTerminalTargetFromObservation obs row = Some t" and "row \<in> set (io_sessions obs)"
  shows "evidence (target_value t) obs row" and "tt_terminalId t = ir_id row" and "isCanonicalUuid (JString (tt_serverEpoch t))"
  using assms by (auto simp: createTerminalTargetFromObservation_def evidence_def
      split: option.splits termination_metadata.splits if_splits)

lemma resolve_row_evidence:
  assumes "resolve_observation w obs = Some (t, a)"
  shows "\<exists>row. evidence t obs row \<and> a = mapTerminalRowAvailability (ir_terminationState row) \<and>
    JString (ir_id row) = nullish (js_get (captured_target w) ''terminalId'') (window_session w) \<and>
    (truthy (captured_target w) \<longrightarrow> t = captured_target w)"
proof -
  obtain owner where owner: "io_owner obs = Some owner"
    and cap: "truthy (captured_target w) \<Longrightarrow> js_get (captured_target w) ''profileId'' = JString (cr_profileId owner) \<and>
      js_get (captured_target w) ''generation'' = JNumber (Finite (cr_generation owner))"
    and first: "first_some (resolve_row w obs owner) (io_sessions obs) = Some (t, a)"
    using assms by (auto simp: resolve_observation_def Let_def split: option.splits if_splits)
  obtain row where row: "row \<in> set (io_sessions obs)" "resolve_row w obs owner row = Some (t, a)"
    using first_some_Some [OF first] by blast
  have id: "nullish (js_get (captured_target w) ''terminalId'') (window_session w) = JString (ir_id row)"
    and el: "isTerminalInventoryRowEligible row"
    using row(2) by (auto simp: resolve_row_def Let_def split: if_splits)
  show ?thesis
  proof (cases "truthy (captured_target w)")
    case True
    then have "t = captured_target w" "a = mapTerminalRowAvailability (ir_terminationState row)" "evidence t obs row"
      using row id el cap owner
      by (auto simp: resolve_row_def Let_def evidence_def split: if_splits termination_metadata.splits option.splits)
    with id show ?thesis by auto
  next
    case False
    then obtain t' where "createTerminalTargetFromObservation obs row = Some t'" "t = target_value t'"
      "a = mapTerminalRowAvailability (ir_terminationState row)"
      using row(2) by (auto simp: resolve_row_def Let_def split: if_splits)
    with created_target(1) row(1) id False show ?thesis by metis
  qed
qed

lemma dec_value_snoc: "dec_value (s @ [c]) = 10 * dec_value s + (of_char c - 48)"
  by (simp add: dec_value_def)

lemma dec_value_nat_dec: "dec_value (nat_dec n) = n"
proof (induction n rule: nat_dec.induct)
  case (1 n)
  show ?case
  proof (cases "n < 10")
    case True
    then show ?thesis by (simp add: nat_dec.simps [of n] dec_value_def)
  next
    case False
    then show ?thesis using 1 by (simp add: nat_dec.simps [of n] dec_value_snoc)
  qed
qed

lemma evidence_number:
  assumes "proveNumericEvidenceJoin v exact"
  shows "v = JNumber (Finite (real (dec_value exact)))" and "dec_value exact \<le> 9007199254740991"
proof -
  obtain x where x: "v = JNumber (Finite x)" "x = of_int \<lfloor>x\<rfloor>" "\<bar>x\<bar> \<le> 9007199254740991" "0 < x" "nat_dec (nat \<lfloor>x\<rfloor>) = exact"
    using assms by (auto simp: proveNumericEvidenceJoin_def isSafeInteger_def positive_number_def number_text_def
        split: js_value.splits js_number.splits)
  have "dec_value exact = nat \<lfloor>x\<rfloor>" using x(5) dec_value_nat_dec by blast
  moreover have "0 \<le> \<lfloor>x\<rfloor>" using x(4) by simp
  then have "real (nat \<lfloor>x\<rfloor>) = x" using x(2) by simp
  ultimately show "v = JNumber (Finite (real (dec_value exact)))" "dec_value exact \<le> 9007199254740991"
    using x(1,3) by (simp_all add: abs_le_iff)
qed

end
