(* ===== verification/Attach_Recovery.thy ===== *)
theory Attach_Recovery
  imports Dh_Prelude
begin

text \<open>
  The controller that attaches a terminal panel to its session and recovers the attachment, class
  \<^verbatim>\<open>TerminalAttachRecoveryController\<close> of \<^verbatim>\<open>packages/ui/src/lib/terminal-attach-recovery-controller.ts\<close>. The event
  loop is part of the state: the timers that are set and the promises that are not settled, each with what
  its callback captured. What the transport answers (\<open>sent\<close>, \<open>alive\<close>) is an argument of the step in which it is asked,
  and \<open>rc_calls\<close> is the log of the calls of the options, which do not throw and do not call the controller back.
\<close>

section \<open>State\<close>

text \<open>A callback of a timer with the generation and the offset it captured and its delay.\<close>

datatype timer_callback =
    AttachTimeout nat "nat option" nat
  | RetryTimer nat "nat option" nat

datatype recovery_call =
    SendAttach "nat option" nat
  | CheckAlive
  | CreateTerminal
  | ReportTimeout
  | ReportCreateFailed
  | ReportUnavailable

record recovery =
  rc_timeoutMs :: nat
  rc_initialRetryDelayMs :: nat
  rc_maxRetryDelayMs :: nat
  rc_connected :: bool
  rc_awaitingBuffer :: bool
  rc_bufferReceived :: bool
  rc_attached :: bool
  rc_attachDeferred :: bool
  rc_started :: bool
  rc_disposed :: bool
  rc_recoveryReported :: bool
  rc_createFailureReported :: bool
  rc_createdThisRecovery :: bool
  rc_retryAttempt :: nat
  rc_generation :: nat
  rc_attachTimeout :: "nat option"
  rc_retryTimer :: "nat option"
  rc_probeInFlight :: bool
  rc_createInFlight :: bool
  rc_timers :: "(nat \<times> timer_callback) list"
  rc_nextTimer :: nat
  rc_probes :: "(nat \<times> nat option) list"
  rc_creates :: "nat list"
  rc_calls :: "recovery_call list"

definition new_recovery :: "nat option \<Rightarrow> nat option \<Rightarrow> nat option \<Rightarrow> recovery" where
  "new_recovery timeoutMs initialRetryDelayMs maxRetryDelayMs =
     \<lparr>rc_timeoutMs = (case timeoutMs of Some d \<Rightarrow> d | None \<Rightarrow> 3000),
      rc_initialRetryDelayMs = (case initialRetryDelayMs of Some d \<Rightarrow> d | None \<Rightarrow> 1000),
      rc_maxRetryDelayMs = (case maxRetryDelayMs of Some d \<Rightarrow> d | None \<Rightarrow> 30000),
      rc_connected = True, rc_awaitingBuffer = False, rc_bufferReceived = False, rc_attached = False,
      rc_attachDeferred = False, rc_started = False, rc_disposed = False, rc_recoveryReported = False,
      rc_createFailureReported = False, rc_createdThisRecovery = False, rc_retryAttempt = 0, rc_generation = 0,
      rc_attachTimeout = None, rc_retryTimer = None, rc_probeInFlight = False, rc_createInFlight = False,
      rc_timers = [], rc_nextTimer = 1, rc_probes = [], rc_creates = [], rc_calls = []\<rparr>"

section \<open>Pending work\<close>

definition clearAttachTimeout :: "recovery \<Rightarrow> recovery" where
  "clearAttachTimeout s =
     (case rc_attachTimeout s of
        None \<Rightarrow> s
      | Some t \<Rightarrow> s\<lparr>rc_timers := filter (\<lambda>p. fst p \<noteq> t) (rc_timers s), rc_attachTimeout := None\<rparr>)"

definition clearRetryTimer :: "recovery \<Rightarrow> recovery" where
  "clearRetryTimer s =
     (case rc_retryTimer s of
        None \<Rightarrow> s
      | Some t \<Rightarrow> s\<lparr>rc_timers := filter (\<lambda>p. fst p \<noteq> t) (rc_timers s), rc_retryTimer := None\<rparr>)"

definition invalidatePendingWork :: "recovery \<Rightarrow> recovery" where
  "invalidatePendingWork s =
     clearRetryTimer (clearAttachTimeout (s\<lparr>rc_generation := rc_generation s + 1, rc_probeInFlight := False\<rparr>))"

definition scheduleRetry :: "nat option \<Rightarrow> recovery \<Rightarrow> recovery" where
  "scheduleRetry fromOffset s =
     (if rc_disposed s \<or> \<not> rc_connected s \<or> rc_attached s \<or> rc_retryTimer s \<noteq> None \<or> rc_createInFlight s then s
      else
        let delay = min (rc_initialRetryDelayMs s * 2 ^ rc_retryAttempt s) (rc_maxRetryDelayMs s)
        in s\<lparr>rc_retryAttempt := rc_retryAttempt s + 1,
             rc_timers := rc_timers s @ [(rc_nextTimer s, RetryTimer (rc_generation s) fromOffset delay)],
             rc_retryTimer := Some (rc_nextTimer s), rc_nextTimer := rc_nextTimer s + 1\<rparr>)"

definition create_terminal :: "nat \<Rightarrow> recovery \<Rightarrow> recovery" where
  "create_terminal generation s =
     (if rc_disposed s \<or> generation \<noteq> rc_generation s then s
      else if rc_createInFlight s \<or> rc_createdThisRecovery s then scheduleRetry None s
      else s\<lparr>rc_createInFlight := True, rc_creates := rc_creates s @ [generation], rc_calls := rc_calls s @ [CreateTerminal]\<rparr>)"

definition probe_session :: "nat \<Rightarrow> nat option \<Rightarrow> recovery \<Rightarrow> recovery" where
  "probe_session generation fromOffset s =
     (if rc_disposed s \<or> generation \<noteq> rc_generation s \<or> rc_probeInFlight s then s
      else
        s\<lparr>rc_probeInFlight := True, rc_recoveryReported := True, rc_probes := rc_probes s @ [(generation, fromOffset)],
          rc_calls := rc_calls s @ (if rc_recoveryReported s then [] else [ReportTimeout]) @ [CheckAlive]\<rparr>)"

definition requestAttach :: "bool \<Rightarrow> nat option \<Rightarrow> recovery \<Rightarrow> recovery" where
  "requestAttach sent fromOffset s =
     (if rc_disposed s \<or> \<not> rc_started s \<or> \<not> rc_connected s \<or> rc_attached s \<or> rc_attachDeferred s \<or>
         rc_awaitingBuffer s \<or> rc_probeInFlight s \<or> rc_createInFlight s
      then s
      else
        let s1 = (clearRetryTimer s)\<lparr>rc_awaitingBuffer := True, rc_calls := rc_calls s @ [SendAttach fromOffset (rc_retryAttempt s)]\<rparr>
        in if \<not> sent
           then s1\<lparr>rc_awaitingBuffer := False, rc_attachDeferred := True, rc_calls := rc_calls s1 @ [ReportUnavailable]\<rparr>
           else s1\<lparr>rc_timers := rc_timers s1 @ [(rc_nextTimer s1, AttachTimeout (rc_generation s1) fromOffset (rc_timeoutMs s1))],
                   rc_attachTimeout := Some (rc_nextTimer s1), rc_nextTimer := rc_nextTimer s1 + 1\<rparr>)"

section \<open>Callbacks\<close>

definition attach_timed_out :: "nat \<Rightarrow> nat option \<Rightarrow> recovery \<Rightarrow> recovery" where
  "attach_timed_out generation fromOffset s =
     (if rc_disposed s \<or> generation \<noteq> rc_generation s \<or> \<not> rc_awaitingBuffer s then s
      else probe_session generation fromOffset (s\<lparr>rc_attachTimeout := None, rc_awaitingBuffer := False\<rparr>))"

definition retry_due :: "bool \<Rightarrow> nat \<Rightarrow> nat option \<Rightarrow> recovery \<Rightarrow> recovery" where
  "retry_due sent generation fromOffset s =
     (let s1 = s\<lparr>rc_retryTimer := None\<rparr> in
      if rc_disposed s1 \<or> generation \<noteq> rc_generation s1 then s1 else requestAttach sent fromOffset s1)"

text \<open>A probe settles with whether the session is alive, or is rejected (\<open>None\<close>).\<close>

definition probe_settled :: "nat \<Rightarrow> nat option \<Rightarrow> bool option \<Rightarrow> recovery \<Rightarrow> recovery" where
  "probe_settled generation fromOffset alive s =
     (if rc_disposed s \<or> generation \<noteq> rc_generation s then s
      else
        let s1 = s\<lparr>rc_probeInFlight := False\<rparr>
        in if alive = Some False then create_terminal generation s1 else scheduleRetry fromOffset s1)"

definition create_settled :: "bool \<Rightarrow> nat \<Rightarrow> bool \<Rightarrow> recovery \<Rightarrow> recovery" where
  "create_settled sent generation ok s =
     (let s1 = s\<lparr>rc_createInFlight := False\<rparr> in
      if rc_disposed s1 then s1
      else if generation \<noteq> rc_generation s1 then requestAttach sent None s1
      else if ok then requestAttach sent None (s1\<lparr>rc_createdThisRecovery := True, rc_retryAttempt := 0\<rparr>)
      else scheduleRetry None
             (s1\<lparr>rc_createFailureReported := True,
                 rc_calls := rc_calls s1 @ (if rc_createFailureReported s1 then [] else [ReportCreateFailed])\<rparr>))"

section \<open>Methods\<close>

definition start_recovery :: "bool \<Rightarrow> nat option \<Rightarrow> recovery \<Rightarrow> recovery" where
  "start_recovery sent fromOffset s = requestAttach sent fromOffset (s\<lparr>rc_started := True\<rparr>)"

definition onBuffer :: "bool \<Rightarrow> recovery \<Rightarrow> recovery" where
  "onBuffer shouldRetryAfterReplay s =
     (if rc_disposed s then s
      else if shouldRetryAfterReplay \<and> \<not> rc_createdThisRecovery s
      then invalidatePendingWork
             (s\<lparr>rc_attached := False, rc_awaitingBuffer := False, rc_bufferReceived := True, rc_retryAttempt := 0,
                rc_recoveryReported := False, rc_createFailureReported := False\<rparr>)
      else invalidatePendingWork
             (s\<lparr>rc_attached := True, rc_awaitingBuffer := False, rc_bufferReceived := False, rc_retryAttempt := 0,
                rc_recoveryReported := False, rc_createFailureReported := False, rc_createdThisRecovery := False\<rparr>))"

definition onReplayComplete :: "recovery \<Rightarrow> recovery" where
  "onReplayComplete s =
     (if rc_disposed s \<or> \<not> rc_bufferReceived s then s
      else create_terminal (rc_generation s) (s\<lparr>rc_bufferReceived := False\<rparr>))"

definition onConnectionStatus :: "bool \<Rightarrow> bool \<Rightarrow> nat option \<Rightarrow> recovery \<Rightarrow> recovery" where
  "onConnectionStatus sent isConnected fromOffset s =
     (if rc_disposed s then s
      else if isConnected
      then let s1 = s\<lparr>rc_connected := True, rc_attachDeferred := False\<rparr>
           in if \<not> rc_started s1 then s1 else requestAttach sent fromOffset s1
      else invalidatePendingWork
             (s\<lparr>rc_connected := False, rc_attached := False, rc_awaitingBuffer := False, rc_bufferReceived := False,
                rc_retryAttempt := 0, rc_recoveryReported := False, rc_createFailureReported := False,
                rc_createdThisRecovery := False\<rparr>))"

definition dispose_recovery :: "recovery \<Rightarrow> recovery" where
  "dispose_recovery s = (if rc_disposed s then s else invalidatePendingWork (s\<lparr>rc_disposed := True\<rparr>))"

section \<open>The event loop\<close>

text \<open>What the panel calls and what the event loop runs. A timer fires by its number, a promise settles by its position.\<close>

datatype recovery_event =
    StartAttach "nat option"
  | BufferArrives bool
  | ReplayRendered
  | ConnectionChanges bool "nat option"
  | DisposeController
  | TimerFires nat
  | ProbeSettles nat "bool option"
  | CreateSettles nat bool

definition without_nth :: "nat \<Rightarrow> 'a list \<Rightarrow> 'a list" where
  "without_nth i xs = take i xs @ drop (Suc i) xs"

text \<open>The first component of an event says whether an attach that it sends can be sent.\<close>

fun recovery_step :: "recovery \<Rightarrow> bool \<times> recovery_event \<Rightarrow> recovery" where
  "recovery_step s (sent, StartAttach off) = start_recovery sent off s"
| "recovery_step s (sent, BufferArrives retry) = onBuffer retry s"
| "recovery_step s (sent, ReplayRendered) = onReplayComplete s"
| "recovery_step s (sent, ConnectionChanges isConnected off) = onConnectionStatus sent isConnected off s"
| "recovery_step s (sent, DisposeController) = dispose_recovery s"
| "recovery_step s (sent, TimerFires t) =
     (case map_of (rc_timers s) t of
        None \<Rightarrow> s
      | Some (AttachTimeout g off _) \<Rightarrow> attach_timed_out g off (s\<lparr>rc_timers := filter (\<lambda>p. fst p \<noteq> t) (rc_timers s)\<rparr>)
      | Some (RetryTimer g off _) \<Rightarrow> retry_due sent g off (s\<lparr>rc_timers := filter (\<lambda>p. fst p \<noteq> t) (rc_timers s)\<rparr>))"
| "recovery_step s (sent, ProbeSettles i alive) =
     (if i < length (rc_probes s)
      then probe_settled (fst (rc_probes s ! i)) (snd (rc_probes s ! i)) alive (s\<lparr>rc_probes := without_nth i (rc_probes s)\<rparr>)
      else s)"
| "recovery_step s (sent, CreateSettles i ok) =
     (if i < length (rc_creates s)
      then create_settled sent (rc_creates s ! i) ok (s\<lparr>rc_creates := without_nth i (rc_creates s)\<rparr>)
      else s)"

section \<open>The invariant\<close>

text \<open>Every pending timer is held by its field and was set in the present generation, and every held timer is pending.\<close>

fun timer_held :: "recovery \<Rightarrow> nat \<times> timer_callback \<Rightarrow> bool" where
  "timer_held s (t, AttachTimeout g off delay) \<longleftrightarrow> rc_attachTimeout s = Some t \<and> g = rc_generation s"
| "timer_held s (t, RetryTimer g off delay) \<longleftrightarrow> rc_retryTimer s = Some t \<and> g = rc_generation s"

definition timers_ok :: "recovery \<Rightarrow> bool" where
  "timers_ok s \<longleftrightarrow>
     distinct (map fst (rc_timers s)) \<and> (\<forall>p \<in> set (rc_timers s). fst p < rc_nextTimer s \<and> timer_held s p) \<and>
     (\<forall>t. rc_attachTimeout s = Some t \<longrightarrow> (\<exists>off delay. (t, AttachTimeout (rc_generation s) off delay) \<in> set (rc_timers s))) \<and>
     (\<forall>t. rc_retryTimer s = Some t \<longrightarrow> (\<exists>off delay. (t, RetryTimer (rc_generation s) off delay) \<in> set (rc_timers s))) \<and>
     (rc_attachTimeout s = None \<or> rc_attachTimeout s \<noteq> rc_retryTimer s)"

definition present_probes :: "recovery \<Rightarrow> nat" where
  "present_probes s = length (filter (\<lambda>p. fst p = rc_generation s) (rc_probes s))"

definition promises_ok :: "recovery \<Rightarrow> bool" where
  "promises_ok s \<longleftrightarrow>
     present_probes s = of_bool (rc_probeInFlight s) \<and> (\<forall>p \<in> set (rc_probes s). fst p \<le> rc_generation s) \<and>
     length (rc_creates s) = of_bool (rc_createInFlight s)"

definition awaiting_ok :: "recovery \<Rightarrow> bool" where
  "awaiting_ok s \<longleftrightarrow>
     (rc_disposed s \<longrightarrow> rc_timers s = [] \<and> \<not> rc_probeInFlight s) \<and> (rc_disposed s \<or> rc_awaitingBuffer s = (rc_attachTimeout s \<noteq> None))"

text \<open>A panel that should be attached and is not has work under way, or waits for a replay to be rendered.\<close>

definition unattached :: "recovery \<Rightarrow> bool" where
  "unattached s \<longleftrightarrow>
     rc_started s \<and> rc_connected s \<and> \<not> rc_attached s \<and> \<not> rc_attachDeferred s \<and> \<not> rc_disposed s"

definition under_way :: "recovery \<Rightarrow> bool" where
  "under_way s \<longleftrightarrow>
     unattached s \<longrightarrow>
       rc_awaitingBuffer s \<or> rc_probeInFlight s \<or> rc_createInFlight s \<or> rc_retryTimer s \<noteq> None \<or> rc_bufferReceived s"

definition core_ok :: "recovery \<Rightarrow> bool" where
  "core_ok s \<longleftrightarrow> timers_ok s \<and> promises_ok s \<and> awaiting_ok s"

lemmas core_defs = timers_ok_def promises_ok_def awaiting_ok_def present_probes_def

lemma held_id: "timer_held s p \<Longrightarrow> rc_attachTimeout s = Some (fst p) \<or> rc_retryTimer s = Some (fst p)"
  by (induction s p rule: timer_held.induct) auto

lemma held_cong:
  "rc_attachTimeout s' = rc_attachTimeout s \<Longrightarrow> rc_retryTimer s' = rc_retryTimer s \<Longrightarrow> rc_generation s' = rc_generation s \<Longrightarrow>
   timer_held s' p = timer_held s p"
  by (induction s p rule: timer_held.induct) auto

lemma held_other:
  "rc_attachTimeout s' = rc_attachTimeout s \<Longrightarrow> rc_generation s' = rc_generation s \<Longrightarrow> timer_held s p \<Longrightarrow>
   rc_retryTimer s \<noteq> Some (fst p) \<Longrightarrow> timer_held s' p"
  "rc_retryTimer s' = rc_retryTimer s \<Longrightarrow> rc_generation s' = rc_generation s \<Longrightarrow> timer_held s p \<Longrightarrow>
   rc_attachTimeout s \<noteq> Some (fst p) \<Longrightarrow> timer_held s' p"
  by (induction s p rule: timer_held.induct) auto

lemma timers_ok_cong:
  assumes "rc_timers s' = rc_timers s" "rc_attachTimeout s' = rc_attachTimeout s" "rc_retryTimer s' = rc_retryTimer s"
    "rc_generation s' = rc_generation s" "rc_nextTimer s' = rc_nextTimer s"
  shows "timers_ok s' = timers_ok s"
proof -
  have "timer_held s' = timer_held s" by (rule ext) (rule held_cong [OF assms(2-4)])
  then show ?thesis by (simp add: timers_ok_def assms)
qed

text \<open>Taking a held timer out of its field and of the loop.\<close>

lemma drop_retry_ok:
  assumes "timers_ok s" and "rc_retryTimer s = Some t"
  shows "timers_ok (s\<lparr>rc_timers := filter (\<lambda>p. fst p \<noteq> t) (rc_timers s), rc_retryTimer := None\<rparr>)"
  using assms by (auto simp: timers_ok_def distinct_map_filter intro: held_other(1) [of _ s])

lemma drop_attach_ok:
  assumes "timers_ok s" and "rc_attachTimeout s = Some t"
  shows "timers_ok (s\<lparr>rc_timers := filter (\<lambda>p. fst p \<noteq> t) (rc_timers s), rc_attachTimeout := None\<rparr>)"
  using assms by (auto simp: timers_ok_def distinct_map_filter intro: held_other(2) [of _ s])

lemma clear_retry_ok: "timers_ok s \<Longrightarrow> timers_ok (clearRetryTimer s) \<and> rc_retryTimer (clearRetryTimer s) = None"
  by (auto simp: clearRetryTimer_def drop_retry_ok split: option.split)

lemma clear_retry_fields [simp]:
  "rc_generation (clearRetryTimer s) = rc_generation s" "rc_awaitingBuffer (clearRetryTimer s) = rc_awaitingBuffer s"
  "rc_attachTimeout (clearRetryTimer s) = rc_attachTimeout s" "rc_probes (clearRetryTimer s) = rc_probes s"
  "rc_creates (clearRetryTimer s) = rc_creates s" "rc_probeInFlight (clearRetryTimer s) = rc_probeInFlight s"
  "rc_createInFlight (clearRetryTimer s) = rc_createInFlight s" "rc_disposed (clearRetryTimer s) = rc_disposed s"
  "rc_nextTimer (clearRetryTimer s) = rc_nextTimer s" "rc_started (clearRetryTimer s) = rc_started s"
  "rc_calls (clearRetryTimer s) = rc_calls s" "rc_createdThisRecovery (clearRetryTimer s) = rc_createdThisRecovery s"
  by (simp_all add: clearRetryTimer_def split: option.split)

text \<open>Invalidating leaves no timer, and no probe of the new generation.\<close>

lemma invalidate_fields [simp]:
  "rc_generation (invalidatePendingWork s) = rc_generation s + 1" "rc_awaitingBuffer (invalidatePendingWork s) = rc_awaitingBuffer s"
  "rc_probes (invalidatePendingWork s) = rc_probes s" "rc_creates (invalidatePendingWork s) = rc_creates s"
  "\<not> rc_probeInFlight (invalidatePendingWork s)" "rc_createInFlight (invalidatePendingWork s) = rc_createInFlight s"
  "rc_disposed (invalidatePendingWork s) = rc_disposed s" "rc_started (invalidatePendingWork s) = rc_started s"
  "rc_connected (invalidatePendingWork s) = rc_connected s" "rc_attached (invalidatePendingWork s) = rc_attached s"
  "rc_bufferReceived (invalidatePendingWork s) = rc_bufferReceived s" "rc_calls (invalidatePendingWork s) = rc_calls s"
  "rc_attachTimeout (invalidatePendingWork s) = None" "rc_retryTimer (invalidatePendingWork s) = None"
  "rc_createdThisRecovery (invalidatePendingWork s) = rc_createdThisRecovery s"
  by (simp_all add: invalidatePendingWork_def clearRetryTimer_def clearAttachTimeout_def split: option.split)

lemma invalidate_timers:
  assumes "timers_ok s"
  shows "rc_timers (invalidatePendingWork s) = []"
proof -
  have "rc_timers (invalidatePendingWork s) =
      filter (\<lambda>p. rc_attachTimeout s \<noteq> Some (fst p) \<and> rc_retryTimer s \<noteq> Some (fst p)) (rc_timers s)"
    by (simp add: invalidatePendingWork_def clearRetryTimer_def clearAttachTimeout_def eq_commute split: option.split)
  moreover have "rc_attachTimeout s = Some (fst p) \<or> rc_retryTimer s = Some (fst p)" if "p \<in> set (rc_timers s)" for p
    using that assms held_id by (simp add: timers_ok_def)
  ultimately show ?thesis by (simp add: filter_empty_conv)
qed

lemma invalidate_ok:
  assumes "timers_ok s" and "promises_ok s" and "\<not> rc_awaitingBuffer s \<or> rc_disposed s"
  shows "core_ok (invalidatePendingWork s)"
proof -
  have "filter (\<lambda>p. fst p = Suc (rc_generation s)) (rc_probes s) = []"
    using assms(2) by (force simp: promises_ok_def filter_empty_conv)
  then show ?thesis using assms invalidate_timers [OF assms(1)]
    by (auto simp: core_ok_def core_defs le_Suc_eq)
qed

lemma timers_ok_updates [simp]:
  "timers_ok (s\<lparr>rc_connected := b\<rparr>) = timers_ok s" "timers_ok (s\<lparr>rc_awaitingBuffer := b\<rparr>) = timers_ok s"
  "timers_ok (s\<lparr>rc_bufferReceived := b\<rparr>) = timers_ok s" "timers_ok (s\<lparr>rc_attached := b\<rparr>) = timers_ok s"
  "timers_ok (s\<lparr>rc_attachDeferred := b\<rparr>) = timers_ok s" "timers_ok (s\<lparr>rc_started := b\<rparr>) = timers_ok s"
  "timers_ok (s\<lparr>rc_disposed := b\<rparr>) = timers_ok s" "timers_ok (s\<lparr>rc_recoveryReported := b\<rparr>) = timers_ok s"
  "timers_ok (s\<lparr>rc_createFailureReported := b\<rparr>) = timers_ok s" "timers_ok (s\<lparr>rc_createdThisRecovery := b\<rparr>) = timers_ok s"
  "timers_ok (s\<lparr>rc_retryAttempt := n\<rparr>) = timers_ok s" "timers_ok (s\<lparr>rc_probeInFlight := b\<rparr>) = timers_ok s"
  "timers_ok (s\<lparr>rc_createInFlight := b\<rparr>) = timers_ok s" "timers_ok (s\<lparr>rc_probes := ps\<rparr>) = timers_ok s"
  "timers_ok (s\<lparr>rc_creates := gs\<rparr>) = timers_ok s" "timers_ok (s\<lparr>rc_calls := cs\<rparr>) = timers_ok s"
  by (rule timers_ok_cong; simp)+

lemma timer_fresh: "timers_ok s \<Longrightarrow> rc_retryTimer s \<noteq> Some (rc_nextTimer s) \<and> rc_attachTimeout s \<noteq> Some (rc_nextTimer s)"
  by (fastforce simp: timers_ok_def)

lemma set_attach_ok:
  assumes "timers_ok s" and "rc_attachTimeout s = None"
  shows "timers_ok (s\<lparr>rc_timers := rc_timers s @ [(rc_nextTimer s, AttachTimeout (rc_generation s) off delay)],
    rc_attachTimeout := Some (rc_nextTimer s), rc_nextTimer := rc_nextTimer s + 1\<rparr>)"
  using assms timer_fresh [OF assms(1)] by (auto simp: timers_ok_def intro: held_other(2) [of _ s])

lemma set_retry_ok:
  assumes "timers_ok s" and "rc_retryTimer s = None"
  shows "timers_ok (s\<lparr>rc_timers := rc_timers s @ [(rc_nextTimer s, RetryTimer (rc_generation s) off delay)],
    rc_retryTimer := Some (rc_nextTimer s), rc_nextTimer := rc_nextTimer s + 1\<rparr>)"
  using assms timer_fresh [OF assms(1)] by (auto simp: timers_ok_def intro: held_other(1) [of _ s])

lemma schedule_ok: "core_ok s \<Longrightarrow> core_ok (scheduleRetry off s)"
  using set_retry_ok [of "s\<lparr>rc_retryAttempt := rc_retryAttempt s + 1\<rparr>"]
  by (auto simp: scheduleRetry_def Let_def core_ok_def promises_ok_def awaiting_ok_def present_probes_def)

lemma schedule_under_way: "under_way (scheduleRetry off s)"
  by (auto simp: scheduleRetry_def Let_def under_way_def unattached_def)

lemma create_call_ok:
  assumes "core_ok s"
  shows "core_ok (create_terminal g s)"
proof (cases "rc_createInFlight s \<or> rc_createdThisRecovery s")
  case True
  with assms schedule_ok show ?thesis by (simp add: create_terminal_def)
next
  case False
  with assms show ?thesis by (auto simp: create_terminal_def core_ok_def promises_ok_def awaiting_ok_def present_probes_def)
qed

lemma create_under_way: "g = rc_generation s \<or> under_way s \<Longrightarrow> under_way (create_terminal g s)"
  using schedule_under_way by (auto simp: create_terminal_def under_way_def unattached_def)

lemma probe_ok: "core_ok s \<Longrightarrow> core_ok (probe_session g off s)"
  by (auto simp: probe_session_def core_ok_def promises_ok_def awaiting_ok_def present_probes_def)

lemma request_ok:
  assumes "core_ok s"
  shows "core_ok (requestAttach sent off s)"
proof -
  let ?s1 = "(clearRetryTimer s)\<lparr>rc_awaitingBuffer := True, rc_calls := rc_calls s @ [SendAttach off (rc_retryAttempt s)]\<rparr>"
  have t: "timers_ok ?s1" "rc_retryTimer (clearRetryTimer s) = None" using clear_retry_ok assms by (simp_all add: core_ok_def)
  show ?thesis
    using assms t set_attach_ok [of ?s1]
    by (auto simp: requestAttach_def Let_def core_ok_def promises_ok_def awaiting_ok_def present_probes_def)
qed

lemma request_under_way: "under_way (requestAttach sent off s)"
  by (auto simp: requestAttach_def Let_def under_way_def unattached_def)

text \<open>The callbacks run after their timer or promise has left the loop.\<close>

lemma retry_due_ok:
  assumes ok: "core_ok s" and t: "map_of (rc_timers s) t = Some (RetryTimer g off delay)"
  shows "core_ok (retry_due sent g off (s\<lparr>rc_timers := filter (\<lambda>p. fst p \<noteq> t) (rc_timers s)\<rparr>))"
    and "under_way (retry_due sent g off (s\<lparr>rc_timers := filter (\<lambda>p. fst p \<noteq> t) (rc_timers s)\<rparr>))"
proof -
  let ?s1 = "s\<lparr>rc_timers := filter (\<lambda>p. fst p \<noteq> t) (rc_timers s), rc_retryTimer := None\<rparr>"
  have held: "rc_retryTimer s = Some t" "g = rc_generation s"
    using ok map_of_SomeD [OF t] by (auto simp: core_ok_def timers_ok_def)
  have "core_ok ?s1"
    using ok drop_retry_ok [OF _ held(1)] by (simp add: core_ok_def promises_ok_def awaiting_ok_def present_probes_def)
  then show "core_ok (retry_due sent g off (s\<lparr>rc_timers := filter (\<lambda>p. fst p \<noteq> t) (rc_timers s)\<rparr>))"
    using request_ok by (simp add: retry_due_def Let_def)
  show "under_way (retry_due sent g off (s\<lparr>rc_timers := filter (\<lambda>p. fst p \<noteq> t) (rc_timers s)\<rparr>))"
    using request_under_way held(2) by (auto simp: retry_due_def Let_def under_way_def unattached_def)
qed

lemma attach_timed_out_ok:
  assumes ok: "core_ok s" and t: "map_of (rc_timers s) t = Some (AttachTimeout g off delay)"
  shows "core_ok (attach_timed_out g off (s\<lparr>rc_timers := filter (\<lambda>p. fst p \<noteq> t) (rc_timers s)\<rparr>))"
    and "under_way (attach_timed_out g off (s\<lparr>rc_timers := filter (\<lambda>p. fst p \<noteq> t) (rc_timers s)\<rparr>))"
proof -
  let ?s1 = "s\<lparr>rc_timers := filter (\<lambda>p. fst p \<noteq> t) (rc_timers s), rc_attachTimeout := None, rc_awaitingBuffer := False\<rparr>"
  have held: "rc_attachTimeout s = Some t" "g = rc_generation s"
    using ok map_of_SomeD [OF t] by (auto simp: core_ok_def timers_ok_def)
  have live: "\<not> rc_disposed s" "rc_awaitingBuffer s" using ok t held(1) by (auto simp: core_ok_def awaiting_ok_def)
  have "core_ok ?s1"
    using ok drop_attach_ok [OF _ held(1)] by (simp add: core_ok_def promises_ok_def awaiting_ok_def present_probes_def)
  then show "core_ok (attach_timed_out g off (s\<lparr>rc_timers := filter (\<lambda>p. fst p \<noteq> t) (rc_timers s)\<rparr>))"
    using probe_ok live held(2) by (simp add: attach_timed_out_def)
  show "under_way (attach_timed_out g off (s\<lparr>rc_timers := filter (\<lambda>p. fst p \<noteq> t) (rc_timers s)\<rparr>))"
    using held live by (auto simp: attach_timed_out_def probe_session_def under_way_def)
qed

lemma length_without_nth:
  assumes "i < length xs"
  shows "Suc (length (filter P (without_nth i xs))) = length (filter P xs) + of_bool (\<not> P (xs ! i))"
proof -
  have "length (filter P xs) = length (filter P (take i xs @ xs ! i # drop (Suc i) xs))"
    by (rule arg_cong [OF id_take_nth_drop [OF assms], of "\<lambda>ys. length (filter P ys)"])
  then show ?thesis by (simp add: without_nth_def)
qed

lemma set_without_nth: "set (without_nth i xs) \<subseteq> set xs"
  by (auto simp: without_nth_def dest: in_set_takeD in_set_dropD)

lemma probe_settled_ok:
  assumes ok: "core_ok s" and way: "under_way s" and i: "i < length (rc_probes s)"
  defines "s1 \<equiv> s\<lparr>rc_probes := without_nth i (rc_probes s)\<rparr>"
  shows "core_ok (probe_settled (fst (rc_probes s ! i)) off alive s1)"
    and "under_way (probe_settled (fst (rc_probes s ! i)) off alive s1)"
proof -
  let ?g = "fst (rc_probes s ! i)"
  have len: "Suc (length (filter (\<lambda>p. fst p = rc_generation s) (without_nth i (rc_probes s)))) =
      present_probes s + of_bool (?g \<noteq> rc_generation s)"
    unfolding present_probes_def by (rule length_without_nth [OF i])
  have bound: "\<forall>p \<in> set (without_nth i (rc_probes s)). fst p \<le> rc_generation s"
    using ok set_without_nth by (fastforce simp: core_ok_def promises_ok_def)
  show "core_ok (probe_settled ?g off alive s1)"
  proof (cases "?g = rc_generation s \<and> \<not> rc_disposed s")
    case True
    then have "core_ok (s1\<lparr>rc_probeInFlight := False\<rparr>)"
      using ok len bound by (cases "rc_probeInFlight s") (auto simp: s1_def core_ok_def promises_ok_def awaiting_ok_def present_probes_def)
    with True create_call_ok schedule_ok show ?thesis by (simp add: probe_settled_def Let_def s1_def)
  next
    case False
    then have other: "?g \<noteq> rc_generation s" using ok len by (auto simp: core_ok_def promises_ok_def awaiting_ok_def)
    then have "core_ok s1"
      using ok len bound by (simp add: s1_def core_ok_def promises_ok_def awaiting_ok_def present_probes_def)
    then show ?thesis using other by (simp add: probe_settled_def s1_def)
  qed
  show "under_way (probe_settled ?g off alive s1)"
    using way create_under_way [of "rc_generation s"] schedule_under_way
    by (auto simp: probe_settled_def Let_def s1_def) (auto simp: under_way_def unattached_def)
qed


lemma create_settled_ok:
  assumes ok: "core_ok s" and way: "under_way s" and i: "i < length (rc_creates s)"
  shows "core_ok (create_settled sent (rc_creates s ! i) good (s\<lparr>rc_creates := without_nth i (rc_creates s)\<rparr>))"
    and "under_way (create_settled sent (rc_creates s ! i) good (s\<lparr>rc_creates := without_nth i (rc_creates s)\<rparr>))"
proof -
  let ?s1 = "s\<lparr>rc_creates := without_nth i (rc_creates s), rc_createInFlight := False\<rparr>"
  let ?ok = "?s1\<lparr>rc_createdThisRecovery := True, rc_retryAttempt := 0\<rparr>"
  let ?failed = "?s1\<lparr>rc_createFailureReported := True,
    rc_calls := rc_calls s @ (if rc_createFailureReported s then [] else [ReportCreateFailed])\<rparr>"
  have gone: "without_nth i (rc_creates s) = []" "rc_createInFlight s"
    using ok i by (cases "rc_createInFlight s"; auto simp: core_ok_def promises_ok_def without_nth_def)+
  have ok1: "core_ok ?s1" "core_ok ?ok" "core_ok ?failed"
    using ok gone by (auto simp: core_ok_def promises_ok_def awaiting_ok_def present_probes_def)
  show "core_ok (create_settled sent (rc_creates s ! i) good (s\<lparr>rc_creates := without_nth i (rc_creates s)\<rparr>))"
    using ok1 request_ok schedule_ok by (simp add: create_settled_def Let_def)
  show "under_way (create_settled sent (rc_creates s ! i) good (s\<lparr>rc_creates := without_nth i (rc_creates s)\<rparr>))"
    using request_under_way schedule_under_way by (simp add: create_settled_def Let_def) (auto simp: under_way_def unattached_def)
qed

text \<open>The methods of the panel.\<close>

lemma promises_ok_updates [simp]:
  "promises_ok (s\<lparr>rc_connected := b\<rparr>) = promises_ok s" "promises_ok (s\<lparr>rc_awaitingBuffer := b\<rparr>) = promises_ok s"
  "promises_ok (s\<lparr>rc_bufferReceived := b\<rparr>) = promises_ok s" "promises_ok (s\<lparr>rc_attached := b\<rparr>) = promises_ok s"
  "promises_ok (s\<lparr>rc_disposed := b\<rparr>) = promises_ok s" "promises_ok (s\<lparr>rc_recoveryReported := b\<rparr>) = promises_ok s"
  "promises_ok (s\<lparr>rc_createFailureReported := b\<rparr>) = promises_ok s" "promises_ok (s\<lparr>rc_retryAttempt := n\<rparr>) = promises_ok s"
  "promises_ok (s\<lparr>rc_createdThisRecovery := b\<rparr>) = promises_ok s"
  by (simp_all add: promises_ok_def present_probes_def)

lemma invalidate_core:
  "timers_ok s \<and> promises_ok s \<and> (\<not> rc_awaitingBuffer s \<or> rc_disposed s) \<Longrightarrow> core_ok (invalidatePendingWork s)"
  using invalidate_ok by blast

lemma onBuffer_ok:
  assumes "core_ok s" and "under_way s"
  shows "core_ok (onBuffer retry s) \<and> under_way (onBuffer retry s)"
proof
  show "core_ok (onBuffer retry s)"
    using assms(1) by (cases "retry \<and> \<not> rc_createdThisRecovery s") (auto simp: onBuffer_def core_ok_def [of s] intro!: invalidate_core)
  show "under_way (onBuffer retry s)" using assms(2) by (simp add: onBuffer_def under_way_def unattached_def)
qed

lemma onReplayComplete_ok:
  assumes "core_ok s" and "under_way s"
  shows "core_ok (onReplayComplete s) \<and> under_way (onReplayComplete s)"
proof -
  have "core_ok (s\<lparr>rc_bufferReceived := False\<rparr>)"
    using assms by (simp add: core_ok_def promises_ok_def awaiting_ok_def present_probes_def)
  then show ?thesis
    using assms create_call_ok create_under_way [of "rc_generation s" "s\<lparr>rc_bufferReceived := False\<rparr>"]
    by (simp add: onReplayComplete_def)
qed

lemma onConnectionStatus_ok:
  assumes "core_ok s" and "under_way s"
  shows "core_ok (onConnectionStatus sent c off s) \<and> under_way (onConnectionStatus sent c off s)"
proof (cases c)
  case True
  have "core_ok (s\<lparr>rc_connected := True, rc_attachDeferred := False\<rparr>)"
    using assms by (simp add: core_ok_def promises_ok_def awaiting_ok_def present_probes_def)
  then show ?thesis
    using True assms request_ok request_under_way by (auto simp: onConnectionStatus_def Let_def under_way_def unattached_def)
next
  case False
  have "core_ok (onConnectionStatus sent False off s)"
    using assms(1) by (auto simp: onConnectionStatus_def core_ok_def [of s] intro!: invalidate_core)
  moreover have "under_way (onConnectionStatus sent False off s)"
    using assms(2) by (simp add: onConnectionStatus_def under_way_def unattached_def)
  ultimately show ?thesis using False by simp
qed

lemma dispose_ok:
  assumes "core_ok s" and "under_way s"
  shows "core_ok (dispose_recovery s) \<and> under_way (dispose_recovery s)"
proof
  show "core_ok (dispose_recovery s)"
    using assms(1) by (auto simp: dispose_recovery_def core_ok_def [of s] intro!: invalidate_core)
  show "under_way (dispose_recovery s)" using assms(2) by (simp add: dispose_recovery_def under_way_def unattached_def)
qed

lemma start_call_ok: "core_ok s \<Longrightarrow> core_ok (start_recovery sent off s) \<and> under_way (start_recovery sent off s)"
  unfolding start_recovery_def
  by (intro conjI request_ok request_under_way) (simp add: core_ok_def promises_ok_def awaiting_ok_def present_probes_def)

lemma timer_fires_ok:
  assumes "core_ok s" and "under_way s"
  shows "core_ok (recovery_step s (sent, TimerFires t)) \<and> under_way (recovery_step s (sent, TimerFires t))"
  using assms retry_due_ok [OF assms(1)] attach_timed_out_ok [OF assms(1)]
  by (simp split: option.split timer_callback.split)

lemma recovery_step_ok:
  assumes "core_ok s" and "under_way s"
  shows "core_ok (recovery_step s e) \<and> under_way (recovery_step s e)"
proof -
  obtain sent ev where e: "e = (sent, ev)" by (cases e)
  show ?thesis unfolding e
  proof (cases ev)
    case (TimerFires t)
    with timer_fires_ok [OF assms] show "core_ok (recovery_step s (sent, ev)) \<and> under_way (recovery_step s (sent, ev))" by blast
  qed (use assms start_call_ok onBuffer_ok onReplayComplete_ok onConnectionStatus_ok dispose_ok probe_settled_ok create_settled_ok
    in \<open>simp_all\<close>)
qed


text \<open>A controller is made with nothing pending, so both parts hold after every run.\<close>

lemma new_recovery_ok: "core_ok (new_recovery timeout initial maximal) \<and> under_way (new_recovery timeout initial maximal)"
  by (simp add: new_recovery_def core_ok_def timers_ok_def promises_ok_def awaiting_ok_def present_probes_def under_way_def
      unattached_def)

interpretation attaching: event_machine recovery_step "\<lambda>_ _. True" "\<lambda>s. core_ok s \<and> under_way s"
  by unfold_locales (use recovery_step_ok in blast)

definition recovery_run :: "nat option \<Rightarrow> nat option \<Rightarrow> nat option \<Rightarrow> (bool \<times> recovery_event) list \<Rightarrow> recovery" where
  "recovery_run timeoutMs initial maximal es = run_events recovery_step (new_recovery timeoutMs initial maximal) es"

lemma recovery_run_ok: "core_ok (recovery_run timeout initial maximal es)" "under_way (recovery_run timeout initial maximal es)"
  using attaching.run_inv [OF new_recovery_ok] by (simp_all add: recovery_run_def)

text \<open>What the flags promise is pending in the event loop, and not stale.\<close>

fun pending_timer :: "nat \<Rightarrow> nat \<times> timer_callback \<Rightarrow> bool" where
  "pending_timer generation (t, AttachTimeout g off delay) \<longleftrightarrow> g = generation"
| "pending_timer generation (t, RetryTimer g off delay) \<longleftrightarrow> g = generation"

lemma held_pending: "timer_held s p \<Longrightarrow> pending_timer (rc_generation s) p"
  by (induction s p rule: timer_held.induct) auto

lemma core_timers:
  assumes "core_ok s"
  shows "\<forall>p \<in> set (rc_timers s). pending_timer (rc_generation s) p"
    and "rc_retryTimer s \<noteq> None \<Longrightarrow> rc_timers s \<noteq> []"
    and "rc_awaitingBuffer s \<Longrightarrow> \<not> rc_disposed s \<Longrightarrow> rc_timers s \<noteq> []"
  using assms held_pending by (auto simp: core_ok_def timers_ok_def awaiting_ok_def)

lemma core_promises:
  assumes "core_ok s"
  shows "length (rc_creates s) \<le> 1" and "rc_createInFlight s \<Longrightarrow> rc_creates s \<noteq> []"
    and "rc_probeInFlight s \<Longrightarrow> \<exists>p \<in> set (rc_probes s). fst p = rc_generation s"
proof -
  show "length (rc_creates s) \<le> 1" "rc_createInFlight s \<Longrightarrow> rc_creates s \<noteq> []"
    using assms by (auto simp: core_ok_def promises_ok_def)
  show "\<exists>p \<in> set (rc_probes s). fst p = rc_generation s" if "rc_probeInFlight s"
  proof -
    have "filter (\<lambda>p. fst p = rc_generation s) (rc_probes s) \<noteq> []"
      using assms that by (auto simp: core_ok_def promises_ok_def present_probes_def)
    then show ?thesis by (simp add: filter_empty_conv)
  qed
qed

section \<open>Calls\<close>

lemma clear_attach_fields [simp]:
  "rc_calls (clearAttachTimeout s) = rc_calls s" "rc_disposed (clearAttachTimeout s) = rc_disposed s"
  "rc_createdThisRecovery (clearAttachTimeout s) = rc_createdThisRecovery s"
  by (simp_all add: clearAttachTimeout_def split: option.split)

lemmas method_defs = start_recovery_def onBuffer_def onReplayComplete_def onConnectionStatus_def dispose_recovery_def
  attach_timed_out_def retry_due_def probe_settled_def create_settled_def requestAttach_def probe_session_def
  create_terminal_def scheduleRetry_def

lemma run_events_append: "run_events f s (es @ fs) = run_events f (run_events f s es) fs"
  by (induction es arbitrary: s) auto

text \<open>A disposed controller calls nothing, whatever still fires or settles.\<close>

lemma disposed_step:
  assumes "rc_disposed s"
  shows "rc_disposed (recovery_step s e) \<and> rc_calls (recovery_step s e) = rc_calls s"
  using assms by (induction s e rule: recovery_step.induct) (simp_all add: method_defs Let_def split: option.split timer_callback.split)

interpretation silenced: event_machine recovery_step "\<lambda>_ _. True" "\<lambda>s. rc_disposed s \<and> rc_calls s = cs" for cs
  by unfold_locales (use disposed_step in simp)

text \<open>Until the output arrives or the connection is lost, a terminal that was created is not created again.\<close>

definition creates_asked :: "recovery \<Rightarrow> nat" where
  "creates_asked s = count_list (rc_calls s) CreateTerminal"

fun same_recovery :: "bool \<times> recovery_event \<Rightarrow> bool" where
  "same_recovery (sent, BufferArrives retry) = False"
| "same_recovery (sent, ConnectionChanges isConnected off) = isConnected"
| "same_recovery (sent, ev) = True"

lemma created_step:
  assumes "rc_createdThisRecovery s" and "same_recovery e"
  shows "rc_createdThisRecovery (recovery_step s e) \<and> creates_asked (recovery_step s e) = creates_asked s"
  using assms by (induction s e rule: recovery_step.induct)
    (simp_all add: method_defs creates_asked_def Let_def split: option.split timer_callback.split)

interpretation created: event_machine recovery_step "\<lambda>_. same_recovery" "\<lambda>s. rc_createdThisRecovery s \<and> creates_asked s = n" for n
  by unfold_locales (use created_step in simp)

text \<open>A create is asked for only when none is pending.\<close>

lemma create_asked_step:
  assumes "core_ok s" and "creates_asked (recovery_step s e) \<noteq> creates_asked s"
  shows "creates_asked (recovery_step s e) = Suc (creates_asked s) \<and> rc_creates s = [] \<and> \<not> rc_createdThisRecovery s"
proof -
  have "rc_creates s = []" if "\<not> rc_createInFlight s" using assms(1) that by (simp add: core_ok_def promises_ok_def)
  then show ?thesis
    using assms(2) by (induction s e rule: recovery_step.induct)
      (auto simp: method_defs creates_asked_def Let_def split: option.splits timer_callback.splits if_splits)
qed


section \<open>Delays\<close>

fun timer_delay :: "timer_callback \<Rightarrow> nat" where
  "timer_delay (AttachTimeout g off delay) = delay"
| "timer_delay (RetryTimer g off delay) = delay"

definition delays_within :: "nat \<Rightarrow> nat \<Rightarrow> recovery \<Rightarrow> bool" where
  "delays_within timeout maximal s \<longleftrightarrow>
     rc_timeoutMs s = timeout \<and> rc_maxRetryDelayMs s = maximal \<and>
     (\<forall>p \<in> set (rc_timers s). timer_delay (snd p) \<le> max timeout maximal)"

lemma delays_mono:
  "set (rc_timers s') \<subseteq> set (rc_timers s) \<Longrightarrow> rc_timeoutMs s' = rc_timeoutMs s \<Longrightarrow> rc_maxRetryDelayMs s' = rc_maxRetryDelayMs s \<Longrightarrow>
   delays_within a b s \<Longrightarrow> delays_within a b s'"
  by (auto simp: delays_within_def)

lemma clear_delays:
  "delays_within a b s \<Longrightarrow> delays_within a b (clearRetryTimer s)"
  "delays_within a b s \<Longrightarrow> delays_within a b (invalidatePendingWork s)"
  by (auto simp: delays_within_def clearRetryTimer_def clearAttachTimeout_def invalidatePendingWork_def split: option.splits)

lemma schedule_delays: "delays_within a b s \<Longrightarrow> delays_within a b (scheduleRetry off s)"
  by (auto simp: delays_within_def scheduleRetry_def Let_def)

lemma request_delays: "delays_within a b s \<Longrightarrow> delays_within a b (requestAttach sent off s)"
  using clear_delays(1) [of a b s] by (auto simp: delays_within_def requestAttach_def Let_def)

lemma create_delays: "delays_within a b s \<Longrightarrow> delays_within a b (create_terminal g s)"
  using schedule_delays by (simp add: create_terminal_def) (simp add: delays_within_def)

lemma probe_delays: "delays_within a b s \<Longrightarrow> delays_within a b (probe_session g off s)"
  by (simp add: probe_session_def delays_within_def)

lemma delays_step: "delays_within a b s \<Longrightarrow> delays_within a b (recovery_step s e)"
  by (induction s e rule: recovery_step.induct)
    (auto simp: start_recovery_def onBuffer_def onReplayComplete_def onConnectionStatus_def dispose_recovery_def
      attach_timed_out_def retry_due_def probe_settled_def create_settled_def Let_def
      split: option.split timer_callback.split
      intro!: clear_delays request_delays create_delays probe_delays schedule_delays elim!: delays_mono [rotated 3])

interpretation waiting: event_machine recovery_step "\<lambda>_ _. True" "delays_within a b" for a b
  by unfold_locales (rule delays_step)

lemma recovery_run_delays:
  "delays_within (case timeoutMs of Some d \<Rightarrow> d | None \<Rightarrow> 3000) (case maximal of Some d \<Rightarrow> d | None \<Rightarrow> 30000)
     (recovery_run timeoutMs initial maximal es)"
  unfolding recovery_run_def by (rule waiting.run_inv) (simp_all add: delays_within_def new_recovery_def)

end
