(* ===== verification/Stream_Properties.thy ===== *)
theory Stream_Properties
  imports Sse_Laws Terminal_Identity Attach_Recovery Demo_Data
begin

text \<open>
  The properties of what the user interface reads from the server: the stream of host resources, the output of
  terminals, the controller that keeps a panel attached to it, and the inventory that identifies terminals.
\<close>

section \<open>Server-sent events\<close>

text \<open>C27. The parser of the event stream returns on every sequence of chunks of bytes, whatever they hold: its loop ends, and
  afterwards the bytes counted for the open event, the number of its data lines and the unread rest are each at most the
  limit of a data event, and a discarded event holds no data lines.\<close>

theorem sse_feed_returns: "\<exists>ps st. sse_feed new_parser chunks = Some (ps, st) \<and> parser_bounded st"
  by (rule feed_returns) (simp add: parser_bounded_def event_bounded_def new_parser_def MAX_CONTROL_EVENT_BYTES_def MAX_DATA_EVENT_BYTES_def)

text \<open>C8. Events of the three kinds the parser knows, written one after the other in UTF-8 and within their size limits, are read
  back as they were, in order and nothing else, however the bytes are cut into chunks; the parser is left as new.\<close>

theorem sse_reads_events:
  assumes "list_all wire_ok evs" and "concat chunks = concat (map wire_event evs)"
  shows "sse_feed new_parser chunks = Some (map read_event evs, new_parser)"
  by (rule feed_wire_events [OF assms])

definition demo_sse :: "(string \<times> nat list list) list" where
  "demo_sse = [(''host-resources'', [[0x7B, 0x1F600], [0x7D]])]"

theorem sse_reads_events_witness:
  "sse_feed new_parser [take 30 (concat (map wire_event demo_sse)), drop 30 (concat (map wire_event demo_sse))] =
     Some (map read_event demo_sse, new_parser)"
proof (rule sse_reads_events)
  show "list_all wire_ok demo_sse" by code_simp
  show "concat [take 30 (concat (map wire_event demo_sse)), drop 30 (concat (map wire_event demo_sse))] =
      concat (map wire_event demo_sse)" by simp
qed

section \<open>The output of a terminal\<close>



section \<open>The terminal of a window\<close>

text \<open>C21. A window is shown as a terminal with a known state only on evidence: the target that is returned names the profile and the
  generation of the owner of one of the observations and its server epoch, and the observation has an eligible row for
  the session of the window with exactly the incarnation of the target, whose state is the one returned. A target the
  window has captured is never replaced by another.\<close>

theorem resolved_target_has_evidence:
  assumes "resolveWindowTerminalObservation w observations = (t, a)" and "a \<noteq> AvUnknown"
  shows "\<exists>obs \<in> set observations. \<exists>row. evidence t obs row \<and> a = mapTerminalRowAvailability (ir_terminationState row) \<and>
    JString (ir_id row) = nullish (js_get (captured_target w) ''terminalId'') (window_session w) \<and>
    (truthy (captured_target w) \<longrightarrow> t = captured_target w)"
proof -
  have "first_some (resolve_observation w) observations = Some (t, a)"
    using assms by (auto simp: resolveWindowTerminalObservation_def split: if_splits option.splits)
  then obtain obs where "obs \<in> set observations" "resolve_observation w obs = Some (t, a)" using first_some_Some by fast
  with resolve_row_evidence show ?thesis by blast
qed

definition demo_target :: terminal_target where
  "demo_target = \<lparr>tt_profileId = ''p1'', tt_generation = 1, tt_serverEpoch = ''e'', tt_terminalId = ''t'', tt_incarnation = ''7''\<rparr>"

definition demo_terminal :: os_window where
  "demo_terminal = (demo_window ''a'')\<lparr>win_runtimeIdentity := Some (TerminalIdentity demo_target)\<rparr>"

definition demo_inventory :: inventory_observation where
  "demo_inventory =
     \<lparr>io_sessions = [\<lparr>ir_ref = 0, ir_id = ''t'', ir_incarnation = JNumber (Finite 7), ir_incarnationExact = Some ''7'',
        ir_terminationState = Some StLive\<rparr>],
      io_termination = TerminationV1 ''e'', io_owner = Some \<lparr>cr_profileId = ''p1'', cr_generation = 1\<rparr>\<rparr>"

theorem resolved_target_has_evidence_witness:
  "resolveWindowTerminalObservation demo_terminal [demo_inventory] = (target_value demo_target, AvLive) \<and>
   (\<exists>row. evidence (target_value demo_target) demo_inventory row)"
proof -
  have "nat_dec 7 = ''7''" by code_simp
  then have "resolveWindowTerminalObservation demo_terminal [demo_inventory] = (target_value demo_target, AvLive)"
    by (simp add: resolveWindowTerminalObservation_def resolve_observation_def resolve_row_def captured_target_def
        demo_terminal_def demo_window_def demo_inventory_def demo_target_def target_value_def isTerminalInventoryRowEligible_def
        isCanonicalPositiveU64_def digit_char_def dec_value_def MAX_U64_def isSafeInteger_def positive_number_def number_text_def
        mapTerminalRowAvailability_def nullish_def Let_def)
  with resolved_target_has_evidence [OF this] show ?thesis by auto
qed


section \<open>Attaching a panel\<close>

text \<open>C11. A panel that was started, is connected, is not disposed and is not attached, and whose last attach since it was connected was not
  refused by the transport (\<open>unattached\<close>; after a refusal the controller waits for the next connection), never waits for nothing: after every history
  of calls, timers and answers, in any order, a timer of the present attempt is set, at most the longer of the two
  configured delays away, or a probe of the present attempt or a creation is unanswered, or a replay is being rendered
  whose end starts the creation. No timer of an earlier attempt is ever left.\<close>

theorem recovery_never_stalls:
  assumes "s = recovery_run timeoutMs initial maximal es" and "unattached s"
  shows "((\<exists>p \<in> set (rc_timers s). timer_delay (snd p) \<le>
        max (case timeoutMs of Some d \<Rightarrow> d | None \<Rightarrow> 3000) (case maximal of Some d \<Rightarrow> d | None \<Rightarrow> 30000)) \<or>
      (\<exists>p \<in> set (rc_probes s). fst p = rc_generation s) \<or> rc_creates s \<noteq> [] \<or> rc_bufferReceived s) \<and>
    (\<forall>p \<in> set (rc_timers s). pending_timer (rc_generation s) p)"
proof -
  have ok: "core_ok s" "under_way s" using recovery_run_ok assms(1) by simp_all
  have "rc_timers s \<noteq> [] \<or> (\<exists>p \<in> set (rc_probes s). fst p = rc_generation s) \<or> rc_creates s \<noteq> [] \<or> rc_bufferReceived s"
    using ok(2) assms(2) core_timers(2,3) [OF ok(1)] core_promises(2,3) [OF ok(1)] by (auto simp: under_way_def unattached_def)
  moreover have "\<forall>p \<in> set (rc_timers s). timer_delay (snd p) \<le>
      max (case timeoutMs of Some d \<Rightarrow> d | None \<Rightarrow> 3000) (case maximal of Some d \<Rightarrow> d | None \<Rightarrow> 30000)"
    using recovery_run_delays [of timeoutMs maximal initial es] by (simp add: assms(1) delays_within_def)
  ultimately show ?thesis using core_timers(1) [OF ok(1)] last_in_set [of "rc_timers s"] by blast
qed

definition demo_attach :: "(bool \<times> recovery_event) list" where
  "demo_attach = [(True, StartAttach None), (True, TimerFires 1), (True, ProbeSettles 0 (Some False)), (True, CreateSettles 0 True)]"

theorem recovery_never_stalls_witness:
  "\<exists>p \<in> set (rc_timers (recovery_run None None None demo_attach)). timer_delay (snd p) \<le> 30000"
proof -
  have "unattached (recovery_run None None None demo_attach)"
    "rc_probes (recovery_run None None None demo_attach) = []" "rc_creates (recovery_run None None None demo_attach) = []"
    "\<not> rc_bufferReceived (recovery_run None None None demo_attach)" by code_simp+
  with recovery_never_stalls [OF refl this(1)] show ?thesis by simp
qed



text \<open>C37. Once disposed, the controller never calls the transport or the panel again, whatever promises are still answered and
  whatever it is told.\<close>

theorem disposed_controller_silent:
  "rc_calls (recovery_run timeoutMs initial maximal (es @ (b, DisposeController) # fs)) =
   rc_calls (recovery_run timeoutMs initial maximal es)"
proof -
  let ?s = "recovery_run timeoutMs initial maximal es"
  have "rc_disposed (dispose_recovery ?s) \<and> rc_calls (dispose_recovery ?s) = rc_calls ?s" by (simp add: dispose_recovery_def)
  then have "rc_calls (run_events recovery_step (dispose_recovery ?s) fs) = rc_calls ?s" using silenced.run_inv by simp
  then show ?thesis by (simp add: recovery_run_def run_events_append)
qed

end
