(* ===== verification/Spec2Isabelle.thy ===== *)
theory Spec2Isabelle
  imports Deviations Draft_Properties Stream_Properties
begin

text \<open>
  \<^bold>\<open>A verification of the dam-hopper user interface.\<close>

  Dam-hopper is a workspace server with a browser user interface that behaves like a desktop: applications run in
  windows, which float or are tiled on desktops, and show terminals, files and merge conflicts of one or more servers.
  This library models the parts of \<^verbatim>\<open>src/packages/ui/src\<close> that decide what happens, and proves what they promise.
  Everything is written over executable definitions that follow the source function by function. A JavaScript record or
  \<^verbatim>\<open>Map\<close> is an association list (\<open>js_record\<close>, insertion order kept), an optional field an option, a thrown error or an
  error result the left of a sum, a class with methods a record that is passed and returned. Times, random identifiers,
  viewports and the success of storage are arguments, since the code reads them from outside. Numbers are \<open>real\<close> where
  fractions occur and \<open>nat\<close> or \<open>int\<close> elsewhere; texts of the conflict resolver are lists of UTF-16 code units.

  \<^bold>\<open>Foundations.\<close> \<open>Dh_Prelude\<close> has the shared lemmas on lists, options and records, the locale \<open>keyed_store\<close> (what a
  lookup returns after an update or a removal; interpreted by the association lists) and the locale \<open>event_machine\<close> (a
  state, its events, when they are allowed, an invariant every allowed event keeps), which each stateful component below
  interprets, so that an invariant proved for one event holds after every history. \<open>Js_Value\<close> models untyped JSON values with the
  tests and comparisons of the language; \<open>Js_Text\<close> models texts as code units, UTF-8 encoding and the two decoders.

  \<^bold>\<open>Windows and desktops.\<close>
  \<^item> \<open>Tile_Tree\<close>: \<^verbatim>\<open>lib/tile-tree.ts\<close>, the tree of panes with tabs; \<open>Tile_Codec\<close>: its validators and the stored terminal layouts.
  \<^item> \<open>Window_Model\<close>: the types of \<^verbatim>\<open>os/types.ts\<close>; \<open>Float_Geometry\<close> and \<open>Window_Ops\<close>: \<^verbatim>\<open>os/window-ops.ts\<close>, every operation on a session.
  \<^item> \<open>Session_Inv\<close>, \<open>Desktop_Inv\<close>, \<open>Window_Laws\<close>: the invariant that every window that is shown occurs exactly once on
    its desktop and the minimized ones nowhere, that every operation keeps it, and what each operation does.
  \<^item> \<open>Window_Store\<close>: \<^verbatim>\<open>os/window-store.ts\<close>, the actions, the focus clock and the placement of existing terminals.
  \<^item> \<open>App_Registry\<close>: \<^verbatim>\<open>os/app-registry.ts\<close>, the manifests and the search for a window to reuse.

  \<^bold>\<open>What is stored.\<close>
  \<^item> \<open>Session_Codec\<close>, \<open>Session_Check\<close>, \<open>Session_Persistence\<close>, \<open>Session_Roundtrip\<close>: \<^verbatim>\<open>os/persistence.ts\<close>, the projection that is
    written, the validator of untyped documents with every early return, load and save with the suspension of autosaving,
    import and export. The validator is shown equal to a declarative predicate, and reachable sessions survive a reload.
  \<^item> \<open>Dock_Pins\<close>: \<^verbatim>\<open>os/dock-pins.ts\<close> and the pins and envelope of \<^verbatim>\<open>os/persistence.ts\<close>; the storage events of other tabs are
    queued and delivered later.
  \<^item> \<open>Launch_Journal\<close>: the journal of terminal launches in \<^verbatim>\<open>os/persistence.ts\<close>; every history of transactions with its
    answers is a trace of a table of locks (\<open>lock_step\<close>).
  \<^item> \<open>Claim_Registry\<close>: \<^verbatim>\<open>os/resource-registry.ts\<close> and \<^verbatim>\<open>os/terminal-claim-key.ts\<close>, who shows a resource and who gets it next.

  \<^bold>\<open>The conflict resolver.\<close>
  \<^item> \<open>Merge_Text\<close>: \<^verbatim>\<open>lib/conflict-tokenization.ts\<close> and \<^verbatim>\<open>lib/conflict-marker-parser.ts\<close>; lines rejoin to the text, marker
    blocks are ordered and lie where they say.
  \<^item> \<open>Merge_Regions\<close>: \<^verbatim>\<open>lib/conflict-merge-types.ts\<close> and \<^verbatim>\<open>lib/conflict-region-mapper.ts\<close>; where a conflict is in the result text, and
    when a file is ready. The comparison \<^verbatim>\<open>diff3MergeRegions\<close> of node-diff3 is a parameter, and no law about it is assumed.
  \<^item> \<open>Merge_Actions\<close>, \<open>Merge_Rebuild\<close>: \<^verbatim>\<open>lib/conflict-merge-actions.ts\<close>; decisions, whole-file actions, manual edits, and that
    the parser reads back what a clean rebuild writes.
  \<^item> \<open>Joint_History\<close>: \<^verbatim>\<open>lib/joint-history-authority.ts\<close>; the text model of Monaco is the parameter \<open>put\<close>, the text the model
    holds after it was set.
  \<^item> \<open>Draft_Model\<close>: \<^verbatim>\<open>lib/conflict-draft-types.ts\<close>, \<^verbatim>\<open>-key.ts\<close>, \<^verbatim>\<open>-capacity.ts\<close>, \<^verbatim>\<open>-transitions.ts\<close> and the address comparison of
    \<^verbatim>\<open>api/server-config.ts\<close>; \<open>Draft_Store\<close>: \<^verbatim>\<open>lib/conflict-draft-store.ts\<close>, every method of the registry.
  \<^item> \<open>Draft_Laws\<close>, \<open>Draft_Registry\<close>: the invariant of a draft and of the registry, the step relation \<open>draft_move\<close> every event
    refines, and the locale \<open>draft_guard\<close> of conditions that no event but a discard ends; it is interpreted for drafts in
    recovery and for imported text under review.

  \<^bold>\<open>What the server sends.\<close>
  \<^item> \<open>Sse_Parser\<close>, \<open>Sse_Laws\<close>: \<^verbatim>\<open>api/host-resource-sse-parser.ts\<close> on bytes; the loop of the code is a partial function whose
    result is \<open>None\<close> if it does not end, and it is shown to return always and to equal a reading line by line.
  \<^item> \<open>Replay_Gate\<close>: \<^verbatim>\<open>lib/terminal-stream-replay-gate.ts\<close>, \<^verbatim>\<open>lib/terminal-buffer-replay.ts\<close> and the handling of live chunks in
    \<^verbatim>\<open>components/organisms/TerminalPanel.tsx\<close>.
  \<^item> \<open>Attach_Recovery\<close>: \<^verbatim>\<open>lib/terminal-attach-recovery-controller.ts\<close>; timers and promises are part of the state, each with what its
    callback captured, and the events that fire or settle them come in any order. Nothing stale is ever pending, and a panel
    that should be attached always has work that will attach it.
  \<^item> \<open>Terminal_Identity\<close>: \<^verbatim>\<open>api/terminal-session-contract.ts\<close>, which terminal a window shows and on what evidence.

  \<^bold>\<open>Properties.\<close> The numbered properties are in this theory (windows, storage, dock, journal, claims), in
  \<open>Conflict_Properties\<close> (merge model and history), \<open>Draft_Properties\<close> (drafts) and \<open>Stream_Properties\<close> (streams and terminals). Each
  that has hypotheses is followed by an instance on concrete data (\<open>Demo_Data\<close> and the beginnings of those theories), where the
  hypotheses are evaluated. \<open>Deviations\<close> and the last sections of the component theories show where the code does not do what it
  means to do, on concrete histories or in general.

  \<^bold>\<open>Bounds.\<close> No state is bounded in the model beyond the bounds of the code: 128 records and 1 MiB of the launch journal, 100
  entries of a history, 2 and 10 MiB of drafts, 256 and 4 KiB of events. Loops are structural recursions or have a
  termination proof, except that of the event parser, which is shown to return.

  \<^bold>\<open>Not modelled.\<close> The Rust server, the Android client and the browser bridge are programs of their own; what they send is an argument.
  React components, hooks and transports are rendering, effects and requests: their state is in the stores and registries
  that are modelled, and what they do with DOM, sockets and timers has no counterpart in logic. Of the files above the
  following is left out: property names inherited from \<^verbatim>\<open>Object.prototype\<close>, the promise chain that replaces Web Locks, \<^verbatim>\<open>dispose\<close> and
  the key bindings of the joint history, the textual key of a terminal target (it prints a number), diagnostics, and the
  wording of error messages, which are constructors.
\<close>

section \<open>The window manager\<close>

text \<open>C1. Every session the window store reaches from its initial state by events its callers may
  send is well formed: every window that is not minimized is shown exactly on its desktop, in the
  list its mode names, every desktop focuses a window it shows, the active desktop exists, and
  all tile trees are well formed.\<close>

theorem reachable_sessions_wf:
  assumes "run_allowed window_allowed window_step initial_store es"
  shows "wf_session (st_session (run_events window_step initial_store es))"
  using win_store.run_inv [OF initial_store_inv assms] .

theorem reachable_sessions_wf_witness:
  "wf_session (st_session (run_events window_step initial_store demo_events))"
  by (rule reachable_sessions_wf) code_simp

text \<open>In a well-formed session a window that is not minimized occurs exactly once in all
  floating lists and tile trees together; a minimized or unknown one occurs nowhere.\<close>

theorem placed_exactly_once:
  assumes "wf_session s"
  shows "placements s wid =
    (case get_window s wid of None \<Rightarrow> 0 | Some w \<Rightarrow> if win_minimized w then 0 else 1)"
  by (rule placements_eq [OF assms])

text \<open>C10. Docking a tab into a well-formed tile tree (onto a pane, into a tab position, or against an edge,
  from the same tree or from outside) yields a well-formed tree with exactly the tabs it had and
  the docked one: no tab is lost or duplicated, no pane is left empty. The target pane is in the tree, a source
  pane that is named holds the tab, and the ids of a new pane and split are new.\<close>

theorem dock_keeps_every_tab:
  assumes "wf_tile t" and "findTilePaneById t (target_pane tgt) \<noteq> None"
    and "dock_source_ok t x src" and "fresh_ids t newPaneId splitId"
  shows "wf_tile (fst (dockItemIntoTileTree t x tgt src newPaneId splitId)) \<and>
    set (tree_items (fst (dockItemIntoTileTree t x tgt src newPaneId splitId))) =
      insert x (set (tree_items t))"
  by (rule dock_wf_items [OF assms])

theorem dock_keeps_every_tab_witness:
  "wf_tile (fst (dockItemIntoTileTree demo_tree ''a'' (PaneEdge ''q'' Left) (Some ''p'') ''n'' ''m'')) \<and>
   set (tree_items (fst (dockItemIntoTileTree demo_tree ''a'' (PaneEdge ''q'' Left) (Some ''p'') ''n'' ''m''))) =
     insert ''a'' (set (tree_items demo_tree))"
  by (rule dock_keeps_every_tab; code_simp)

text \<open>C17. Closing a window removes it and nothing else: its record and all its placements are gone,
  every other window record is unchanged, and the session stays well formed (so the focus went to
  a window that is shown, or to none).\<close>

theorem close_removes_only_that_window:
  assumes "wf_session s"
  shows "get_window (closeWindow s wid) k = (if k = wid then None else get_window s k) \<and>
    placements (closeWindow s wid) wid = 0 \<and> wf_session (closeWindow s wid)"
  using wf_closeWindow [OF assms, of wid] placements_unknown [of "closeWindow s wid" wid]
  by (simp add: get_window_closeWindow)

theorem close_removes_only_that_window_witness:
  "get_window (closeWindow demo_session ''a'') ''b'' = get_window demo_session ''b'' \<and>
   placements (closeWindow demo_session ''a'') ''a'' = 0 \<and> wf_session (closeWindow demo_session ''a'')"
proof -
  have "wf_session demo_session" by code_simp
  from close_removes_only_that_window [OF this, of "''a''" "''b''"] show ?thesis by simp
qed

text \<open>C18. Minimizing a shown window and restoring it gives the window back as it was, in its mode,
  on its desktop and with its bounds, and leaves all other windows alone.\<close>

theorem minimize_restore_roundtrip:
  assumes "get_window s wid = Some w" and "\<not> win_minimized w"
  shows "get_window (restoreWindow (minimizeWindow s wid) wid uuid) k =
    (if k = wid then Some (w\<lparr>win_restorePlacement := None\<rparr>) else get_window s k)"
proof -
  note m = get_window_minimizeWindow [OF assms]
  have "get_window (minimizeWindow s wid) wid = Some (minimized_form w)" by (simp add: m)
  moreover have "win_minimized (minimized_form w)" by (simp add: minimized_form_def)
  ultimately show ?thesis
    by (simp add: get_window_restore_minimized m restored_minimized_form [OF assms(2)])
qed

theorem minimize_restore_roundtrip_witness:
  "get_window (restoreWindow (minimizeWindow demo_session ''a'') ''a'' ''u9'') ''a'' =
     Some ((the (get_window demo_session ''a''))\<lparr>win_restorePlacement := None\<rparr>)"
proof -
  have "get_window demo_session ''a'' = Some (the (get_window demo_session ''a''))"
    "\<not> win_minimized (the (get_window demo_session ''a''))" by code_simp+
  from minimize_restore_roundtrip [OF this, of "''u9''" "''a''"] show ?thesis by simp
qed

text \<open>C20. Revealing a window always shows it: it is restored if it was minimized, its desktop
  becomes the active one, and it is the focused window there, on top of the floats or as the
  active tab of its pane.\<close>

theorem reveal_shows_window:
  assumes "wf_session s" and "get_window s wid = Some w" and "uuid \<noteq> ''''"
  shows "in_focus (revealWindow s wid uuid) wid \<and>
    (\<exists>w'. get_window (revealWindow s wid uuid) wid = Some w' \<and> \<not> win_minimized w' \<and>
       ses_active (revealWindow s wid uuid) = win_desktopId w')"
  by (rule revealWindow_shows [OF assms])

theorem reveal_shows_window_witness:
  "in_focus (revealWindow (minimizeWindow demo_session ''b'') ''b'' ''u9'') ''b''"
proof -
  let ?s = "minimizeWindow demo_session ''b''"
  have "wf_session ?s" by code_simp
  moreover have "get_window ?s ''b'' = Some (the (get_window ?s ''b''))" by code_simp
  ultimately show ?thesis using reveal_shows_window [of ?s "''b''" _ "''u9''"] by simp
qed

text \<open>C19. Removing a desktop loses no window: either the removal is refused, or the desktop is gone,
  the windows it had moved to one surviving desktop (their remembered placement included) and no
  other window changed.\<close>

theorem remove_desktop_keeps_windows:
  assumes "wf_session s" and "uuids_ok s uuids"
  shows "removeDesktop s did sd uuids = s \<or>
    did \<notin> desktop_ids (removeDesktop s did sd uuids) \<and>
    (\<exists>td \<in> desktop_ids s. td \<noteq> did \<and>
       (\<forall>k. get_window (removeDesktop s did sd uuids) k =
          map_option (\<lambda>w. if win_desktopId w = did then rehome td w else w) (get_window s k)))"
  by (rule removeDesktop_keeps_windows [OF assms])

theorem remove_desktop_keeps_windows_witness:
  "\<exists>td \<in> desktop_ids demo_session. td \<noteq> ''desktop-1'' \<and>
     get_window (removeDesktop demo_session ''desktop-1'' None (\<lambda>_. ''u'')) ''a'' =
       map_option (\<lambda>w. if win_desktopId w = ''desktop-1'' then rehome td w else w)
         (get_window demo_session ''a'')"
proof -
  have "wf_session demo_session" "uuids_ok demo_session (\<lambda>_. ''u'')"
    "length (ses_desktops (removeDesktop demo_session ''desktop-1'' None (\<lambda>_. ''u''))) \<noteq>
     length (ses_desktops demo_session)" by code_simp+
  with remove_desktop_keeps_windows [of demo_session "\<lambda>_. ''u''" "''desktop-1''" None]
  show ?thesis by auto
qed

text \<open>Presenting a window as a float on an existing desktop always ends with the window floating
  there, neither minimized nor maximized, on top and focused, with that desktop active.\<close>

theorem present_shows_float:
  assumes "wf_session s" and "get_window s wid = Some w" and "did \<in> desktop_ids s"
  shows "\<exists>w'. get_window (presentWindowAsFloat s wid did vp) wid = Some w' \<and> win_mode w' = Float \<and>
      win_desktopId w' = did \<and> \<not> win_minimized w' \<and> \<not> win_maximized w' \<and>
      ses_active (presentWindowAsFloat s wid did vp) = did \<and>
      in_focus (presentWindowAsFloat s wid did vp) wid"
  by (rule presentWindowAsFloat_shows [OF assms])

text \<open>Focusing a window that is shown puts it in the focused state of its desktop and changes no
  window record and not the active desktop.\<close>

theorem focus_in_place:
  assumes "wf_session s" and "get_window s wid = Some w" and "\<not> win_minimized w"
  shows "in_focus (focusWindow s wid) wid \<and> get_window (focusWindow s wid) k = get_window s k \<and>
    ses_active (focusWindow s wid) = ses_active s"
  using focusWindow_in_focus [OF assms] by simp

text \<open>Moving a window to an existing desktop changes its desktop (and that of its remembered
  placement) and no other window, keeps the set of desktops and the active one, and the window is
  still placed as often as before.\<close>

theorem move_changes_only_desktop:
  assumes "wf_session s" and "did \<in> desktop_ids s" and "uuid \<noteq> ''''"
  shows "get_window (moveWindowToDesktop s wid did uuid) k =
      (if k = wid then map_option (rehome did) (get_window s k) else get_window s k) \<and>
    desktop_ids (moveWindowToDesktop s wid did uuid) = desktop_ids s \<and>
    ses_active (moveWindowToDesktop s wid did uuid) = ses_active s \<and>
    placements (moveWindowToDesktop s wid did uuid) k = placements s k"
proof -
  let ?s = "moveWindowToDesktop s wid did uuid"
  note fr = moveWindowToDesktop_frame [OF assms(1,2), of wid uuid]
  have wf: "wf_session ?s" by (rule wf_moveWindowToDesktop [OF assms(1,3)])
  have "placements ?s k = placements s k"
    unfolding placements_eq [OF wf] placements_eq [OF assms(1)] fr(1)
    by (cases "get_window s k") (auto simp: rehome_def)
  with fr show ?thesis by simp
qed

text \<open>C35. The focus clock orders windows by recency: after any history of events, focusing a window
  through the store gives it a strictly greater timestamp than every other window has.\<close>

theorem focus_timestamp_latest:
  assumes "st = run_events window_step initial_store es" and "k \<noteq> wid"
  shows "getWindowFocusTimestamp (store_focusWindow st wid) k <
    getWindowFocusTimestamp (store_focusWindow st wid) wid"
proof -
  have "clock_ok st"
    unfolding assms(1) by (rule focus_clock.run_inv [OF _ run_allowed_True])
      (simp add: clock_ok_def initial_store_def)
  from timestamp_bound [OF this, of k] assms(2) getWindowFocusTimestamp_record [of st wid]
  show ?thesis by (simp add: store_focusWindow_def getWindowFocusTimestamp_def)
qed

theorem focus_timestamp_latest_witness:
  "getWindowFocusTimestamp (store_focusWindow (run_events window_step initial_store demo_events) ''a'') ''b'' <
   getWindowFocusTimestamp (store_focusWindow (run_events window_step initial_store demo_events) ''a'') ''a''"
  by (rule focus_timestamp_latest [OF refl]) simp

section \<open>Floating geometry\<close>

text \<open>Clamping a floating window keeps it usable: it is at least the minimum size, its top left
  corner is inside the viewport with 50 pixels to spare (a viewport narrower than that pins it at
  the origin), and clamping again changes nothing.\<close>

theorem clamp_reachable:
  assumes "vp_width v > 0" and "vp_height v > 0" and b': "b' = clampFloatBounds b (Some v)"
  shows "MIN_FLOAT_WIDTH \<le> fb_width b' \<and> MIN_FLOAT_HEIGHT \<le> fb_height b' \<and>
    0 \<le> fb_x b' \<and> fb_x b' \<le> max 0 (vp_width v - 50) \<and>
    0 \<le> fb_y b' \<and> fb_y b' \<le> max 0 (vp_height v - 50) \<and> clampFloatBounds b' (Some v) = b'"
  using clampFloatBounds_min_size [of b "Some v"] clamp_position [OF assms(1,2), of b]
    clampFloatBounds_idem [of b "Some v"]
  by (simp add: b')

text \<open>A new floating window is always reachable: whatever windows are open, the cascade places
  it inside the viewport with at least 80 by 40 pixels of it visible, and it fits the viewport.\<close>

theorem cascade_reachable:
  assumes "vp_width v \<ge> 100" and "vp_height v \<ge> 80" and b: "b = calculateNextFloatBounds s did (Some v)"
  shows "0 \<le> fb_x b \<and> fb_x b + 80 \<le> vp_width v \<and> 0 \<le> fb_y b \<and> fb_y b + 40 \<le> vp_height v \<and>
    0 < fb_width b \<and> fb_width b \<le> vp_width v \<and> 0 < fb_height b \<and> fb_height b \<le> vp_height v"
proof -
  note r = next_bounds_range [where s = s and v = v and did = did, folded b]
  have "0 \<le> next_base_x v" "0 \<le> next_base_y v" "80 \<le> next_width v" "next_width v \<le> vp_width v"
    "40 \<le> next_height v" "next_height v \<le> vp_height v"
    using assms(1,2) by (simp_all add: next_base_x_def next_base_y_def next_width_def next_height_def)
  moreover have "next_base_x v + next_width v \<le> vp_width v" "next_base_y v + next_height v \<le> vp_height v"
    using assms(1,2) by (simp_all add: next_base_x_def next_base_y_def next_width_def next_height_def)
  ultimately show ?thesis using r assms(1,2) by linarith
qed

text \<open>Resizing without a viewport limit moves only the dragged edges: dragging the west (north)
  edge keeps the east (south) edge where it was even when the minimum size stops the drag, any
  other direction keeps the west (north) edge, and the result is never below the minimum size.\<close>

theorem resize_moves_dragged_edges:
  "let r = resizeFloatBounds b dx dy dir None in
     (if dir_w dir then fb_x r + fb_width r = fb_x b + fb_width b else fb_x r = fb_x b) \<and>
     (if dir_n dir then fb_y r + fb_height r = fb_y b + fb_height b else fb_y r = fb_y b) \<and>
     MIN_FLOAT_WIDTH \<le> fb_width r \<and> MIN_FLOAT_HEIGHT \<le> fb_height r"
  using drag_near_edge_far_end [of MIN_FLOAT_WIDTH "fb_x b" "fb_width b" dx]
    drag_near_edge_min [of MIN_FLOAT_WIDTH "fb_x b" "fb_width b" dx]
    drag_near_edge_far_end [of MIN_FLOAT_HEIGHT "fb_y b" "fb_height b" dy]
    drag_near_edge_min [of MIN_FLOAT_HEIGHT "fb_y b" "fb_height b" dy]
  by (auto simp: resize_axis_west Let_def max_absorb2)

section \<open>Layout codec\<close>

text \<open>Converting a terminal tile tree to the persisted layout form and back, and the other way
  round, is the identity.\<close>

theorem layout_roundtrip:
  "layoutNodeToTileNode (tileNodeToLayoutNode t) = t \<and> tileNodeToLayoutNode (layoutNodeToTileNode n) = n"
  by (simp add: layout_codec_roundtrip)

section \<open>Sessions in storage\<close>

text \<open>C7. A session that the window store reaches by the events its callers may send (\<open>window_allowed\<close>: among
  others no minimized window is focused or changes its mode) survives a reload, if every window and every
  default context has a profile id that is not empty and no recorded size is negative (\<open>storable\<close>): with
  autosaving not suspended and a writable storage, saving it and loading again returns exactly its
  projection, without a notice, and that session is well formed again.\<close>

theorem reachable_sessions_survive_reload:
  assumes "run_allowed window_allowed window_step initial_store es"
    and "s = st_session (run_events window_step initial_store es)" and "storable s"
    and "\<not> ps_suspended st" and "saveOsSession st s True = (ok, st', notice)"
  shows "ok \<and> notice = None \<and> loadOsSession st' True = (sanitizeSessionForPersistence s, st', None) \<and>
    wf_session (sanitizeSessionForPersistence s)"
proof -
  have wf: "wf_session s" unfolding assms(2) by (rule win_store.run_inv [OF initial_store_inv assms(1)])
  have "ok \<and> notice = None \<and> ps_storage st' = Some (Json (encode_session (sanitizeSessionForPersistence s)))"
    using assms(4,5) by (auto simp: saveOsSession_def)
  with load_written [OF wf assms(3)] wf_sanitize [OF wf] show ?thesis by simp
qed

theorem reachable_sessions_survive_reload_witness:
  "\<exists>st'. saveOsSession idle_storage demo_session True = (True, st', None) \<and>
     loadOsSession st' True = (sanitizeSessionForPersistence demo_session, st', None)"
proof -
  obtain ok st' notice where run: "saveOsSession idle_storage demo_session True = (ok, st', notice)"
    by (metis surj_pair)
  have "run_allowed window_allowed window_step initial_store demo_events"
    "storable demo_session" "\<not> ps_suspended idle_storage" by code_simp+
  from reachable_sessions_survive_reload [OF this(1) demo_session_def this(2,3) run] run show ?thesis by simp
qed

text \<open>C4. The validator decides exactly the declarative predicate: an object written from a typed
  session (with distinct window ids, and without the fields that are never written) is accepted iff
  every window id matches its key, refers to an existing desktop and is placed exactly once, every
  desktop shows and focuses only its own windows, and sizes are positive.\<close>

theorem validator_decides_validity:
  assumes "plain_session s" and "rec_wf (ses_windows s)"
  shows "validateOsSession (encode_session s) = None \<longleftrightarrow> valid_session s"
  using validate_encode [of s] validate_sound [of "encode_session s"] decode_encode_session [OF assms] by auto

theorem validator_decides_validity_witness:
  "validateOsSession (encode_session (sanitizeSessionForPersistence demo_session)) = None \<longleftrightarrow>
   valid_session (sanitizeSessionForPersistence demo_session)"
  by (rule validator_decides_validity; code_simp)

text \<open>C33. Documents are untyped, sessions are not: whatever document the validator accepts is cast to a session of
  schema 1 in which desktop ids are distinct, the active desktop exists, windows are filed under their ids,
  have a profile and existing desktops and positive sizes, each window that is not minimized is placed exactly once,
  on its desktop and as its mode says, and no other is, each focused window is placed there, and all trees
  have ids that are not empty, positive sizes, distinct tabs and an active tab among them. That the ids of
  tree nodes differ is not checked and does not follow.\<close>

theorem accepted_documents_are_sessions:
  assumes "validateOsSession v = None"
  shows "valid_session (decode_session v)"
  by (rule validate_sound [OF assms])

theorem accepted_documents_are_sessions_witness:
  "valid_session (decode_session (encode_session (createDefaultOsSession ''d'' ''Main'')))"
  by (rule accepted_documents_are_sessions) code_simp

text \<open>C32. Loading never fails and always gives a valid session, whatever is in the storage and
  whether or not it can be read.\<close>

theorem load_always_valid: "valid_session (fst (loadOsSession st readable))"
  by (rule load_valid)

text \<open>C30. A stored document that is not accepted is never lost: the load reports it, the program
  runs on the default session, and from then on, through any sequence of loads and saves, the stored
  bytes and the preserved copy stay as they were until autosaving is resumed explicitly.\<close>

theorem rejected_bytes_preserved:
  assumes "ps_storage st = Some raw" and "is_rejected raw" and "ResumeAutosave \<notin> set es"
  shows "fst (loadOsSession st True) = default_session \<and> snd (snd (loadOsSession st True)) \<noteq> None \<and>
    holds_bytes raw (run_events persistence_step (persistence_step st (LoadSession True)) es)"
proof -
  have "run_allowed (\<lambda>_ e. e \<noteq> ResumeAutosave) persistence_step (persistence_step st (LoadSession True)) es"
    using assms(3) by (auto simp: run_allowed_const list_all_iff)
  from rejected.run_inv [OF _ this, of raw] load_rejected [OF assms(1,2)] assms(2) show ?thesis by simp
qed

theorem rejected_bytes_preserved_witness:
  "holds_bytes (Corrupt ''{'') (run_events persistence_step
     (persistence_step (idle_storage\<lparr>ps_storage := Some (Corrupt ''{'')\<rparr>) (LoadSession True))
     [SaveSession demo_session True, LoadSession True, SaveSession demo_session True])"
  using rejected_bytes_preserved [of "idle_storage\<lparr>ps_storage := Some (Corrupt ''{'')\<rparr>" "Corrupt ''{''"
      "[SaveSession demo_session True, LoadSession True, SaveSession demo_session True]"]
  by (simp add: is_rejected_def idle_storage_def)

text \<open>C31. A suspended store recovers: from any state of the persistence layer, resuming and then
  saving to a writable storage a well-formed session with profile ids that are not empty and sizes that are not
  negative (\<open>storable\<close>) works: autosaving is on, and the next load returns the projection of that session.\<close>

theorem resume_recovers:
  assumes "wf_session s" and "storable s"
  shows "fst (loadOsSession (run_events persistence_step st [ResumeAutosave, SaveSession s True]) True) =
      sanitizeSessionForPersistence s \<and>
    \<not> ps_suspended (run_events persistence_step st [ResumeAutosave, SaveSession s True])"
proof -
  let ?st = "run_events persistence_step st [ResumeAutosave, SaveSession s True]"
  have "ps_storage ?st = Some (Json (encode_session (sanitizeSessionForPersistence s)))" "\<not> ps_suspended ?st"
    by (simp_all add: resumeAutosave_def saveOsSession_def)
  with load_written [OF assms, of ?st] show ?thesis by simp
qed

theorem resume_recovers_witness:
  "fst (loadOsSession (run_events persistence_step (idle_storage\<lparr>ps_suspended := True\<rparr>)
      [ResumeAutosave, SaveSession demo_session True]) True) = sanitizeSessionForPersistence demo_session"
proof -
  have "wf_session demo_session" "storable demo_session" by code_simp+
  from resume_recovers [OF this, of "idle_storage\<lparr>ps_suspended := True\<rparr>"] show ?thesis by simp
qed

text \<open>C34. What must not outlive the page is never written: no saved window carries a runtime
  identity, a connection generation, a git root, an operation or a file target, and a review or a
  conflict window carries no application state at all.\<close>

theorem protected_fields_never_written:
  assumes "(k, w) \<in> set (ses_windows (sanitizeSessionForPersistence s))"
  shows "js_get (encode_window w) ''runtimeIdentity'' = JUndefined \<and>
    list_all (\<lambda>f. js_get (js_get (encode_window w) ''ctx'') f = JUndefined)
      [''generation'', ''gitRootId'', ''operation'', ''target''] \<and>
    (win_appId w = Session_changes \<or> win_appId w = Conflict_resolver \<longrightarrow>
      js_get (encode_window w) ''appState'' = JUndefined)"
proof -
  obtain w0 where w: "w = sanitize_window w0" using assms by auto
  have "win_appState w = None" if "win_appId w = Session_changes \<or> win_appId w = Conflict_resolver"
    using that unfolding w by (auto simp: sanitize_window_def sanitizeAppState_def split: option.split)
  then show ?thesis
    using plain_unwritten [of w] sanitize_window_plain [of w0] by (simp add: w js_get_encode_window)
qed

theorem protected_fields_never_written_witness:
  "\<exists>w. (''a'', w) \<in> set (ses_windows (sanitizeSessionForPersistence demo_session)) \<and>
     js_get (encode_window w) ''runtimeIdentity'' = JUndefined"
proof -
  have "\<exists>w. (''a'', w) \<in> set (ses_windows (sanitizeSessionForPersistence demo_session))"
    using map_of_SomeD [of "ses_windows (sanitizeSessionForPersistence demo_session)" "''a''"
        "the (rec_get (ses_windows (sanitizeSessionForPersistence demo_session)) ''a'')"]
    by (rule exI) code_simp
  then show ?thesis using protected_fields_never_written by blast
qed

text \<open>A terminal layout is restored from its stored text exactly as it was, under both document
  versions.\<close>

theorem stored_layout_roundtrip:
  assumes "wf_tile t" and "version = 1 \<or> version = 2"
  shows "parsePersistedTerminalLayout (Some (serializeTerminalLayout t version)) = Some t"
  using parse_serialize [OF assms(2), of t] wf_tile_valid [OF assms(1), of "\<lambda>_. True"] by (simp add: list_all_iff)

text \<open>Parsing a stored layout is total on arbitrary text, and everything it returns is a valid
  tree: non-empty node ids, positive sizes, distinct tabs in each pane and an active tab among them.\<close>

theorem parsed_layouts_valid:
  "case parsePersistedTerminalLayout raw of None \<Rightarrow> True | Some t \<Rightarrow> tile_valid (\<lambda>_. True) t"
  using parse_sound [of raw] by (simp split: option.split)

text \<open>Looking for a window to reuse never crosses owners and never misses one: the result is an
  open window of the requested application, of the same profile unless the application has a single
  instance; and for a single-instance application nothing is found only if none is open.\<close>

theorem reuse_lookup_exact:
  "(case findExistingWindowForApp ws a ctx st of
      Some w \<Rightarrow> w \<in> set (map snd ws) \<and> win_appId w = a \<and> app_instancing (APP_MANIFESTS a) \<noteq> MultiInstance \<and>
        (app_instancing (APP_MANIFESTS a) = SingleInstance \<or> ctx_profileId (win_ctx w) = ctx_profileId ctx)
    | None \<Rightarrow> app_instancing (APP_MANIFESTS a) \<noteq> SingleInstance \<or> (\<nexists>w. w \<in> set (map snd ws) \<and> win_appId w = a))"
proof (cases "findExistingWindowForApp ws a ctx st")
  case None
  then have "app_instancing (APP_MANIFESTS a) = SingleInstance \<Longrightarrow> \<forall>w \<in> set (map snd ws). win_appId w \<noteq> a"
    by (simp only: findExistingWindowForApp_def Let_def instancing.case find_None_iff')
  with None show ?thesis by auto
next
  case (Some w)
  with findExisting_sound [OF Some] show ?thesis by simp
qed

section \<open>Dock and envelope\<close>

text \<open>C36. The dock comes to show what is stored. Other tabs remove the key or store arrays, at any time; the
  storage events that announce it arrive later, in order; this tab sets, toggles and resets pins (with missing or
  failing storage at any time, with working storage when no event is on its way) and subscribes. Starting from any
  storage, the snapshot never holds an application twice, and once the events on their way are delivered it is what a
  reload would read.\<close>

theorem dock_shows_what_is_stored:
  assumes "run_allowed pins_allowed pins_step (init_world stored) es" and "w = run_events pins_step (init_world stored) es"
  shows "distinct (dock_snapshot (dw_dock w)) \<and>
    dock_snapshot (dw_dock (deliver_all w)) = loadDockPins (dock_storage (dw_dock w)) True \<and>
    (dw_events w = [] \<longrightarrow> dock_snapshot (dw_dock w) = loadDockPins (dock_storage (dw_dock w)) True)"
proof -
  have "world_inv w" using dock_pins.run_inv [OF init_world_inv assms(1)] by (simp add: assms(2))
  with deliver_all_shows [OF this] show ?thesis by (simp add: world_inv_def)
qed

theorem dock_shows_what_is_stored_witness:
  "dock_snapshot (dw_dock (deliver_all (run_events pins_step (init_world None)
     [TogglePin Git StorageOk, OtherTab None, TogglePin Files StorageThrows, OtherTab (Some (Json (encode_pins [Git, Files])))]))) =
   [Git, Files]"
proof -
  let ?es = "[TogglePin Git StorageOk, OtherTab None, TogglePin Files StorageThrows,
    OtherTab (Some (Json (encode_pins [Git, Files])))]"
  have "run_allowed pins_allowed pins_step (init_world None) ?es" by code_simp
  moreover have "loadDockPins (dock_storage (dw_dock (run_events pins_step (init_world None) ?es))) True = [Git, Files]" by code_simp
  ultimately show ?thesis using dock_shows_what_is_stored [of None ?es, OF _ refl] by simp
qed

text \<open>A pin change that cannot be stored changes nothing: the result says so, and snapshot,
  storage and subscribers are as before; one that is stored is exactly the pins asked for, without
  repetitions.\<close>

theorem set_pins_atomic:
  "(if fst (setDockPins st m ps) = Persisted
    then set (dock_snapshot (snd (setDockPins st m ps))) = set ps \<and>
      dock_storage (snd (setDockPins st m ps)) = Some (Json (encode_pins (dock_snapshot (snd (setDockPins st m ps)))))
    else snd (setDockPins st m ps) = st)"
  using setDockPins_failed [of m st ps]
  by (cases m) (simp_all add: setDockPins_def Let_def set_normalize_encode)

text \<open>C38. Exporting everything and importing it again, into the dock of any tab whose storage can be written, succeeds:
  the result has the projection of the session, the pins, and what is projected of the stored shortcuts and notification
  preferences; and the dock imported into then shows the exported pins, has them stored so that a reload reads them, and
  has called its subscribers exactly if its pins changed. The session is well formed with profile ids that
  are not empty and sizes that are not negative (\<open>storable\<close>), and the exporting dock shows no application twice.\<close>

theorem envelope_import_export:
  assumes "wf_session s" and "storable s" and "distinct (dock_snapshot dock)"
    and "importOsEnvelope (exportOsEnvelope s dock shortcuts notifs t) dock' True now = (result, dock'')"
  shows "result = Inr \<lparr>env_exportedAt = t, env_session = Some (sanitizeSessionForPersistence s),
      env_dock = Some (dock_snapshot dock), env_shortcuts = Option.bind (parsed_slot shortcuts) project_shortcuts,
      env_notifs = Option.bind (parsed_slot notifs) project_notifs\<rparr> \<and>
    dock_snapshot dock'' = dock_snapshot dock \<and> loadDockPins (dock_storage dock'') True = dock_snapshot dock \<and>
    dock_calls dock'' = dock_calls dock' @ (if dock_snapshot dock = dock_snapshot dock' then [] else dock_subscribers dock')"
  using assms(4) load_encoded [OF assms(3)] unfolding envelope_roundtrip [OF assms(1-3)] by auto

theorem envelope_import_export_witness:
  "dock_snapshot (snd (importOsEnvelope
      (exportOsEnvelope demo_session (init_dock (Some (Json (encode_pins [Git]))) True) None None ''t'')
      (init_dock None True) True ''now'')) = [Git]"
proof -
  let ?dock = "init_dock (Some (Json (encode_pins [Git]))) True"
  have s: "wf_session demo_session" "storable demo_session" "distinct (dock_snapshot ?dock)" by code_simp+
  have "dock_snapshot ?dock = [Git]" by code_simp
  with envelope_import_export [OF s surjective_pairing, of None None "''t''" "init_dock None True" "''now''"]
  show ?thesis by (simp only:)
qed

text \<open>An import that is refused (not JSON, not an envelope, an invalid session) leaves the dock
  and its storage alone; one that succeeds and can write keeps snapshot and storage in agreement.\<close>

theorem refused_import_changes_nothing:
  "(case fst (importOsEnvelope raw dock writable now) of
      Inl e \<Rightarrow> snd (importOsEnvelope raw dock writable now) = dock
    | Inr env \<Rightarrow> pins_inv dock \<and> writable \<longrightarrow> pins_inv (snd (importOsEnvelope raw dock writable now)))"
  using import_error_keeps_dock [of raw dock writable now] import_keeps_pins_inv [of dock raw now]
  by (cases writable) (auto split: sum.split)

section \<open>The launch journal\<close>

text \<open>C28. Starting from an empty journal, after any sequence of reservations and settlements by
  cooperating tabs (with storage failing at any point, and new attempt ids being new), there is at most one
  unresolved attempt per identity, at most 128 records with distinct attempt ids, and a document whose text has at
  most 1048576 code units, which is what the code compares; in bytes it may be longer.\<close>

theorem journal_invariant:
  assumes "run_allowed launch_allowed launch_step None es"
  shows "slot_ok (run_events launch_step None es)"
  by (rule journal.run_inv [OF _ assms]) (simp add: slot_ok_def slot_records_def journal_ok_def)

theorem journal_invariant_witness:
  "slot_ok (run_events launch_step None
     [ReserveLaunch demo_storage (demo_request ''a1'' ''t1''), ReserveLaunch demo_storage (demo_request ''a2'' ''t2''),
      SettleLaunch demo_storage ''a1'' (NotCreated ''x'') 9, ReserveLaunch demo_storage (demo_request ''a3'' ''t3'')])"
  by (rule journal_invariant) code_simp

text \<open>C15. The journal implements one lock per identity, with its answers. From the empty journal, every sequence of
  transactions, read as what its callers were told, is a trace of the table of locks: a reservation is granted to an attempt
  only if the lock of its identity is free, and then holds it; it is refused as in progress only by naming the holder; a
  settlement reported as settled frees the lock of that attempt if it still has one and no other; one reported as uncertain
  keeps it; one that knows no such attempt, and every failure, changes nothing. Records, sizes and compaction
  are invisible at that level. New attempt ids are new.\<close>

theorem journal_implements_locks:
  assumes "run_allowed launch_allowed launch_step None es"
  shows "lock_trace (\<lambda>_. None) (launch_labels None es) (locks (slot_records (run_events launch_step None es)))"
proof -
  have "slot_ok None" by (simp add: slot_ok_def slot_records_def journal_ok_def)
  moreover have "locks (slot_records None) = (\<lambda>_. None)" by (simp add: locks_def slot_records_def fun_eq_iff)
  ultimately show ?thesis using launch_trace [OF _ assms] by simp
qed

theorem journal_implements_locks_witness:
  "\<exists>l. lock_trace (\<lambda>_. None)
     [Granted (buildCanonicalIdentityTuple (rq_params (demo_request ''a1'' ''t1''))) ''a1'',
      Busy (buildCanonicalIdentityTuple (rq_params (demo_request ''a1'' ''t1''))) ''a1'', GivenBack ''a1''] l"
proof -
  let ?es = "[ReserveLaunch demo_storage (demo_request ''a1'' ''t1''), ReserveLaunch demo_storage (demo_request ''a2'' ''t2''),
    SettleLaunch demo_storage ''a1'' (NotCreated ''x'') 9]"
  have "run_allowed launch_allowed launch_step None ?es" by code_simp
  moreover have "launch_labels None ?es =
    [Granted (buildCanonicalIdentityTuple (rq_params (demo_request ''a1'' ''t1''))) ''a1'',
     Busy (buildCanonicalIdentityTuple (rq_params (demo_request ''a1'' ''t1''))) ''a1'', GivenBack ''a1'']" by code_simp
  ultimately show ?thesis using journal_implements_locks [of ?es] by metis
qed

text \<open>C3. No terminal is launched twice: once an attempt is reserved, every later reservation for the
  same identity is refused and changes nothing, through any sequence of transactions of any tab, until
  that very attempt is settled with a confirmed outcome.\<close>

theorem no_second_launch:
  assumes "slot_ok slot" and "reserveTerminalLaunch env q slot = (ReservedAs a rid, slot')"
    and "launch_allowed slot (ReserveLaunch env q)"
    and "run_allowed (\<lambda>slot e. launch_allowed slot e \<and> \<not> confirms a e) launch_step slot' es"
    and "rq_params q' = rq_params q"
  shows "\<exists>b. reserveTerminalLaunch env' q' (run_events launch_step slot' es) =
    (Blocked b, run_events launch_step slot' es)"
proof -
  have ok: "slot_ok slot'" using launch_step_inv [OF assms(1,3)] assms(2) by simp
  have "locks (slot_records slot') (buildCanonicalIdentityTuple (rq_params q)) = Some a"
    using reserve_locks(3) [OF assms(2)] by simp
  with ok held.run_inv [OF _ assms(4), of "buildCanonicalIdentityTuple (rq_params q)"] show ?thesis
    by (intro locked_blocks) (simp add: assms(5))
qed

theorem no_second_launch_witness:
  "\<exists>slot' b. reserveTerminalLaunch demo_storage (demo_request ''a1'' ''t1'') None = (ReservedAs ''a1'' ''t1'', slot') \<and>
     reserveTerminalLaunch demo_storage (demo_request ''a2'' ''t2'')
       (run_events launch_step slot' [SettleLaunch demo_storage ''a1'' (UncertainOutcome ''x'') 8]) =
     (Blocked b, run_events launch_step slot' [SettleLaunch demo_storage ''a1'' (UncertainOutcome ''x'') 8])"
proof -
  let ?es = "[SettleLaunch demo_storage ''a1'' (UncertainOutcome ''x'') 8]"
  obtain slot' where run: "reserveTerminalLaunch demo_storage (demo_request ''a1'' ''t1'') None = (ReservedAs ''a1'' ''t1'', slot')"
  proof -
    have "fst (reserveTerminalLaunch demo_storage (demo_request ''a1'' ''t1'') None) = ReservedAs ''a1'' ''t1''" by code_simp
    with that show ?thesis by (metis prod.collapse)
  qed
  have "slot_ok None" "launch_allowed None (ReserveLaunch demo_storage (demo_request ''a1'' ''t1''))"
    by (simp_all add: slot_ok_def slot_records_def journal_ok_def)
  moreover have "run_allowed (\<lambda>slot e. launch_allowed slot e \<and> \<not> confirms ''a1'' e) launch_step slot' ?es" by simp
  moreover have "rq_params (demo_request ''a2'' ''t2'') = rq_params (demo_request ''a1'' ''t1'')" by (simp add: demo_request_def)
  ultimately show ?thesis using no_second_launch [OF _ run] run by blast
qed

text \<open>C29. A confirmed outcome opens the way again: after it is written, the next reservation for the
  identity that does not ask for a terminal id of its own succeeds, provided the storage works, compaction finds
  room (fewer than 128 attempts are unresolved) and the sizes stay within their limits.\<close>

theorem launch_possible_again:
  assumes "slot_ok slot" and "locks (slot_records slot) (buildCanonicalIdentityTuple (rq_params q)) = Some a"
    and "\<forall>why. out \<noteq> UncertainOutcome why"
    and "settleTerminalLaunch env a out now slot = (Settled, slot')"
    and "se_available env" and "se_readable env" and "se_writable env" and "explicit_id q = None"
    and "readLaunchJournalDocument env slot' = Inr (slot_records slot')"
    and "compact_records (slot_records slot') = Inr rest"
    and "r = new_record (rq_params q) (rq_generation q) (rq_desktopId q) (rq_freshId q) (rq_attemptId q) (rq_now q)"
    and "utf8_length (stringify (record_json r)) \<le> MAX_LAUNCH_RECORD_BYTES"
    and "length (document_text (rest @ [r])) \<le> MAX_LAUNCH_JOURNAL_DOCUMENT_BYTES"
  shows "fst (reserveTerminalLaunch env q slot') = ReservedAs (rq_attemptId q) (rq_freshId q)"
proof -
  have "launch_step slot (SettleLaunch env a out now) = slot'" using assms(4) by simp
  then have ok: "slot_ok slot'" using launch_step_inv [OF assms(1), of "SettleLaunch env a out now"] by simp
  have free: "locks (slot_records slot') (buildCanonicalIdentityTuple (rq_params q)) = None"
    by (simp add: confirm_frees [OF assms(1-4)])
  show ?thesis by (rule reserve_succeeds [OF assms(5-7) ok assms(9) free assms(8,10-13)])
qed

theorem launch_possible_again_witness:
  "fst (reserveTerminalLaunch demo_storage (demo_request ''a2'' ''t2'') demo_settled) = ReservedAs ''a2'' ''t2''"
proof -
  let ?q = "demo_request ''a2'' ''t2''" and ?out = "NotCreated ''x''"
  let ?r = "new_record (rq_params ?q) (rq_generation ?q) (rq_desktopId ?q) (rq_freshId ?q) (rq_attemptId ?q) (rq_now ?q)"
  have "slot_ok demo_reserved"
    "locks (slot_records demo_reserved) (buildCanonicalIdentityTuple (rq_params ?q)) = Some ''a1''"
    by code_simp+
  moreover have "\<forall>why. ?out \<noteq> UncertainOutcome why" by simp
  moreover have "settleTerminalLaunch demo_storage ''a1'' ?out 9 demo_reserved = (Settled, demo_settled)" by code_simp
  moreover have "se_available demo_storage" "se_readable demo_storage" "se_writable demo_storage" "explicit_id ?q = None"
    "readLaunchJournalDocument demo_storage demo_settled = Inr (slot_records demo_settled)"
    "compact_records (slot_records demo_settled) = Inr (slot_records demo_settled)" by code_simp+
  moreover have "utf8_length (stringify (record_json ?r)) \<le> MAX_LAUNCH_RECORD_BYTES"
    "length (document_text (slot_records demo_settled @ [?r])) \<le> MAX_LAUNCH_JOURNAL_DOCUMENT_BYTES" by code_simp+
  ultimately have "fst (reserveTerminalLaunch demo_storage ?q demo_settled) = ReservedAs (rq_attemptId ?q) (rq_freshId ?q)"
    using launch_possible_again [where slot = demo_reserved and slot' = demo_settled and q = ?q and a = "''a1''" and out = ?out
        and now = 9 and env = demo_storage and rest = "slot_records demo_settled", OF _ _ _ _ _ _ _ _ _ _ refl]
    by blast
  then show ?thesis by (simp add: demo_request_def)
qed

text \<open>The journal key of a launch is unambiguous: two launches have the same canonical identity
  exactly if all eight components agree, whatever quotes, commas or control characters they contain.\<close>

theorem identity_unambiguous:
  "buildCanonicalIdentityTuple p = buildCanonicalIdentityTuple q \<longleftrightarrow> p = q"
  by (rule identity_injective)

section \<open>Claims on resources\<close>

text \<open>C16. No window waits for a resource that is free. After any sequence of mounts, unmounts, direct
  claims and releases, clearings and observations, every mounted listener of the claim hook finds its
  key held by some window: whenever a key is given back, the notification has already handed it to a
  listener.\<close>

theorem no_wait_for_free_resource:
  assumes "Waiter i key w \<in> set (rg_subscribers (run_events claim_step empty_registry es))"
  shows "getClaim (run_events claim_step empty_registry es) key \<noteq> None"
proof -
  have "waiters_served (run_events claim_step empty_registry es)"
    by (rule serving.run_inv) (simp_all add: empty_registry_served run_allowed_const list_all_iff)
  with assms show ?thesis by (force simp: waiters_served_def getClaim_def simp del: not_None_eq)
qed

theorem no_wait_for_free_resource_witness:
  "getClaim (run_events claim_step empty_registry (demo_claims @ [Unmount 1 demo_claim_key ''a'' 13])) demo_claim_key \<noteq> None"
proof -
  have "Waiter 3 demo_claim_key ''c'' \<in>
      set (rg_subscribers (run_events claim_step empty_registry (demo_claims @ [Unmount 1 demo_claim_key ''a'' 13])))"
    by code_simp
  then show ?thesis by (rule no_wait_for_free_resource)
qed

text \<open>C39. When the window that holds a resource goes away, the resource goes to the listener that has
  waited longest, and its status turns to owned.\<close>

theorem release_hands_over:
  assumes "getClaim reg key = Some c" and "ac_windowId c = w"
    and "filter (\<lambda>s. s \<noteq> Waiter i key w) (rg_subscribers reg) = earlier @ Waiter j key v # later"
    and "\<forall>s \<in> set earlier. \<not> waits (formatClaimKey key) s"
  shows "getClaimStatus (unmount_claim reg i key w now) (Some key) v = Owned"
proof -
  have "find (waits (formatClaimKey key)) (earlier @ Waiter j key v # later) = Some (Waiter j key v)"
    using assms(4) by (induction earlier) auto
  then have "getClaim (unmount_claim reg i key w now) key = Some \<lparr>ac_key = key, ac_windowId = v, ac_claimedAt = now\<rparr>"
    unfolding unmount_hands_over [OF assms(1,2)] assms(3) by (simp add: first_waiter_def)
  then show ?thesis by (simp add: getClaimStatus_def)
qed

theorem release_hands_over_witness:
  "getClaimStatus (unmount_claim (run_events claim_step empty_registry demo_claims) 1 demo_claim_key ''a'' 13)
     (Some demo_claim_key) ''b'' = Owned"
proof (rule release_hands_over)
  show "getClaim (run_events claim_step empty_registry demo_claims) demo_claim_key =
      Some \<lparr>ac_key = demo_claim_key, ac_windowId = ''a'', ac_claimedAt = 10\<rparr>" by code_simp
  show "filter (\<lambda>s. s \<noteq> Waiter 1 demo_claim_key ''a'') (rg_subscribers (run_events claim_step empty_registry demo_claims)) =
      [] @ Waiter 2 demo_claim_key ''b'' # [Waiter 3 demo_claim_key ''c'']" by code_simp
qed simp_all

text \<open>C40. Claims do not outlive their windows: as long as claims are only made by the hook, every claim
  belongs to a mounted listener of the window that holds it.\<close>

theorem claims_have_mounted_owner:
  assumes "list_all hook_event es"
    and "getClaim (run_events claim_step empty_registry es) key = Some c"
  shows "\<exists>s \<in> set (rg_subscribers (run_events claim_step empty_registry es)). waits_for (ac_windowId c) (formatClaimKey key) s"
proof -
  have "registry_ok (run_events claim_step empty_registry es)"
    using assms(1)
    by (intro claims.run_inv) (simp_all add: empty_registry_served empty_registry_owned registry_ok_def run_allowed_const)
  with assms(2) show ?thesis
    by (auto simp: registry_ok_def getClaim_def claim_justified_def list_ex_iff dest!: claims_ownedD)
qed

theorem claims_have_mounted_owner_witness:
  "\<exists>s \<in> set (rg_subscribers (run_events claim_step empty_registry demo_claims)).
     waits_for ''a'' (formatClaimKey demo_claim_key) s"
proof -
  have "list_all hook_event demo_claims" by code_simp
  moreover have "getClaim (run_events claim_step empty_registry demo_claims) demo_claim_key =
      Some \<lparr>ac_key = demo_claim_key, ac_windowId = ''a'', ac_claimedAt = 10\<rparr>" by code_simp
  ultimately show ?thesis by (auto dest!: claims_have_mounted_owner)
qed

text \<open>Different terminals have different claim keys, when no part of their identity contains a
  slash.\<close>

theorem terminal_claims_distinct:
  assumes "input_no_slash s" and "input_no_slash t"
  shows "formatClaimKey (buildTerminalClaimKey s) = formatClaimKey (buildTerminalClaimKey t) \<longleftrightarrow> s = t"
  using terminal_keys_inj [OF assms] by blast

end
